(* ===== verification/Go_Prelude.thy ===== *)
theory Go_Prelude
  imports Main "HOL-Library.Sublist"
begin

text \<open>
  Shared vocabulary of the tugbot development: the values a Go function of the
  repository can end with (a result, or a run-time panic), pointers that may be
  nil, and the functions of Go's \<^verbatim>\<open>strings\<close> and \<^verbatim>\<open>fmt\<close> packages
  that \<^verbatim>\<open>src/container/container.go\<close> calls. A Go \<^verbatim>\<open>string\<close> is a sequence
  of bytes, which is what \<^typ>\<open>string\<close> is here; the nil slice and the empty slice
  are both \<^term>\<open>[]\<close>, since the sources only take lengths and iterate.

  The collection \<open>go_simps\<close> holds the equations that evaluate these primitives;
  the component theories add their own unfolding rules to it.
\<close>

named_theorems go_simps "equations that evaluate the Go primitives and the operations built on them"

section \<open>Panics and nil pointers\<close>

text \<open>
  The run-time panics of the sources, and \<open>PanicValue\<close> for a call of
  \<^verbatim>\<open>panic\<close> with a message, as the libraries of the tests make.
\<close>

datatype go_panic =
    NilPointerDereference
  | SliceBoundsOutOfRange
  | IndexOutOfRange
  | PanicValue string

type_synonym 'a go_result = "go_panic + 'a"

definition go_bind :: "'a go_result \<Rightarrow> ('a \<Rightarrow> 'b go_result) \<Rightarrow> 'b go_result" where
  "go_bind r f = (case r of Inl e \<Rightarrow> Inl e | Inr x \<Rightarrow> f x)"

definition deref :: "'a option \<Rightarrow> 'a go_result" where
  "deref p = (case p of None \<Rightarrow> Inl NilPointerDereference | Some x \<Rightarrow> Inr x)"

definition go_index :: "'a list \<Rightarrow> nat \<Rightarrow> 'a go_result" where
  "go_index xs i = (if i < length xs then Inr (xs ! i) else Inl IndexOutOfRange)"

definition go_slice :: "string \<Rightarrow> int \<Rightarrow> int \<Rightarrow> string go_result" where
  "go_slice s lo hi =
     (if 0 \<le> lo \<and> lo \<le> hi \<and> hi \<le> int (length s)
      then Inr (take (nat hi - nat lo) (drop (nat lo) s))
      else Inl SliceBoundsOutOfRange)"

fun go_mapM :: "('a \<Rightarrow> 'b go_result) \<Rightarrow> 'a list \<Rightarrow> 'b list go_result" where
  "go_mapM f [] = Inr []"
| "go_mapM f (x # xs) =
     go_bind (f x) (\<lambda>y. go_bind (go_mapM f xs) (\<lambda>ys. Inr (y # ys)))"

definition panics :: "'a go_result \<Rightarrow> bool" where
  "panics r = (case r of Inl _ \<Rightarrow> True | Inr _ \<Rightarrow> False)"

section \<open>The strings package\<close>

definition strings_Contains :: "string \<Rightarrow> string \<Rightarrow> bool" where
  "strings_Contains s substr = sublist substr s"

fun index_from :: "nat \<Rightarrow> string \<Rightarrow> string \<Rightarrow> int" where
  "index_from i substr [] = (if substr = [] then int i else - 1)"
| "index_from i substr (c # s) =
     (if prefix substr (c # s) then int i else index_from (Suc i) substr s)"

definition strings_Index :: "string \<Rightarrow> string \<Rightarrow> int" where
  "strings_Index s substr = index_from 0 substr s"

fun last_index_from :: "nat \<Rightarrow> int \<Rightarrow> string \<Rightarrow> string \<Rightarrow> int" where
  "last_index_from i found substr [] = (if substr = [] then int i else found)"
| "last_index_from i found substr (c # s) =
     last_index_from (Suc i) (if prefix substr (c # s) then int i else found) substr s"

definition strings_LastIndex :: "string \<Rightarrow> string \<Rightarrow> int" where
  "strings_LastIndex s substr = last_index_from 0 (- 1) substr s"

definition strings_TrimPrefix :: "string \<Rightarrow> string \<Rightarrow> string" where
  "strings_TrimPrefix s pre = (if prefix pre s then drop (length pre) s else s)"

function split_from :: "string \<Rightarrow> string \<Rightarrow> string \<Rightarrow> string list" where
  "split_from sep field [] = [rev field]"
| "split_from sep field (c # s) =
     (if sep \<noteq> [] \<and> prefix sep (c # s)
      then rev field # split_from sep [] (drop (length sep) (c # s))
      else split_from sep (c # field) s)"
  by pat_completeness auto
termination
proof (relation "measure (\<lambda>(sep, field, s). length s)")
  fix sep field :: string and c s
  assume "sep \<noteq> [] \<and> prefix sep (c # s)"
  then have "0 < length sep" by simp
  then show "((sep, [], drop (length sep) (c # s)), sep, field, c # s)
    \<in> measure (\<lambda>(sep, field, s). length s)"
    by simp
qed simp_all

definition strings_Split :: "string \<Rightarrow> string \<Rightarrow> string list" where
  "strings_Split s sep = (if sep = [] then map (\<lambda>c. [c]) s else split_from sep [] s)"

fun strings_Join :: "string list \<Rightarrow> string \<Rightarrow> string" where
  "strings_Join [] sep = []"
| "strings_Join [x] sep = x"
| "strings_Join (x # y # ys) sep = x @ sep @ strings_Join (y # ys) sep"

text \<open>
  The two parts of a string that the sources cut out with \<^verbatim>\<open>Index\<close> and
  \<^verbatim>\<open>LastIndex\<close>: what stands before the first occurrence of a byte, and what
  starts at its last occurrence.
\<close>

definition before_first :: "char \<Rightarrow> string \<Rightarrow> string" where
  "before_first c s = takeWhile (\<lambda>x. x \<noteq> c) s"

definition from_last :: "char \<Rightarrow> string \<Rightarrow> string" where
  "from_last c s = c # rev (takeWhile (\<lambda>x. x \<noteq> c) (rev s))"

section \<open>Results and panics\<close>

lemma go_bind_simps [simp]:
  "go_bind (Inl e) f = Inl e"
  "go_bind (Inr x) f = f x"
  by (simp_all add: go_bind_def)

text \<open>
  The second argument of \<open>go_bind\<close> is applied to the value of the first only: a
  function that recurses under \<open>go_bind\<close> makes its recursive call only when the
  first computation has returned.
\<close>

lemma go_bind_cong [fundef_cong]:
  "r = r' \<Longrightarrow> (\<And>x. r' = Inr x \<Longrightarrow> f x = g x) \<Longrightarrow> go_bind r f = go_bind r' g"
  by (cases r') simp_all

lemma deref_simps [simp]:
  "deref None = Inl NilPointerDereference"
  "deref (Some x) = Inr x"
  by (simp_all add: deref_def)

lemma deref_eq_Inr [simp]: "deref p = Inr x \<longleftrightarrow> p = Some x"
  by (cases p) simp_all

lemma deref_eq_Inl [simp]: "deref p = Inl e \<longleftrightarrow> p = None \<and> e = NilPointerDereference"
  by (cases p) auto

lemma panics_deref [simp]: "panics (deref p) \<longleftrightarrow> p = None"
  by (cases p) (simp_all add: panics_def)

lemma go_bind_eq_Inr:
  "go_bind r f = Inr y \<longleftrightarrow> (\<exists>x. r = Inr x \<and> f x = Inr y)"
  by (cases r) simp_all

lemma go_bind_eq_Inl:
  "go_bind r f = Inl e \<longleftrightarrow> r = Inl e \<or> (\<exists>x. r = Inr x \<and> f x = Inl e)"
  by (cases r) simp_all

lemma go_bind_Inr_right [simp]: "go_bind r Inr = r"
  by (cases r) simp_all

lemma panics_simps [simp]:
  "panics (Inl e) = True"
  "panics (Inr x) = False"
  by (simp_all add: panics_def)

lemma panics_iff: "panics r \<longleftrightarrow> (\<exists>e. r = Inl e)"
  by (cases r) simp_all

lemma not_panics_iff: "\<not> panics r \<longleftrightarrow> (\<exists>x. r = Inr x)"
  by (cases r) simp_all

lemma panics_go_bind: "panics (go_bind r f) \<longleftrightarrow> panics r \<or> (\<exists>x. r = Inr x \<and> panics (f x))"
  by (cases r) simp_all

lemma go_index_simps [simp]:
  "go_index (x # xs) 0 = Inr x"
  "go_index [] i = Inl IndexOutOfRange"
  by (simp_all add: go_index_def)

lemma go_index_0: "xs \<noteq> [] \<Longrightarrow> go_index xs 0 = Inr (hd xs)"
  by (cases xs) simp_all

lemma go_mapM_eq_Inr:
  "go_mapM f xs = Inr ys \<longleftrightarrow> list_all2 (\<lambda>x y. f x = Inr y) xs ys"
proof (induction xs arbitrary: ys)
  case Nil
  show ?case by auto
next
  case (Cons x xs)
  show ?case
    by (cases ys) (auto simp: go_bind_eq_Inr Cons.IH)
qed

lemma go_mapM_total:
  "(\<And>x. x \<in> set xs \<Longrightarrow> f x = Inr (g x)) \<Longrightarrow> go_mapM f xs = Inr (map g xs)"
  by (induction xs) simp_all

lemma go_mapM_panics:
  "panics (go_mapM f xs) \<longleftrightarrow> (\<exists>x \<in> set xs. panics (f x))"
proof (induction xs)
  case Nil
  show ?case by simp
next
  case (Cons x xs)
  show ?case
    by (cases "f x"; cases "go_mapM f xs") (use Cons.IH in simp_all)
qed

lemma go_mapM_length: "go_mapM f xs = Inr ys \<Longrightarrow> length ys = length xs"
  by (simp add: go_mapM_eq_Inr list_all2_lengthD)

lemma option_unit_neq [simp]: "x \<noteq> Some () \<longleftrightarrow> x = None"
  by (cases x) simp_all

section \<open>Searching for one byte\<close>

lemma prefix_single [simp]: "prefix [c] (x # xs) \<longleftrightarrow> c = x"
  by (simp add: prefix_Cons)

lemma strings_Contains_single [go_simps]: "strings_Contains s [c] \<longleftrightarrow> c \<in> set s"
  by (auto simp: strings_Contains_def sublist_def in_set_conv_decomp)

lemma strings_Contains_append:
  "strings_Contains s sub \<Longrightarrow> strings_Contains (s @ t) sub"
  unfolding strings_Contains_def sublist_def by (metis append.assoc)

lemma strings_Contains_appendI:
  "strings_Contains t sub \<Longrightarrow> strings_Contains (s @ t) sub"
  unfolding strings_Contains_def sublist_def by (metis append.assoc)

lemma index_from_single:
  "index_from i [c] s =
     (if c \<in> set s then int (i + length (before_first c s)) else - 1)"
  by (induction s arbitrary: i) (auto simp: before_first_def)

lemma strings_Index_single [go_simps]:
  "strings_Index s [c] = (if c \<in> set s then int (length (before_first c s)) else - 1)"
  by (simp add: strings_Index_def index_from_single)

lemma takeWhile_rev_Cons_found:
  "\<exists>y \<in> set xs. \<not> P y \<Longrightarrow> takeWhile P (rev (x # xs)) = takeWhile P (rev xs)"
  by (auto simp: takeWhile_append1)

lemma takeWhile_rev_Cons_all:
  "\<forall>y \<in> set xs. P y \<Longrightarrow> takeWhile P (rev (x # xs)) = rev xs @ takeWhile P [x]"
  using takeWhile_append2 [of "rev xs" P "[x]"] by (simp del: takeWhile.simps)

lemma length_takeWhile_rev_less:
  "c \<in> set s \<Longrightarrow> length (takeWhile (\<lambda>x. x \<noteq> c) (rev s)) < length s"
proof -
  let ?t = "takeWhile (\<lambda>x. x \<noteq> c) (rev s)"
  assume "c \<in> set s"
  then have neq: "?t \<noteq> rev s"
    by (auto simp: takeWhile_eq_all_conv)
  have take: "?t = take (length ?t) (rev s)"
    by (rule takeWhile_eq_take)
  have "length ?t \<le> length (rev s)"
    by (rule length_takeWhile_le)
  moreover have "length ?t \<noteq> length (rev s)"
  proof
    assume "length ?t = length (rev s)"
    with take have "?t = rev s" by simp
    with neq show False by contradiction
  qed
  ultimately show ?thesis by simp
qed

lemma last_index_from_single:
  "last_index_from i found [c] s =
     (if c \<in> set s
      then int i + int (length s) - 1 - int (length (takeWhile (\<lambda>x. x \<noteq> c) (rev s)))
      else found)"
proof (induction s arbitrary: i found)
  case Nil
  show ?case by simp
next
  case (Cons x s)
  let ?P = "\<lambda>y. y \<noteq> c"
  have step: "last_index_from i found [c] (x # s) =
      last_index_from (Suc i) (if c = x then int i else found) [c] s"
    by simp
  show ?case
  proof (cases "c \<in> set s")
    case True
    then have "takeWhile ?P (rev (x # s)) = takeWhile ?P (rev s)"
      by (intro takeWhile_rev_Cons_found) auto
    then have "length (takeWhile ?P (rev (x # s))) = length (takeWhile ?P (rev s))"
      by (rule arg_cong)
    with True show ?thesis
      unfolding step Cons.IH by simp
  next
    case False
    then have "takeWhile ?P (rev (x # s)) = rev s @ takeWhile ?P [x]"
      by (intro takeWhile_rev_Cons_all) auto
    then have "length (takeWhile ?P (rev (x # s))) = length s + (if x = c then 0 else 1)"
      by (simp del: rev.simps)
    with False show ?thesis
      unfolding step Cons.IH by auto
  qed
qed

lemma strings_LastIndex_single [go_simps]:
  "strings_LastIndex s [c] =
     (if c \<in> set s
      then int (length s) - 1 - int (length (takeWhile (\<lambda>x. x \<noteq> c) (rev s)))
      else - 1)"
  by (simp add: strings_LastIndex_def last_index_from_single)

section \<open>Cutting a string at a byte\<close>

lemma takeWhile_neq_append:
  "c \<notin> set a \<Longrightarrow> takeWhile (\<lambda>x. x \<noteq> c) (a @ c # t) = a"
  by (induction a) auto

lemma takeWhile_neq_id: "c \<notin> set s \<Longrightarrow> takeWhile (\<lambda>x. x \<noteq> c) s = s"
  by (induction s) auto

lemma before_first_notin [simp]: "c \<notin> set (before_first c s)"
  by (auto simp: before_first_def dest: set_takeWhileD)

lemma before_first_append [simp]:
  "c \<notin> set a \<Longrightarrow> before_first c (a @ c # t) = a"
  by (simp add: before_first_def takeWhile_neq_append)

lemma before_first_id: "c \<notin> set s \<Longrightarrow> before_first c s = s"
  by (simp add: before_first_def takeWhile_neq_id)

lemma before_first_decomp:
  "c \<in> set s \<Longrightarrow> \<exists>t. s = before_first c s @ c # t"
proof -
  assume "c \<in> set s"
  then have "dropWhile (\<lambda>x. x \<noteq> c) s \<noteq> []"
    by auto
  then obtain y t where dw: "dropWhile (\<lambda>x. x \<noteq> c) s = y # t"
    by (cases "dropWhile (\<lambda>x. x \<noteq> c) s") auto
  from hd_dropWhile [of "\<lambda>x. x \<noteq> c" s] dw have "y = c" by simp
  with dw takeWhile_dropWhile_id [of "\<lambda>x. x \<noteq> c" s]
  have "s = before_first c s @ c # t" by (simp add: before_first_def)
  then show ?thesis ..
qed

lemma from_last_append [simp]:
  "c \<notin> set t \<Longrightarrow> from_last c (a @ c # t) = c # t"
  using takeWhile_neq_append [of c "rev t" "rev a"] by (simp add: from_last_def)

lemma from_last_decomp:
  "c \<in> set s \<Longrightarrow> \<exists>a. s = a @ from_last c s"
proof -
  assume "c \<in> set s"
  then have "c \<in> set (rev s)" by simp
  then obtain t where "rev s = before_first c (rev s) @ c # t"
    using before_first_decomp by blast
  then have "rev (rev s) = rev (before_first c (rev s) @ c # t)"
    by (rule arg_cong)
  then have "s = rev t @ from_last c s"
    by (simp add: from_last_def before_first_def)
  then show ?thesis ..
qed

lemma from_last_hd [simp]: "hd (from_last c s) = c"
  by (simp add: from_last_def)

lemma from_last_tl_notin [simp]: "c \<notin> set (tl (from_last c s))"
  by (auto simp: from_last_def dest: set_takeWhileD)

lemma length_from_last:
  "length (from_last c s) = Suc (length (takeWhile (\<lambda>x. x \<noteq> c) (rev s)))"
  by (simp add: from_last_def)

lemma go_slice_full: "0 \<le> lo \<Longrightarrow> lo \<le> int (length s) \<Longrightarrow>
    go_slice s lo (int (length s)) = Inr (drop (nat lo) s)"
  by (simp add: go_slice_def)

lemma go_slice_to: "n \<le> length s \<Longrightarrow> go_slice s 0 (int n) = Inr (take n s)"
  by (simp add: go_slice_def)

lemma go_slice_negative [simp]:
  "hi < 0 \<Longrightarrow> go_slice s lo hi = Inl SliceBoundsOutOfRange"
  "lo < 0 \<Longrightarrow> go_slice s lo hi = Inl SliceBoundsOutOfRange"
  by (auto simp: go_slice_def)

lemma go_slice_to_Index [go_simps]:
  "go_slice s 0 (strings_Index s [c]) =
     (if c \<in> set s then Inr (before_first c s) else Inl SliceBoundsOutOfRange)"
proof (cases "c \<in> set s")
  case True
  have "take (length (before_first c s)) s = before_first c s"
    unfolding before_first_def by (rule takeWhile_eq_take [symmetric])
  moreover have "length (before_first c s) \<le> length s"
    unfolding before_first_def by (rule length_takeWhile_le)
  ultimately show ?thesis
    using True by (simp add: strings_Index_single go_slice_to)
next
  case False
  then show ?thesis by (simp add: strings_Index_single)
qed

lemma go_slice_from_LastIndex [go_simps]:
  "go_slice s (strings_LastIndex s [c]) (int (length s)) =
     (if c \<in> set s then Inr (from_last c s) else Inl SliceBoundsOutOfRange)"
proof (cases "c \<in> set s")
  case True
  then obtain a where s: "s = a @ from_last c s"
    using from_last_decomp by blast
  define k where "k = length (takeWhile (\<lambda>x. x \<noteq> c) (rev s))"
  from s have "length s = length a + length (from_last c s)"
    by (metis length_append)
  then have a: "length a = length s - 1 - k"
    by (simp add: length_from_last k_def)
  from s have "drop (length a) s = drop (length a) (a @ from_last c s)"
    by (rule arg_cong)
  then have drop: "drop (length s - 1 - k) s = from_last c s"
    by (simp add: a)
  have "k < length s"
    unfolding k_def using True by (rule length_takeWhile_rev_less)
  then have "nat (int (length s) - 1 - int k) = length s - 1 - k"
    and "0 \<le> int (length s) - 1 - int k" and "int (length s) - 1 - int k \<le> int (length s)"
    by simp_all
  then show ?thesis
    using True drop by (simp add: strings_LastIndex_single go_slice_full flip: k_def)
next
  case False
  then show ?thesis by (simp add: strings_LastIndex_single)
qed

section \<open>TrimPrefix, Split and Join\<close>

lemma strings_TrimPrefix_single [go_simps]:
  "strings_TrimPrefix s [c] = (case s of [] \<Rightarrow> [] | x # xs \<Rightarrow> if x = c then xs else s)"
  by (cases s) (simp_all add: strings_TrimPrefix_def)

lemma strings_TrimPrefix_append [simp]: "strings_TrimPrefix (pre @ s) pre = s"
  by (simp add: strings_TrimPrefix_def)

lemma strings_TrimPrefix_cases:
  "strings_TrimPrefix s pre = s \<or> pre @ strings_TrimPrefix s pre = s"
  by (auto simp: strings_TrimPrefix_def prefix_def)

lemma split_from_nonempty [simp]: "split_from sep field s \<noteq> []"
  by (induction sep field s rule: split_from.induct) auto

lemma strings_Join_Cons:
  "xs \<noteq> [] \<Longrightarrow> strings_Join (x # xs) sep = x @ sep @ strings_Join xs sep"
  by (cases xs) simp_all

lemma strings_Join_split_from:
  "strings_Join (split_from sep field s) sep = rev field @ s"
proof (induction sep field s rule: split_from.induct)
  case (1 sep field)
  show ?case by simp
next
  case (2 sep field c s)
  show ?case
  proof (cases "sep \<noteq> [] \<and> prefix sep (c # s)")
    case True
    then have "sep @ drop (length sep) (c # s) = c # s"
      by (metis append_eq_conv_conj prefix_def)
    with True "2.IH"(1) show ?thesis
      by (simp add: strings_Join_Cons del: drop.simps)
  next
    case False
    with "2.IH"(2) show ?thesis by auto
  qed
qed

lemma strings_Join_Split:
  "sep \<noteq> [] \<Longrightarrow> strings_Join (strings_Split s sep) sep = s"
  by (simp add: strings_Split_def strings_Join_split_from)

lemma strings_Split_nonempty [simp]: "sep \<noteq> [] \<Longrightarrow> strings_Split s sep \<noteq> []"
  by (simp add: strings_Split_def)

lemma hd_split_from_single:
  "hd (split_from [c] field s) = rev field @ before_first c s"
  by (induction s arbitrary: field) (auto simp: before_first_def)

lemma hd_strings_Split_single [go_simps]:
  "hd (strings_Split s [c]) = before_first c s"
  by (simp add: strings_Split_def hd_split_from_single)

lemma go_index_Split_single [go_simps]:
  "go_index (strings_Split s [c]) 0 = Inr (before_first c s)"
  by (simp add: go_index_0 hd_strings_Split_single)

end
