(* ===== verification/Docker_Client.thy ===== *)
theory Docker_Client
  imports Go_Prelude
begin

text \<open>
  The data of the \<^verbatim>\<open>dockerclient\<close> package that \<^verbatim>\<open>src/container/container.go\<close>
  reads and writes: one record per struct, holding the fields the sources touch, in
  the order the Go structs declare them. That package is not part of the repository,
  so these types follow the specification's data model (section 3) and the field
  names the sources use. A pointer field is an \<^typ>\<open>'a option\<close> (\<^term>\<open>None\<close> is
  nil); a Go map is a partial function, the nil map being the empty one, because the
  sources only read maps they did not make themselves. The fields of
  \<^verbatim>\<open>ContainerInfo\<close>, \<^verbatim>\<open>ImageInfo\<close> and \<^verbatim>\<open>HostConfig\<close> carry the prefixes
  \<open>ci_\<close>, \<open>ii_\<close> and \<open>hc_\<close>, so that the methods of \<^verbatim>\<open>Container\<close> can keep
  their names.
\<close>

section \<open>The structs\<close>

record PortBinding =
  HostIp :: string
  HostPort :: string

record State =
  Running :: bool
  Paused :: bool
  Restarting :: bool
  Dead :: bool
  StartedAt :: nat

record ContainerConfig =
  User :: string
  ExposedPorts :: "string \<rightharpoonup> unit"
  Env :: "string list"
  Cmd :: "string list"
  Image :: string
  Volumes :: "string \<rightharpoonup> unit"
  WorkingDir :: string
  Entrypoint :: "string list"
  Labels :: "string \<rightharpoonup> string"

record HostConfig =
  hc_Links :: "string list"
  hc_PortBindings :: "string \<rightharpoonup> PortBinding list"

record ContainerInfo =
  ci_Id :: string
  ci_Name :: string
  ci_Config :: "ContainerConfig option"
  ci_State :: "State option"
  ci_HostConfig :: "HostConfig option"

record ImageInfo =
  ii_Config :: "ContainerConfig option"
  ii_Id :: string

section \<open>The lifecycle state string\<close>

text \<open>
  \<^verbatim>\<open>StartedAt\<close> is a time; it is kept as the number of nanoseconds since Go's zero
  time, so that \<^verbatim>\<open>IsZero\<close> is the test for 0.
\<close>

definition StateString :: "State \<Rightarrow> string" where
  "StateString s =
     (if Running s then
        (if Paused s then ''paused''
         else if Restarting s then ''restarting''
         else ''running'')
      else if Dead s then ''dead''
      else if StartedAt s = 0 then ''created''
      else ''exited'')"

definition state_strings :: "string list" where
  "state_strings = [''paused'', ''restarting'', ''running'', ''dead'', ''created'', ''exited'']"

lemma StateString_range: "StateString s \<in> set state_strings"
  by (simp add: StateString_def state_strings_def)

lemma StateString_exited_iff:
  "StateString s = ''exited'' \<longleftrightarrow> \<not> Running s \<and> \<not> Dead s \<and> StartedAt s \<noteq> 0"
  by (simp add: StateString_def)

lemma StateString_running_iff:
  "StateString s = ''running'' \<longleftrightarrow> Running s \<and> \<not> Paused s \<and> \<not> Restarting s"
  by (simp add: StateString_def)

lemma StateString_paused_iff: "StateString s = ''paused'' \<longleftrightarrow> Running s \<and> Paused s"
  by (simp add: StateString_def)

lemma StateString_created_iff:
  "StateString s = ''created'' \<longleftrightarrow> \<not> Running s \<and> \<not> Dead s \<and> StartedAt s = 0"
  by (simp add: StateString_def)

end
