(* ===== verification/Tugbot_Container.thy ===== *)
theory Tugbot_Container
  imports Docker_Client
begin

text \<open>
  The \<^verbatim>\<open>Container\<close> type of \<^verbatim>\<open>src/container/container.go\<close> and its read-only
  methods: the label constants, the constructor, the accessors \<^verbatim>\<open>ID\<close>,
  \<^verbatim>\<open>Name\<close>, \<^verbatim>\<open>ImageID\<close>, \<^verbatim>\<open>ImageName\<close>, \<^verbatim>\<open>Links\<close> and
  \<^verbatim>\<open>StopSignal\<close>, and the two classifiers \<^verbatim>\<open>IsTugbot\<close> and
  \<^verbatim>\<open>IsTugbotCandidate\<close>. Every method returns a \<^typ>\<open>'a go_result\<close>: the
  snapshot holds pointers, and a method that follows a nil pointer panics. The
  lemmas give each method's value on every input, say exactly when it panics, and
  state the classification facts of the specification (section 8).
\<close>

section \<open>Labels\<close>

definition LabelTugbot :: string where
  "LabelTugbot = ''gaiadocker.tugbot''"

definition LabelTest :: string where
  "LabelTest = ''tugbot.test''"

definition LabelCreatedFrom :: string where
  "LabelCreatedFrom = ''tugbot.created.from''"

definition LabelStopSignal :: string where
  "LabelStopSignal = ''tugbot.stop-signal''"

definition LabelZodiac :: string where
  "LabelZodiac = ''tugbot.zodiac.original-image''"

lemmas Label_defs =
  LabelTugbot_def LabelTest_def LabelCreatedFrom_def LabelStopSignal_def LabelZodiac_def

section \<open>The snapshot and its methods\<close>

record Container =
  Stale :: bool
  containerInfo :: "ContainerInfo option"
  imageInfo :: "ImageInfo option"

definition NewContainer :: "ContainerInfo option \<Rightarrow> ImageInfo option \<Rightarrow> Container" where
  "NewContainer info img = \<lparr>Stale = False, containerInfo = info, imageInfo = img\<rparr>"

definition ID :: "Container \<Rightarrow> string go_result" where
  "ID c = go_bind (deref (containerInfo c)) (\<lambda>info. Inr (ci_Id info))"

definition Name :: "Container \<Rightarrow> string go_result" where
  "Name c = go_bind (deref (containerInfo c)) (\<lambda>info.
     Inr (strings_TrimPrefix (ci_Name info) ''/''))"

definition ImageID :: "Container \<Rightarrow> string go_result" where
  "ImageID c = go_bind (deref (imageInfo c)) (\<lambda>img. Inr (ii_Id img))"

text \<open>The expression \<^verbatim>\<open>c.containerInfo.Config\<close> followed by a field access.\<close>

definition config_of :: "Container \<Rightarrow> ContainerConfig go_result" where
  "config_of c = go_bind (deref (containerInfo c)) (\<lambda>info. deref (ci_Config info))"

definition with_tag :: "string \<Rightarrow> string" where
  "with_tag imageName =
     (if \<not> strings_Contains imageName '':'' then imageName @ '':latest'' else imageName)"

definition ImageName :: "Container \<Rightarrow> string go_result" where
  "ImageName c = go_bind (config_of c) (\<lambda>config.
     Inr (with_tag (case Labels config LabelZodiac of
                      Some imageName \<Rightarrow> imageName
                    | None \<Rightarrow> Image config)))"

definition link_name :: "string \<Rightarrow> string go_result" where
  "link_name link = go_index (strings_Split link '':'') 0"

text \<open>
  The loop of \<^verbatim>\<open>Links\<close>: \<open>links\<close> is the slice it appends to, which is nil when
  the loop starts.
\<close>

fun names_loop :: "string list \<Rightarrow> string list \<Rightarrow> string list go_result" where
  "names_loop links [] = Inr links"
| "names_loop links (link # rest) =
     go_bind (link_name link) (\<lambda>name. names_loop (links @ [name]) rest)"

definition Links :: "Container \<Rightarrow> string list go_result" where
  "Links c =
     (case containerInfo c of
        None \<Rightarrow> Inr []
      | Some info \<Rightarrow>
          (case ci_HostConfig info of
             None \<Rightarrow> Inr []
           | Some hc \<Rightarrow> names_loop [] (hc_Links hc)))"

definition IsTugbot :: "Container \<Rightarrow> bool go_result" where
  "IsTugbot c = go_bind (config_of c) (\<lambda>config.
     Inr (case Labels config LabelTugbot of
            Some val \<Rightarrow> val = ''true''
          | None \<Rightarrow> False))"

definition StopSignal :: "Container \<Rightarrow> string go_result" where
  "StopSignal c = go_bind (config_of c) (\<lambda>config.
     Inr (case Labels config LabelStopSignal of Some val \<Rightarrow> val | None \<Rightarrow> ''''))"

definition IsTugbotCandidate :: "Container \<Rightarrow> bool go_result" where
  "IsTugbotCandidate c = go_bind (config_of c) (\<lambda>config.
     case Labels config LabelTest of
       Some val \<Rightarrow>
         if val = ''true'' then
           (case Labels config LabelCreatedFrom of
              Some val' \<Rightarrow>
                if length val' = 0
                then go_bind (go_bind (deref (containerInfo c)) (\<lambda>info. deref (ci_State info)))
                       (\<lambda>st. Inr (StateString st = ''exited''))
                else Inr False
            | None \<Rightarrow>
                go_bind (go_bind (deref (containerInfo c)) (\<lambda>info. deref (ci_State info)))
                  (\<lambda>st. Inr (StateString st = ''exited'')))
         else Inr False
     | None \<Rightarrow> Inr False)"

section \<open>Well-formed snapshots\<close>

text \<open>
  A snapshot as the runtime client builds it from an inspect call: the container's
  information, its configuration and its state are there. The image may be missing,
  as it is in the tests of \<^verbatim>\<open>src/actions/ticker_test.go\<close>.
\<close>

definition wf_container :: "Container \<Rightarrow> bool" where
  "wf_container c =
     (case containerInfo c of
        None \<Rightarrow> False
      | Some info \<Rightarrow> ci_Config info \<noteq> None \<and> ci_State info \<noteq> None)"

definition is_test_label :: "ContainerConfig \<Rightarrow> bool" where
  "is_test_label config \<longleftrightarrow>
     Labels config LabelTest = Some ''true'' \<and>
     (Labels config LabelCreatedFrom = None \<or> Labels config LabelCreatedFrom = Some '''')"

section \<open>The containers of the tests\<close>

text \<open>
  The snapshots that \<^verbatim>\<open>src/actions/ticker_test.go\<close> hands to the polling loop. The
  test file names the label keys \<^verbatim>\<open>container.TugbotTest\<close> and
  \<^verbatim>\<open>container.TugbotEventTimer\<close> and the state \<^verbatim>\<open>stateExited\<close>, none of which
  the listed sources declare: \<open>TugbotTest\<close> is taken to be the key \<^term>\<open>LabelTest\<close>,
  \<open>TugbotEventTimer\<close> a key that no method reads, and \<open>stateExited\<close> a state whose
  string is \<^verbatim>\<open>exited\<close>. All three containers share one configuration and have no
  image.
\<close>

definition TugbotEventTimer :: string where
  "TugbotEventTimer = ''tugbot.event.timer''"

definition stateExited :: State where
  "stateExited =
     \<lparr>Running = False, Paused = False, Restarting = False, Dead = False, StartedAt = 1\<rparr>"

definition test_cc :: ContainerConfig where
  "test_cc =
     \<lparr>User = [], ExposedPorts = Map.empty, Env = [], Cmd = [], Image = [],
      Volumes = Map.empty, WorkingDir = [], Entrypoint = [],
      Labels = [LabelTest \<mapsto> ''true'', TugbotEventTimer \<mapsto> ''10s'']\<rparr>"

definition test_container :: "string \<Rightarrow> string \<Rightarrow> Container" where
  "test_container ident name =
     NewContainer
       (Some \<lparr>ci_Id = ident, ci_Name = name, ci_Config = Some test_cc,
              ci_State = Some stateExited, ci_HostConfig = None\<rparr>)
       None"

definition test_c :: Container where
  "test_c = test_container ''02131b95b737'' ''My Test Container''"

definition test_c1 :: Container where
  "test_c1 = test_container ''c1id'' ''c1''"

definition test_c2 :: Container where
  "test_c2 = test_container ''c2id'' ''c2''"

section \<open>Dereferencing the snapshot\<close>

lemma config_of_eq_Inr:
  "config_of c = Inr config \<longleftrightarrow>
     (\<exists>info. containerInfo c = Some info \<and> ci_Config info = Some config)"
  by (auto simp: config_of_def go_bind_eq_Inr)

lemma config_of_panics:
  "panics (config_of c) \<longleftrightarrow>
     containerInfo c = None \<or> (\<exists>info. containerInfo c = Some info \<and> ci_Config info = None)"
  by (cases "containerInfo c") (auto simp: config_of_def panics_iff)

lemma config_of_Some [simp]:
  "containerInfo c = Some info \<Longrightarrow> config_of c = deref (ci_Config info)"
  by (simp add: config_of_def)

lemma config_of_None [simp]:
  "containerInfo c = None \<Longrightarrow> config_of c = Inl NilPointerDereference"
  by (simp add: config_of_def)

lemma wf_container_iff:
  "wf_container c \<longleftrightarrow>
     (\<exists>info config st. containerInfo c = Some info \<and> ci_Config info = Some config \<and>
        ci_State info = Some st)"
  by (auto simp: wf_container_def split: option.splits)

lemma wf_container_config: "wf_container c \<Longrightarrow> \<exists>config. config_of c = Inr config"
  by (auto simp: wf_container_iff config_of_eq_Inr)

lemmas container_defs [go_simps] =
  ID_def Name_def ImageID_def ImageName_def Links_def IsTugbot_def StopSignal_def
  IsTugbotCandidate_def NewContainer_def with_tag_def link_name_def

section \<open>The image name\<close>

lemma with_tag_eq:
  "with_tag n = (if CHR '':'' \<in> set n then n else n @ '':latest'')"
  by (simp add: with_tag_def strings_Contains_single)

lemma with_tag_tagged [simp]: "strings_Contains (with_tag n) '':''"
  by (simp add: with_tag_eq strings_Contains_single)

lemma with_tag_idem [simp]: "with_tag (with_tag n) = with_tag n"
  by (simp add: with_tag_eq)

lemma with_tag_prefix: "prefix n (with_tag n)"
  by (simp add: with_tag_eq)

lemma ImageName_eq:
  "config_of c = Inr config \<Longrightarrow>
   ImageName c =
     Inr (with_tag (case Labels config LabelZodiac of Some z \<Rightarrow> z | None \<Rightarrow> Image config))"
  by (simp add: ImageName_def)

lemma ImageName_panics: "panics (ImageName c) \<longleftrightarrow> panics (config_of c)"
  by (cases "config_of c") (simp_all add: ImageName_def)

lemma ImageName_Some:
  "containerInfo c = Some info \<Longrightarrow> ci_Config info = Some config \<Longrightarrow>
   ImageName c =
     Inr (with_tag (case Labels config LabelZodiac of Some z \<Rightarrow> z | None \<Rightarrow> Image config))"
  by (simp add: ImageName_def)

section \<open>Links\<close>

lemma link_name_eq [simp]: "link_name link = Inr (before_first CHR '':'' link)"
  by (simp add: link_name_def go_index_Split_single)

lemma names_loop_eq:
  "names_loop links ls = Inr (links @ map (before_first CHR '':'') ls)"
  by (induction ls arbitrary: links) simp_all

lemma Links_eq:
  "Links c =
     Inr (case containerInfo c of
            None \<Rightarrow> []
          | Some info \<Rightarrow>
              (case ci_HostConfig info of
                 None \<Rightarrow> []
               | Some hc \<Rightarrow> map (before_first CHR '':'') (hc_Links hc)))"
  by (simp add: Links_def names_loop_eq split: option.splits)

section \<open>Classification\<close>

lemma IsTugbot_eq:
  "config_of c = Inr config \<Longrightarrow> IsTugbot c = Inr (Labels config LabelTugbot = Some ''true'')"
  by (auto simp: IsTugbot_def split: option.splits)

lemma IsTugbotCandidate_eq:
  assumes "containerInfo c = Some info" and "ci_Config info = Some config"
  shows "IsTugbotCandidate c =
     (if is_test_label config
      then go_bind (deref (ci_State info)) (\<lambda>st. Inr (StateString st = ''exited''))
      else Inr False)"
  using assms
  by (auto simp: IsTugbotCandidate_def is_test_label_def split: option.splits)

lemma IsTugbotCandidate_wf:
  assumes "containerInfo c = Some info" and "ci_Config info = Some config"
    and "ci_State info = Some st"
  shows "IsTugbotCandidate c = Inr (is_test_label config \<and> StateString st = ''exited'')"
  using assms by (simp add: IsTugbotCandidate_eq)

lemma IsTugbotCandidate_nil:
  "panics (config_of c) \<Longrightarrow> IsTugbotCandidate c = Inl NilPointerDereference"
  by (cases "containerInfo c") (auto simp: IsTugbotCandidate_def)

lemma IsTugbotCandidate_cong:
  assumes "containerInfo c = Some info" and "containerInfo c' = Some info'"
    and "ci_Config info' = ci_Config info" and "ci_State info' = ci_State info"
  shows "IsTugbotCandidate c' = IsTugbotCandidate c"
proof (cases "ci_Config info")
  case None
  with assms show ?thesis by (simp add: IsTugbotCandidate_nil config_of_panics)
next
  case (Some config)
  with assms show ?thesis
    by (simp add: IsTugbotCandidate_eq [where config = config])
qed

section \<open>The test containers, evaluated\<close>

lemmas fixture_defs =
  test_c_def test_c1_def test_c2_def test_container_def test_cc_def stateExited_def
  TugbotEventTimer_def NewContainer_def

lemma test_container_info:
  "containerInfo (test_container ident name) =
     Some \<lparr>ci_Id = ident, ci_Name = name, ci_Config = Some test_cc,
            ci_State = Some stateExited, ci_HostConfig = None\<rparr>"
  "imageInfo (test_container ident name) = None"
  by (simp_all add: test_container_def NewContainer_def)

lemma test_cc_labels:
  "Labels test_cc LabelTest = Some ''true''"
  "Labels test_cc LabelCreatedFrom = None"
  "Labels test_cc LabelTugbot = None"
  "Labels test_cc LabelZodiac = None"
  by (simp_all add: test_cc_def Label_defs TugbotEventTimer_def)

lemma stateExited_string: "StateString stateExited = ''exited''"
  by (simp add: StateString_def stateExited_def)

lemma test_container_wf: "wf_container (test_container ident name)"
  by (simp add: wf_container_def test_container_info)

lemma test_container_candidate:
  "IsTugbotCandidate (test_container ident name) = Inr True"
  by (simp add: IsTugbotCandidate_wf [OF test_container_info(1)] is_test_label_def
      test_cc_labels stateExited_string)

lemma test_container_not_tugbot: "IsTugbot (test_container ident name) = Inr False"
  by (simp add: IsTugbot_eq [where config = test_cc] test_container_info test_cc_labels)

lemma test_container_Name:
  "Name (test_container ident name) = Inr (strings_TrimPrefix name ''/'')"
  by (simp add: Name_def test_container_info)

lemma test_container_ImageName: "ImageName (test_container ident name) = Inr '':latest''"
  by (simp add: ImageName_Some [OF test_container_info(1)] test_cc_labels with_tag_eq)
    (simp add: test_cc_def)

section \<open>Properties of the classification\<close>

text \<open>
  C1. A snapshot is a candidate exactly when its information, configuration and
  state are present, the label \<^verbatim>\<open>tugbot.test\<close> is \<^verbatim>\<open>true\<close>, the label
  \<^verbatim>\<open>tugbot.created.from\<close> is absent or empty, and the state string is \<^verbatim>\<open>exited\<close>.
\<close>

theorem IsTugbotCandidate_iff:
  "IsTugbotCandidate c = Inr True \<longleftrightarrow>
     (\<exists>info config st.
        containerInfo c = Some info \<and> ci_Config info = Some config \<and>
        ci_State info = Some st \<and>
        Labels config LabelTest = Some ''true'' \<and>
        (Labels config LabelCreatedFrom = None \<or> Labels config LabelCreatedFrom = Some []) \<and>
        StateString st = ''exited'')"
proof (cases "containerInfo c")
  case None
  then show ?thesis by (simp add: IsTugbotCandidate_nil config_of_panics)
next
  case (Some info)
  show ?thesis
  proof (cases "ci_Config info")
    case None
    with Some show ?thesis by (simp add: IsTugbotCandidate_nil config_of_panics)
  next
    case config: (Some config)
    show ?thesis
      by (cases "ci_State info")
        (auto simp: IsTugbotCandidate_eq [OF Some config] Some config is_test_label_def)
  qed
qed

text \<open>
  Changing only the state of a candidate to one whose string is not
  \<^verbatim>\<open>exited\<close> (paused, created, running, ...) makes it a non-candidate.
\<close>

theorem IsTugbotCandidate_state_flip:
  assumes "IsTugbotCandidate c = Inr True"
    and "containerInfo c = Some info"
    and "StateString st' \<noteq> ''exited''"
  shows "IsTugbotCandidate (c\<lparr>containerInfo := Some (info\<lparr>ci_State := Some st'\<rparr>)\<rparr>) = Inr False"
proof (cases "ci_Config info")
  case None
  with assms(1,2) show ?thesis by (simp add: IsTugbotCandidate_nil config_of_panics)
next
  case (Some config)
  then show ?thesis
    using assms(3) by (simp add: IsTugbotCandidate_wf [where config = config and st = st'])
qed

theorem IsTugbotCandidate_state_flip_witness:
  "IsTugbotCandidate test_c = Inr True \<and>
   StateString (stateExited\<lparr>Running := True\<rparr>) \<noteq> ''exited'' \<and>
   IsTugbotCandidate
     (test_c\<lparr>containerInfo :=
        Some (\<lparr>ci_Id = ''02131b95b737'', ci_Name = ''My Test Container'',
               ci_Config = Some test_cc, ci_State = Some stateExited, ci_HostConfig = None\<rparr>
              \<lparr>ci_State := Some (stateExited\<lparr>Running := True\<rparr>)\<rparr>)\<rparr>) = Inr False"
proof -
  have 1: "IsTugbotCandidate test_c = Inr True"
    by (simp add: test_c_def test_container_candidate)
  have 2: "containerInfo test_c =
      Some \<lparr>ci_Id = ''02131b95b737'', ci_Name = ''My Test Container'',
             ci_Config = Some test_cc, ci_State = Some stateExited, ci_HostConfig = None\<rparr>"
    by (simp add: test_c_def test_container_info)
  have 3: "StateString (stateExited\<lparr>Running := True\<rparr>) \<noteq> ''exited''"
    by (simp add: StateString_def stateExited_def)
  from IsTugbotCandidate_state_flip [OF 1 2 3] 1 3 show ?thesis by simp
qed

text \<open>
  C28. A snapshot that carries a non-empty \<^verbatim>\<open>tugbot.created.from\<close> label, the mark of
  a container this agent launched itself, is never a candidate, whatever its other
  labels and its state are; the classifier does not even look at the state.
\<close>

theorem IsTugbotCandidate_created_from:
  assumes "config_of c = Inr config"
    and "Labels config LabelCreatedFrom = Some v" and "v \<noteq> []"
  shows "IsTugbotCandidate c = Inr False"
  using assms
  by (auto simp: IsTugbotCandidate_eq is_test_label_def config_of_eq_Inr)

theorem IsTugbotCandidate_created_from_witness:
  "IsTugbotCandidate (NewContainer
       (Some \<lparr>ci_Id = ''x'', ci_Name = ''/x'',
              ci_Config = Some (test_cc\<lparr>Labels := (Labels test_cc)(LabelCreatedFrom \<mapsto> ''c1id'')\<rparr>),
              ci_State = None, ci_HostConfig = None\<rparr>) None) = Inr False"
  using IsTugbotCandidate_created_from
    [of "NewContainer
       (Some \<lparr>ci_Id = ''x'', ci_Name = ''/x'',
              ci_Config = Some (test_cc\<lparr>Labels := (Labels test_cc)(LabelCreatedFrom \<mapsto> ''c1id'')\<rparr>),
              ci_State = None, ci_HostConfig = None\<rparr>) None"
        "test_cc\<lparr>Labels := (Labels test_cc)(LabelCreatedFrom \<mapsto> ''c1id'')\<rparr>" "''c1id''"]
  by (simp add: NewContainer_def)

text \<open>
  C35. The classifier panics exactly when the container information or its
  configuration is nil, or when the labels qualify the container and its state is nil.
  A container whose labels do not qualify is classified without its state being read.
\<close>

theorem IsTugbotCandidate_panics_iff:
  "panics (IsTugbotCandidate c) \<longleftrightarrow>
     (case containerInfo c of
        None \<Rightarrow> True
      | Some info \<Rightarrow>
          (case ci_Config info of
             None \<Rightarrow> True
           | Some config \<Rightarrow> is_test_label config \<and> ci_State info = None))"
proof (cases "containerInfo c")
  case None
  then show ?thesis by (simp add: IsTugbotCandidate_nil config_of_panics)
next
  case (Some info)
  show ?thesis
  proof (cases "ci_Config info")
    case None
    with Some show ?thesis by (simp add: IsTugbotCandidate_nil config_of_panics)
  next
    case config: (Some config)
    show ?thesis
      by (cases "ci_State info") (simp_all add: IsTugbotCandidate_eq [OF Some config] Some config)
  qed
qed

text \<open>
  A candidate has run and has stopped: its state is neither running nor dead,
  and it has a start time.
\<close>

theorem candidate_has_stopped:
  assumes "IsTugbotCandidate c = Inr True"
  shows "\<exists>info st. containerInfo c = Some info \<and> ci_State info = Some st \<and>
           \<not> Running st \<and> \<not> Dead st \<and> StartedAt st \<noteq> 0"
proof -
  from assms have "\<not> panics (config_of c)"
    by (auto simp: IsTugbotCandidate_nil)
  then obtain info config where info: "containerInfo c = Some info"
    and config: "ci_Config info = Some config"
    by (auto simp: config_of_panics)
  from assms obtain st where "ci_State info = Some st" and "StateString st = ''exited''"
    by (cases "ci_State info")
      (auto simp: IsTugbotCandidate_eq [OF info config] split: if_splits)
  with info show ?thesis by (auto simp: StateString_exited_iff)
qed

theorem candidate_has_stopped_witness:
  "IsTugbotCandidate test_c1 = Inr True \<and>
   (\<exists>info st. containerInfo test_c1 = Some info \<and> ci_State info = Some st \<and>
      \<not> Running st \<and> \<not> Dead st \<and> StartedAt st \<noteq> 0)"
proof -
  have "IsTugbotCandidate test_c1 = Inr True"
    by (simp add: test_c1_def test_container_candidate)
  with candidate_has_stopped [of test_c1] show ?thesis by simp
qed

text \<open>
  C7. \<^verbatim>\<open>IsTugbot\<close> returns exactly when the configuration of the snapshot is present,
  and the value it returns is whether the label \<^verbatim>\<open>gaiadocker.tugbot\<close> is \<^verbatim>\<open>true\<close>; no
  other label and no other field takes part.
\<close>

theorem IsTugbot_iff:
  "IsTugbot c = Inr b \<longleftrightarrow>
     (\<exists>config. config_of c = Inr config \<and> b = (Labels config LabelTugbot = Some ''true''))"
proof (cases "config_of c")
  case (Inl e)
  then show ?thesis by (simp add: IsTugbot_def)
next
  case (Inr config)
  then show ?thesis by (auto simp: IsTugbot_eq)
qed

section \<open>Properties of the accessors\<close>

text \<open>
  C27. The image name always carries a tag delimiter, and a colon anywhere counts
  as one. Whatever the labels and the recorded image are, the name \<^verbatim>\<open>ImageName\<close>
  returns contains a colon: it is the value of the compatibility label, or else
  the recorded image reference, as it stands when that has a colon somewhere (also
  the colon of a registry port, as in \<^verbatim>\<open>localhost:5000/tests\<close>), and with
  \<^verbatim>\<open>:latest\<close> appended when it has none.
\<close>

theorem ImageName_tagged:
  assumes "ImageName c = Inr n"
  shows "strings_Contains n '':'' \<and>
         (\<exists>config. config_of c = Inr config \<and>
            (let raw = (case Labels config LabelZodiac of Some z \<Rightarrow> z | None \<Rightarrow> Image config)
             in n = (if CHR '':'' \<in> set raw then raw else raw @ '':latest'')))"
proof (cases "config_of c")
  case (Inl e)
  with assms show ?thesis by (simp add: ImageName_def)
next
  case (Inr config)
  with assms show ?thesis
    by (auto simp: ImageName_eq with_tag_eq strings_Contains_single)
qed

theorem ImageName_tagged_witness:
  "ImageName test_c2 = Inr '':latest'' \<and> strings_Contains '':latest'' '':''"
proof -
  have "ImageName test_c2 = Inr '':latest''"
    by (simp add: test_c2_def test_container_ImageName)
  with ImageName_tagged [of test_c2 "'':latest''"] show ?thesis by simp
qed

text \<open>
  The image name is a fixed point: writing the name \<^verbatim>\<open>ImageName\<close> returned into
  the configuration's \<^verbatim>\<open>Image\<close> field, as \<^verbatim>\<open>runtimeConfig\<close> does, leaves the name
  that \<^verbatim>\<open>ImageName\<close> returns unchanged.
\<close>

theorem ImageName_fixpoint:
  assumes "containerInfo c = Some info" and "ci_Config info = Some config"
    and "ImageName c = Inr n"
  shows "ImageName (c\<lparr>containerInfo := Some (info\<lparr>ci_Config := Some (config\<lparr>Image := n\<rparr>)\<rparr>)\<rparr>)
           = Inr n"
proof -
  from assms have n: "n = with_tag (case Labels config LabelZodiac of
      Some z \<Rightarrow> z | None \<Rightarrow> Image config)"
    by (simp add: ImageName_Some)
  have "ImageName (c\<lparr>containerInfo := Some (info\<lparr>ci_Config := Some (config\<lparr>Image := n\<rparr>)\<rparr>)\<rparr>) =
      Inr (with_tag (case Labels config LabelZodiac of Some z \<Rightarrow> z | None \<Rightarrow> n))"
    by (cases "Labels config LabelZodiac")
      (simp_all add: ImageName_Some [where config = "config\<lparr>Image := n\<rparr>"])
  also have "with_tag (case Labels config LabelZodiac of Some z \<Rightarrow> z | None \<Rightarrow> n) = n"
    by (cases "Labels config LabelZodiac") (simp_all add: n)
  finally show ?thesis .
qed

theorem ImageName_fixpoint_witness:
  "ImageName test_c = Inr '':latest'' \<and>
   ImageName (test_c\<lparr>containerInfo :=
      Some (\<lparr>ci_Id = ''02131b95b737'', ci_Name = ''My Test Container'',
              ci_Config = Some test_cc, ci_State = Some stateExited, ci_HostConfig = None\<rparr>
            \<lparr>ci_Config := Some (test_cc\<lparr>Image := '':latest''\<rparr>)\<rparr>)\<rparr>) = Inr '':latest''"
proof -
  have 1: "containerInfo test_c =
      Some \<lparr>ci_Id = ''02131b95b737'', ci_Name = ''My Test Container'',
             ci_Config = Some test_cc, ci_State = Some stateExited, ci_HostConfig = None\<rparr>"
    by (simp add: test_c_def test_container_info)
  have 2: "ImageName test_c = Inr '':latest''"
    by (simp add: test_c_def test_container_ImageName)
  from ImageName_fixpoint [OF 1 _ 2, of test_cc] 2 show ?thesis by simp
qed

text \<open>
  With the compatibility label \<^verbatim>\<open>tugbot.zodiac.original-image\<close> present, the
  image name is that label's value with the default tag, and the recorded image
  reference plays no part.
\<close>

theorem ImageName_zodiac:
  assumes "containerInfo c = Some info" and "ci_Config info = Some config"
    and "Labels config LabelZodiac = Some z"
  shows "ImageName c = Inr (if CHR '':'' \<in> set z then z else z @ '':latest'') \<and>
         ImageName (c\<lparr>containerInfo := Some (info\<lparr>ci_Config := Some (config\<lparr>Image := other\<rparr>)\<rparr>)\<rparr>)
           = ImageName c"
  using assms
  by (simp add: ImageName_Some [where config = config]
      ImageName_Some [where config = "config\<lparr>Image := other\<rparr>"] with_tag_eq)

theorem ImageName_zodiac_witness:
  "ImageName (NewContainer
      (Some \<lparr>ci_Id = ''i'', ci_Name = ''/n'',
             ci_Config = Some (test_cc\<lparr>Image := ''mirror/app:7'',
                Labels := [LabelZodiac \<mapsto> ''app'']\<rparr>),
             ci_State = None, ci_HostConfig = None\<rparr>) None) = Inr ''app:latest''"
  using ImageName_zodiac
    [of "NewContainer
      (Some \<lparr>ci_Id = ''i'', ci_Name = ''/n'',
             ci_Config = Some (test_cc\<lparr>Image := ''mirror/app:7'',
                Labels := [LabelZodiac \<mapsto> ''app'']\<rparr>),
             ci_State = None, ci_HostConfig = None\<rparr>) None"
        "\<lparr>ci_Id = ''i'', ci_Name = ''/n'',
             ci_Config = Some (test_cc\<lparr>Image := ''mirror/app:7'',
                Labels := [LabelZodiac \<mapsto> ''app'']\<rparr>),
             ci_State = None, ci_HostConfig = None\<rparr>"
        "test_cc\<lparr>Image := ''mirror/app:7'', Labels := [LabelZodiac \<mapsto> ''app'']\<rparr>"
        "''app''"]
  by (simp add: NewContainer_def)

text \<open>
  A colon anywhere in the image reference counts as the tag delimiter: a
  reference that names a registry with a port and no tag is returned as it is, with
  no \<^verbatim>\<open>latest\<close> tag added.
\<close>

theorem ImageName_colon_anywhere:
  assumes "containerInfo c = Some info" and "ci_Config info = Some config"
    and "Labels config LabelZodiac = None"
    and "Image config = registry @ '':'' @ path"
  shows "ImageName c = Inr (Image config)"
  using assms by (simp add: ImageName_Some with_tag_eq)

theorem ImageName_colon_anywhere_witness:
  "ImageName (NewContainer
      (Some \<lparr>ci_Id = ''i'', ci_Name = ''/n'',
             ci_Config = Some (test_cc\<lparr>Image := ''localhost:5000/tests''\<rparr>),
             ci_State = None, ci_HostConfig = None\<rparr>) None) = Inr ''localhost:5000/tests''"
  using ImageName_colon_anywhere
    [of "NewContainer
      (Some \<lparr>ci_Id = ''i'', ci_Name = ''/n'',
             ci_Config = Some (test_cc\<lparr>Image := ''localhost:5000/tests''\<rparr>),
             ci_State = None, ci_HostConfig = None\<rparr>) None"
        "\<lparr>ci_Id = ''i'', ci_Name = ''/n'',
             ci_Config = Some (test_cc\<lparr>Image := ''localhost:5000/tests''\<rparr>),
             ci_State = None, ci_HostConfig = None\<rparr>"
        "test_cc\<lparr>Image := ''localhost:5000/tests''\<rparr>" "''localhost''" "''5000/tests''"]
  by (simp add: NewContainer_def test_cc_labels)

text \<open>
  C40. \<^verbatim>\<open>Links\<close> never panics: it returns no name when the container information
  or the host configuration is nil, and otherwise, for each link in order, what
  stands before the link's first colon (the whole link when it has none).
\<close>

theorem Links_names:
  "Links c =
     Inr (case containerInfo c of
            None \<Rightarrow> []
          | Some info \<Rightarrow>
              (case ci_HostConfig info of
                 None \<Rightarrow> []
               | Some hc \<Rightarrow> map (before_first CHR '':'') (hc_Links hc)))"
  by (simp add: Links_def names_loop_eq split: option.splits)

text \<open>
  \<^verbatim>\<open>Name\<close> removes one leading slash and no more: the recorded name is either
  a slash followed by the result, or the result itself, which then has no leading
  slash.
\<close>

theorem Name_trim:
  assumes "containerInfo c = Some info" and "Name c = Inr n"
  shows "ci_Name info = CHR ''/'' # n \<or> (ci_Name info = n \<and> \<not> prefix ''/'' n)"
  using assms
  by (cases "ci_Name info") (auto simp: Name_def strings_TrimPrefix_single split: if_splits)

theorem Name_trim_witness:
  "Name (test_container ''id'' ''//db'') = Inr ''/db'' \<and>
   Name test_c = Inr ''My Test Container''"
proof -
  have 1: "Name (test_container ''id'' ''//db'') = Inr ''/db''"
    and 2: "Name test_c = Inr ''My Test Container''"
    by (simp_all add: test_c_def test_container_Name strings_TrimPrefix_single)
  from Name_trim [OF test_container_info(1) 1] 1 2 show ?thesis by simp
qed

end
