(* ===== verification/Slice_Util.thy ===== *)
theory Slice_Util
  imports Go_Prelude "HOL-Library.Multiset"
begin

text \<open>
  The four helpers \<^verbatim>\<open>runtimeConfig\<close> calls to subtract an image's defaults from a
  container's configuration. Their code is outside the repository's listed sources;
  they are written here from the specification (section 4.1, the diff algorithm) as
  the loops it describes, each with the closed form the callers' proofs use. A Go
  \<^verbatim>\<open>range\<close> over a map visits the keys in an order the language leaves open: the
  map loops take that order as a list \<open>ks\<close>, and the lemmas show that the result
  is the same for every order that visits each key of the map.
\<close>

section \<open>Slices\<close>

definition sliceEqual :: "string list \<Rightarrow> string list \<Rightarrow> bool" where
  "sliceEqual s1 s2 =
     (if length s1 \<noteq> length s2 then False
      else list_all (\<lambda>i. s1 ! i = s2 ! i) [0..<length s1])"

fun slice_found :: "string \<Rightarrow> string list \<Rightarrow> bool" where
  "slice_found e1 [] = False"
| "slice_found e1 (e2 # a2) = (if e1 = e2 then True else slice_found e1 a2)"

definition sliceSubtract :: "string list \<Rightarrow> string list \<Rightarrow> string list" where
  "sliceSubtract a1 a2 =
     foldl (\<lambda>a e1. if slice_found e1 a2 then a else a @ [e1]) [] a1"

section \<open>Maps\<close>

definition stringMapSubtract_step ::
  "(string \<rightharpoonup> string) \<Rightarrow> (string \<rightharpoonup> string) \<Rightarrow> string \<Rightarrow> (string \<rightharpoonup> string) \<Rightarrow> (string \<rightharpoonup> string)" where
  "stringMapSubtract_step m1 m2 k1 m =
     (case m1 k1 of
        None \<Rightarrow> m
      | Some v1 \<Rightarrow>
          (case m2 k1 of
             Some v2 \<Rightarrow> if v2 \<noteq> v1 then m(k1 \<mapsto> v1) else m
           | None \<Rightarrow> m(k1 \<mapsto> v1)))"

definition stringMapSubtract_loop ::
  "string list \<Rightarrow> (string \<rightharpoonup> string) \<Rightarrow> (string \<rightharpoonup> string) \<Rightarrow> (string \<rightharpoonup> string)" where
  "stringMapSubtract_loop ks m1 m2 = fold (stringMapSubtract_step m1 m2) ks Map.empty"

definition stringMapSubtract ::
  "(string \<rightharpoonup> string) \<Rightarrow> (string \<rightharpoonup> string) \<Rightarrow> (string \<rightharpoonup> string)" where
  "stringMapSubtract m1 m2 =
     (\<lambda>k. case m1 k of None \<Rightarrow> None | Some v1 \<Rightarrow> if m2 k = Some v1 then None else Some v1)"

definition structMapSubtract_step ::
  "(string \<rightharpoonup> unit) \<Rightarrow> (string \<rightharpoonup> unit) \<Rightarrow> string \<Rightarrow> (string \<rightharpoonup> unit) \<Rightarrow> (string \<rightharpoonup> unit)" where
  "structMapSubtract_step m1 m2 k1 m =
     (case m1 k1 of
        None \<Rightarrow> m
      | Some v1 \<Rightarrow> (case m2 k1 of None \<Rightarrow> m(k1 \<mapsto> v1) | Some _ \<Rightarrow> m))"

definition structMapSubtract_loop ::
  "string list \<Rightarrow> (string \<rightharpoonup> unit) \<Rightarrow> (string \<rightharpoonup> unit) \<Rightarrow> (string \<rightharpoonup> unit)" where
  "structMapSubtract_loop ks m1 m2 = fold (structMapSubtract_step m1 m2) ks Map.empty"

definition structMapSubtract ::
  "(string \<rightharpoonup> unit) \<Rightarrow> (string \<rightharpoonup> unit) \<Rightarrow> (string \<rightharpoonup> unit)" where
  "structMapSubtract m1 m2 = (\<lambda>k. if k \<in> dom m2 then None else m1 k)"

section \<open>Slices: closed forms\<close>

lemma sliceEqual_iff [simp]: "sliceEqual s1 s2 \<longleftrightarrow> s1 = s2"
proof (cases "length s1 = length s2")
  case True
  then have "sliceEqual s1 s2 \<longleftrightarrow> (\<forall>i < length s1. s1 ! i = s2 ! i)"
    by (auto simp: sliceEqual_def list_all_iff)
  also have "\<dots> \<longleftrightarrow> s1 = s2"
    using True by (simp add: list_eq_iff_nth_eq)
  finally show ?thesis .
next
  case False
  then show ?thesis by (auto simp: sliceEqual_def)
qed

lemma slice_found_iff [simp]: "slice_found e a2 \<longleftrightarrow> e \<in> set a2"
  by (induction a2) auto

lemma foldl_subtract:
  "foldl (\<lambda>a e1. if e1 \<in> set a2 then a else a @ [e1]) acc a1 =
     acc @ filter (\<lambda>e. e \<notin> set a2) a1"
  by (induction a1 arbitrary: acc) simp_all

lemma sliceSubtract_filter: "sliceSubtract a1 a2 = filter (\<lambda>e. e \<notin> set a2) a1"
  by (simp add: sliceSubtract_def foldl_subtract)

lemma set_sliceSubtract [simp]: "set (sliceSubtract a1 a2) = set a1 - set a2"
  by (auto simp: sliceSubtract_filter)

lemma sliceSubtract_cong_set:
  "set a2 = set a2' \<Longrightarrow> sliceSubtract a1 a2 = sliceSubtract a1 a2'"
  by (simp add: sliceSubtract_filter)

lemma sliceSubtract_perm:
  "mset a2 = mset a2' \<Longrightarrow> sliceSubtract a1 a2 = sliceSubtract a1 a2'"
  by (rule sliceSubtract_cong_set) (rule mset_eq_setD)

lemma sliceSubtract_self [simp]: "sliceSubtract a a = []"
  by (simp add: sliceSubtract_filter)

lemma sliceSubtract_idem [simp]:
  "sliceSubtract (sliceSubtract a1 a2) a2 = sliceSubtract a1 a2"
  by (simp add: sliceSubtract_filter)

lemma sliceSubtract_Nil [simp]: "sliceSubtract a1 [] = a1" "sliceSubtract [] a2 = []"
  by (simp_all add: sliceSubtract_filter)

lemma sliceSubtract_Cons [go_simps]:
  "sliceSubtract (e # a1) a2 = (if e \<in> set a2 then [] else [e]) @ sliceSubtract a1 a2"
  by (simp add: sliceSubtract_filter)

section \<open>Maps: the loop computes the closed form in every order\<close>

lemma stringMapSubtract_apply [go_simps]:
  "stringMapSubtract m1 m2 k =
     (case m1 k of None \<Rightarrow> None | Some v1 \<Rightarrow> if m2 k = Some v1 then None else Some v1)"
  by (simp add: stringMapSubtract_def)

lemma stringMapSubtract_step_apply:
  "stringMapSubtract_step m1 m2 k1 m k =
     (if k = k1 \<and> stringMapSubtract m1 m2 k1 \<noteq> None then stringMapSubtract m1 m2 k1 else m k)"
  by (auto simp: stringMapSubtract_step_def stringMapSubtract_def split: option.splits)

lemma fold_stringMapSubtract_step:
  "fold (stringMapSubtract_step m1 m2) ks m k =
     (if k \<in> set ks \<and> stringMapSubtract m1 m2 k \<noteq> None then stringMapSubtract m1 m2 k else m k)"
  by (induction ks arbitrary: m) (auto simp: stringMapSubtract_step_apply)

lemma stringMapSubtract_loop_eq:
  assumes "dom m1 \<subseteq> set ks"
  shows "stringMapSubtract_loop ks m1 m2 = stringMapSubtract m1 m2"
proof
  fix k
  have "k \<notin> set ks \<Longrightarrow> stringMapSubtract m1 m2 k = None"
    using assms by (auto simp: stringMapSubtract_def split: option.splits)
  then show "stringMapSubtract_loop ks m1 m2 k = stringMapSubtract m1 m2 k"
    by (auto simp: stringMapSubtract_loop_def fold_stringMapSubtract_step)
qed

lemma dom_stringMapSubtract: "dom (stringMapSubtract m1 m2) = {k \<in> dom m1. m2 k \<noteq> m1 k}"
  by (auto simp: stringMapSubtract_def split: option.splits if_splits)

lemma stringMapSubtract_le: "stringMapSubtract m1 m2 \<subseteq>\<^sub>m m1"
  by (auto simp: map_le_def stringMapSubtract_def split: option.splits if_splits)

lemma stringMapSubtract_self [simp]: "stringMapSubtract m m = Map.empty"
  by (auto simp: stringMapSubtract_def split: option.splits)

lemma stringMapSubtract_idem [simp]:
  "stringMapSubtract (stringMapSubtract m1 m2) m2 = stringMapSubtract m1 m2"
  by (auto simp: stringMapSubtract_def fun_eq_iff split: option.splits)

lemma structMapSubtract_apply [go_simps]:
  "structMapSubtract m1 m2 k = (if m2 k = None then m1 k else None)"
  by (auto simp: structMapSubtract_def)

lemma structMapSubtract_step_apply:
  "structMapSubtract_step m1 m2 k1 m k =
     (if k = k1 \<and> structMapSubtract m1 m2 k1 \<noteq> None then structMapSubtract m1 m2 k1 else m k)"
  by (auto simp: structMapSubtract_step_def structMapSubtract_def split: option.splits)

lemma fold_structMapSubtract_step:
  "fold (structMapSubtract_step m1 m2) ks m k =
     (if k \<in> set ks \<and> structMapSubtract m1 m2 k \<noteq> None then structMapSubtract m1 m2 k else m k)"
  by (induction ks arbitrary: m) (auto simp: structMapSubtract_step_apply)

lemma structMapSubtract_loop_eq:
  assumes "dom m1 \<subseteq> set ks"
  shows "structMapSubtract_loop ks m1 m2 = structMapSubtract m1 m2"
proof
  fix k
  have "k \<notin> set ks \<Longrightarrow> structMapSubtract m1 m2 k = None"
    using assms by (auto simp: structMapSubtract_def)
  then show "structMapSubtract_loop ks m1 m2 k = structMapSubtract m1 m2 k"
    by (cases "structMapSubtract m1 m2 k")
      (auto simp: structMapSubtract_loop_def fold_structMapSubtract_step)
qed

lemma dom_structMapSubtract [simp]: "dom (structMapSubtract m1 m2) = dom m1 - dom m2"
  by (auto simp: structMapSubtract_def split: if_splits)

lemma structMapSubtract_self [simp]: "structMapSubtract m m = Map.empty"
  by (auto simp: structMapSubtract_def fun_eq_iff)

lemma structMapSubtract_idem [simp]:
  "structMapSubtract (structMapSubtract m1 m2) m2 = structMapSubtract m1 m2"
  by (auto simp: structMapSubtract_def fun_eq_iff)

end
