(* ===== verification/Runtime_Config.thy ===== *)
theory Runtime_Config
  imports Tugbot_Container Slice_Util
begin

text \<open>
  The method \<^verbatim>\<open>runtimeConfig\<close> of \<^verbatim>\<open>src/container/container.go\<close>: it turns the
  configuration an inspect call reported, which merges the image's defaults with what
  was given at run time, into the configuration that holds only what was given at run
  time. \<^term>\<open>subtract_defaults\<close> is the sequence of field-by-field subtractions,
  \<^term>\<open>bind_ports\<close> the loop over the port bindings, \<^term>\<open>runtimeConfig\<close> the
  method. The method works on the snapshot's own configuration through a pointer, so
  the model returns the snapshot it leaves behind together with the configuration;
  \<^verbatim>\<open>ImageName\<close> is called last and reads the labels that the subtraction has already
  replaced. \<^term>\<open>DeriveOverrideConfig\<close> is the override configuration as the
  specification (section 4.1) defines it; the lemmas relate the two.
\<close>

section \<open>The method\<close>

definition subtract_defaults :: "ContainerConfig \<Rightarrow> ContainerConfig \<Rightarrow> ContainerConfig" where
  "subtract_defaults config imageConfig =
     (let config = (if WorkingDir config = WorkingDir imageConfig
                    then config\<lparr>WorkingDir := []\<rparr> else config);
          config = (if User config = User imageConfig
                    then config\<lparr>User := []\<rparr> else config);
          config = (if sliceEqual (Cmd config) (Cmd imageConfig)
                    then config\<lparr>Cmd := []\<rparr> else config);
          config = (if sliceEqual (Entrypoint config) (Entrypoint imageConfig)
                    then config\<lparr>Entrypoint := []\<rparr> else config);
          config = config\<lparr>Env := sliceSubtract (Env config) (Env imageConfig)\<rparr>;
          config = config\<lparr>Labels := stringMapSubtract (Labels config) (Labels imageConfig)\<rparr>;
          config = config\<lparr>Volumes := structMapSubtract (Volumes config) (Volumes imageConfig)\<rparr>;
          config = config\<lparr>ExposedPorts :=
                     structMapSubtract (ExposedPorts config) (ExposedPorts imageConfig)\<rparr>
      in config)"

text \<open>
  The loop over the port bindings, for the order \<open>ps\<close> in which the \<^verbatim>\<open>range\<close>
  visits the keys, and its result for every order.
\<close>

definition bind_ports_loop :: "string list \<Rightarrow> (string \<rightharpoonup> unit) \<Rightarrow> (string \<rightharpoonup> unit)" where
  "bind_ports_loop ps exposed = fold (\<lambda>p m. m(p \<mapsto> ())) ps exposed"

definition bind_ports ::
  "(string \<rightharpoonup> PortBinding list) \<Rightarrow> (string \<rightharpoonup> unit) \<Rightarrow> (string \<rightharpoonup> unit)" where
  "bind_ports bindings exposed =
     (\<lambda>p. case bindings p of Some _ \<Rightarrow> Some () | None \<Rightarrow> exposed p)"

definition runtimeConfig :: "Container \<Rightarrow> (ContainerConfig \<times> Container) go_result" where
  "runtimeConfig c =
     go_bind (deref (containerInfo c)) (\<lambda>info.
     go_bind (deref (imageInfo c)) (\<lambda>img.
     go_bind (deref (ci_Config info)) (\<lambda>config.
     go_bind (deref (ii_Config img)) (\<lambda>imageConfig.
       let config = subtract_defaults config imageConfig in
       go_bind (deref (ci_HostConfig info)) (\<lambda>hc.
         let config = config\<lparr>ExposedPorts :=
                        bind_ports (hc_PortBindings hc) (ExposedPorts config)\<rparr>;
             c = c\<lparr>containerInfo := Some (info\<lparr>ci_Config := Some config\<rparr>)\<rparr>
         in go_bind (ImageName c) (\<lambda>imageName.
              let config = config\<lparr>Image := imageName\<rparr>
              in Inr (config,
                      c\<lparr>containerInfo := Some (info\<lparr>ci_Config := Some config\<rparr>)\<rparr>)))))))"

section \<open>The override configuration of the specification\<close>

text \<open>
  Section 4.1 of the specification: every field that equals the image's default is
  cleared, every bound port is exposed, and the image reference is the effective
  image name of the container, \<open>imageName\<close>.
\<close>

definition DeriveOverrideConfig ::
  "ContainerConfig \<Rightarrow> ContainerConfig \<Rightarrow> HostConfig \<Rightarrow> string \<Rightarrow> ContainerConfig" where
  "DeriveOverrideConfig config imageConfig hc imageName =
     \<lparr>User = (if User config = User imageConfig then [] else User config),
      ExposedPorts =
        (\<lambda>p. if hc_PortBindings hc p \<noteq> None then Some ()
             else if ExposedPorts imageConfig p \<noteq> None then None
             else ExposedPorts config p),
      Env = filter (\<lambda>e. e \<notin> set (Env imageConfig)) (Env config),
      Cmd = (if Cmd config = Cmd imageConfig then [] else Cmd config),
      Image = imageName,
      Volumes = (\<lambda>v. if Volumes imageConfig v \<noteq> None then None else Volumes config v),
      WorkingDir = (if WorkingDir config = WorkingDir imageConfig then [] else WorkingDir config),
      Entrypoint = (if Entrypoint config = Entrypoint imageConfig then [] else Entrypoint config),
      Labels = (\<lambda>k. if Labels imageConfig k = Labels config k then None else Labels config k)\<rparr>"

text \<open>The image name the code ends with: the name read from the subtracted labels.\<close>

definition image_after :: "ContainerConfig \<Rightarrow> ContainerConfig \<Rightarrow> string" where
  "image_after config imageConfig =
     with_tag (case stringMapSubtract (Labels config) (Labels imageConfig) LabelZodiac of
                 Some z \<Rightarrow> z
               | None \<Rightarrow> Image config)"

text \<open>A snapshot on which \<^verbatim>\<open>runtimeConfig\<close> follows no nil pointer.\<close>

definition launchable :: "Container \<Rightarrow> bool" where
  "launchable c =
     (case containerInfo c of
        None \<Rightarrow> False
      | Some info \<Rightarrow>
          ci_Config info \<noteq> None \<and> ci_HostConfig info \<noteq> None \<and>
          (case imageInfo c of None \<Rightarrow> False | Some img \<Rightarrow> ii_Config img \<noteq> None))"

section \<open>An example snapshot\<close>

text \<open>
  A test container started from an image that declares the test label, a working
  directory, a command, an entry point, two environment entries, a volume and a port;
  the run added a user, an environment entry, a label, a volume, a port and a binding
  of the image's port.
\<close>

definition run_image :: ContainerConfig where
  "run_image =
     \<lparr>User = [], ExposedPorts = [''80/tcp'' \<mapsto> ()],
      Env = [''PATH=/usr/bin'', ''LANG=C''], Cmd = [''run-tests''], Image = [],
      Volumes = [''/data'' \<mapsto> ()], WorkingDir = ''/srv'',
      Entrypoint = [''/bin/sh'', ''-c''], Labels = [LabelTest \<mapsto> ''true'']\<rparr>"

definition run_config :: ContainerConfig where
  "run_config =
     \<lparr>User = ''tester'', ExposedPorts = [''80/tcp'' \<mapsto> (), ''8080/tcp'' \<mapsto> ()],
      Env = [''LANG=C'', ''TOKEN=1'', ''PATH=/usr/bin''], Cmd = [''run-tests''],
      Image = ''tests'', Volumes = [''/data'' \<mapsto> (), ''/out'' \<mapsto> ()],
      WorkingDir = ''/srv'', Entrypoint = [''/bin/sh'', ''-c''],
      Labels = [LabelTest \<mapsto> ''true'', ''owner'' \<mapsto> ''qa'']\<rparr>"

definition run_host :: HostConfig where
  "run_host =
     \<lparr>hc_Links = [],
      hc_PortBindings = [''80/tcp'' \<mapsto> [\<lparr>HostIp = ''0.0.0.0'', HostPort = ''8000''\<rparr>]]\<rparr>"

definition run_info :: ContainerInfo where
  "run_info =
     \<lparr>ci_Id = ''77aa'', ci_Name = ''/nightly'', ci_Config = Some run_config,
      ci_State = Some stateExited, ci_HostConfig = Some run_host\<rparr>"

definition run_image_info :: ImageInfo where
  "run_image_info = \<lparr>ii_Config = Some run_image, ii_Id = ''sha256:1f''\<rparr>"

definition run_container :: Container where
  "run_container = NewContainer (Some run_info) (Some run_image_info)"

definition run_override :: ContainerConfig where
  "run_override =
     \<lparr>User = ''tester'', ExposedPorts = [''8080/tcp'' \<mapsto> (), ''80/tcp'' \<mapsto> ()],
      Env = [''TOKEN=1''], Cmd = [], Image = ''tests:latest'',
      Volumes = [''/out'' \<mapsto> ()], WorkingDir = [], Entrypoint = [],
      Labels = [''owner'' \<mapsto> ''qa'']\<rparr>"

text \<open>
  A container started through a mirror from an image that itself carries the
  compatibility label.
\<close>

definition zodiac_config :: ContainerConfig where
  "zodiac_config = run_config\<lparr>Image := ''mirror/app:2'', Labels := [LabelZodiac \<mapsto> ''app:1'']\<rparr>"

definition zodiac_image :: ContainerConfig where
  "zodiac_image = run_image\<lparr>Labels := [LabelZodiac \<mapsto> ''app:1'']\<rparr>"

definition zodiac_container :: Container where
  "zodiac_container =
     NewContainer (Some (run_info\<lparr>ci_Config := Some zodiac_config\<rparr>))
       (Some (run_image_info\<lparr>ii_Config := Some zodiac_image\<rparr>))"

section \<open>The subtraction, field by field\<close>

lemma subtract_defaults_fields [simp]:
  "WorkingDir (subtract_defaults config imageConfig) =
     (if WorkingDir config = WorkingDir imageConfig then [] else WorkingDir config)"
  "User (subtract_defaults config imageConfig) =
     (if User config = User imageConfig then [] else User config)"
  "Cmd (subtract_defaults config imageConfig) =
     (if Cmd config = Cmd imageConfig then [] else Cmd config)"
  "Entrypoint (subtract_defaults config imageConfig) =
     (if Entrypoint config = Entrypoint imageConfig then [] else Entrypoint config)"
  "Env (subtract_defaults config imageConfig) = sliceSubtract (Env config) (Env imageConfig)"
  "Labels (subtract_defaults config imageConfig) =
     stringMapSubtract (Labels config) (Labels imageConfig)"
  "Volumes (subtract_defaults config imageConfig) =
     structMapSubtract (Volumes config) (Volumes imageConfig)"
  "ExposedPorts (subtract_defaults config imageConfig) =
     structMapSubtract (ExposedPorts config) (ExposedPorts imageConfig)"
  "Image (subtract_defaults config imageConfig) = Image config"
  by (simp_all add: subtract_defaults_def Let_def)

lemma subtract_defaults_idem [simp]:
  "subtract_defaults (subtract_defaults config imageConfig) imageConfig =
     subtract_defaults config imageConfig"
  by (rule ContainerConfig.equality) simp_all

section \<open>The port loop\<close>

lemma bind_ports_apply [go_simps]:
  "bind_ports bindings exposed p = (if bindings p \<noteq> None then Some () else exposed p)"
  by (simp add: bind_ports_def split: option.splits)

lemma fold_bind_ports:
  "fold (\<lambda>p m. m(p \<mapsto> ())) ps exposed p = (if p \<in> set ps then Some () else exposed p)"
  by (induction ps arbitrary: exposed) auto

lemma bind_ports_loop_eq:
  "set ps = dom bindings \<Longrightarrow> bind_ports_loop ps exposed = bind_ports bindings exposed"
  by (rule ext) (auto simp: bind_ports_loop_def fold_bind_ports bind_ports_apply)

lemma dom_bind_ports [simp]: "dom (bind_ports bindings exposed) = dom bindings \<union> dom exposed"
  by (auto simp: bind_ports_apply split: if_splits)

lemma bind_ports_idem [simp]:
  "bind_ports bindings (bind_ports bindings exposed) = bind_ports bindings exposed"
  by (rule ext) (simp add: bind_ports_apply)

lemma bind_ports_subtract_idem:
  "bind_ports bindings (structMapSubtract (bind_ports bindings exposed) defaults) =
     bind_ports bindings (structMapSubtract exposed defaults)"
  by (rule ext) (simp add: bind_ports_apply structMapSubtract_apply)

section \<open>The method on a snapshot\<close>

lemma runtimeConfig_Some:
  assumes "containerInfo c = Some info" and "ci_Config info = Some config"
    and "imageInfo c = Some img" and "ii_Config img = Some imageConfig"
    and "ci_HostConfig info = Some hc"
  shows "runtimeConfig c =
     Inr ((subtract_defaults config imageConfig)
            \<lparr>ExposedPorts := bind_ports (hc_PortBindings hc)
               (structMapSubtract (ExposedPorts config) (ExposedPorts imageConfig)),
             Image := image_after config imageConfig\<rparr>,
          c\<lparr>containerInfo := Some (info\<lparr>ci_Config := Some
            ((subtract_defaults config imageConfig)
               \<lparr>ExposedPorts := bind_ports (hc_PortBindings hc)
                  (structMapSubtract (ExposedPorts config) (ExposedPorts imageConfig)),
                Image := image_after config imageConfig\<rparr>)\<rparr>)\<rparr>)"
proof -
  let ?bound = "(subtract_defaults config imageConfig)
      \<lparr>ExposedPorts := bind_ports (hc_PortBindings hc)
         (structMapSubtract (ExposedPorts config) (ExposedPorts imageConfig))\<rparr>"
  have "ImageName (c\<lparr>containerInfo := Some (info\<lparr>ci_Config := Some ?bound\<rparr>)\<rparr>) =
      Inr (image_after config imageConfig)"
    by (simp add: ImageName_Some [where config = ?bound] image_after_def split: option.split)
  with assms show ?thesis
    by (simp add: runtimeConfig_def Let_def)
qed

lemma runtimeConfig_not_launchable:
  "\<not> launchable c \<Longrightarrow> runtimeConfig c = Inl NilPointerDereference"
  by (auto simp: runtimeConfig_def launchable_def Let_def deref_def go_bind_def
      split: option.splits sum.splits)

lemma launchable_iff:
  "launchable c \<longleftrightarrow>
     (\<exists>info config img imageConfig hc.
        containerInfo c = Some info \<and> ci_Config info = Some config \<and>
        imageInfo c = Some img \<and> ii_Config img = Some imageConfig \<and>
        ci_HostConfig info = Some hc)"
  by (auto simp: launchable_def split: option.splits)

lemma runtimeConfig_Inr:
  "runtimeConfig c = Inr (cfg, c') \<longleftrightarrow>
     (\<exists>info config img imageConfig hc.
        containerInfo c = Some info \<and> ci_Config info = Some config \<and>
        imageInfo c = Some img \<and> ii_Config img = Some imageConfig \<and>
        ci_HostConfig info = Some hc \<and>
        cfg = (subtract_defaults config imageConfig)
                \<lparr>ExposedPorts := bind_ports (hc_PortBindings hc)
                   (structMapSubtract (ExposedPorts config) (ExposedPorts imageConfig)),
                 Image := image_after config imageConfig\<rparr> \<and>
        c' = c\<lparr>containerInfo := Some (info\<lparr>ci_Config := Some cfg\<rparr>)\<rparr>)"
proof (cases "launchable c")
  case True
  then obtain info config img imageConfig hc where
    "containerInfo c = Some info" "ci_Config info = Some config"
    "imageInfo c = Some img" "ii_Config img = Some imageConfig" "ci_HostConfig info = Some hc"
    by (auto simp: launchable_iff)
  then show ?thesis
    by (auto simp: runtimeConfig_Some)
next
  case False
  then have "runtimeConfig c = Inl NilPointerDereference"
    by (rule runtimeConfig_not_launchable)
  with False show ?thesis
    by (auto simp: launchable_iff)
qed

lemma override_eq:
  "(subtract_defaults config imageConfig)
     \<lparr>ExposedPorts := bind_ports (hc_PortBindings hc)
        (structMapSubtract (ExposedPorts config) (ExposedPorts imageConfig)),
      Image := n\<rparr> = DeriveOverrideConfig config imageConfig hc n"
  by (rule ContainerConfig.equality)
    (auto simp: DeriveOverrideConfig_def sliceSubtract_filter fun_eq_iff bind_ports_apply
      structMapSubtract_apply stringMapSubtract_apply split: option.splits)

lemma runtimeConfig_override:
  assumes "containerInfo c = Some info" and "ci_Config info = Some config"
    and "imageInfo c = Some img" and "ii_Config img = Some imageConfig"
    and "ci_HostConfig info = Some hc"
  shows "runtimeConfig c =
     Inr (DeriveOverrideConfig config imageConfig hc (image_after config imageConfig),
          c\<lparr>containerInfo := Some (info\<lparr>ci_Config := Some
            (DeriveOverrideConfig config imageConfig hc (image_after config imageConfig))\<rparr>)\<rparr>)"
  by (simp add: runtimeConfig_Some [OF assms] override_eq)

lemma image_after_eq:
  "Labels config LabelZodiac = None \<or> Labels imageConfig LabelZodiac \<noteq> Labels config LabelZodiac
   \<Longrightarrow> image_after config imageConfig =
       with_tag (case Labels config LabelZodiac of Some z \<Rightarrow> z | None \<Rightarrow> Image config)"
  by (auto simp: image_after_def stringMapSubtract_apply split: option.splits)

lemma image_after_shared:
  "Labels config LabelZodiac = Some z \<Longrightarrow> Labels imageConfig LabelZodiac = Some z \<Longrightarrow>
   image_after config imageConfig = with_tag (Image config)"
  by (simp add: image_after_def stringMapSubtract_apply)

lemma image_after_idem:
  "image_after
     ((subtract_defaults config imageConfig)\<lparr>ExposedPorts := ports,
        Image := image_after config imageConfig\<rparr>) imageConfig =
   image_after config imageConfig"
  by (simp add: image_after_def split: option.splits)

lemma run_container_fields:
  "containerInfo run_container = Some run_info"
  "ci_Config run_info = Some run_config"
  "imageInfo run_container = Some run_image_info"
  "ii_Config run_image_info = Some run_image"
  "ci_HostConfig run_info = Some run_host"
  by (simp_all add: run_container_def run_info_def run_image_info_def NewContainer_def)

lemma run_override_eq:
  "DeriveOverrideConfig run_config run_image run_host ''tests:latest'' = run_override"
  by (rule ContainerConfig.equality)
    (auto simp: DeriveOverrideConfig_def run_config_def run_image_def run_host_def
      run_override_def Label_defs fun_eq_iff)

lemma run_image_after: "image_after run_config run_image = ''tests:latest''"
  by (simp add: image_after_def stringMapSubtract_apply run_config_def run_image_def
      Label_defs with_tag_eq)

lemma runtimeConfig_run:
  "runtimeConfig run_container =
     Inr (run_override,
          run_container\<lparr>containerInfo := Some (run_info\<lparr>ci_Config := Some run_override\<rparr>)\<rparr>)"
  by (simp add: runtimeConfig_Some [OF run_container_fields] override_eq run_image_after
      run_override_eq)

lemma run_container_candidate:
  "IsTugbot run_container = Inr False" "IsTugbotCandidate run_container = Inr True"
proof -
  show "IsTugbot run_container = Inr False"
    by (simp add: IsTugbot_def config_of_def run_container_fields)
      (simp add: run_config_def Label_defs)
  show "IsTugbotCandidate run_container = Inr True"
    by (simp add: IsTugbotCandidate_wf [OF run_container_fields(1,2)] run_info_def
        is_test_label_def stateExited_string)
      (simp add: run_config_def Label_defs)
qed

section \<open>Properties of the configuration diff\<close>

text \<open>
  C2. \<^verbatim>\<open>runtimeConfig\<close> implements the specification's override configuration:
  on a snapshot with all its parts, whose compatibility label is not one of the
  image's defaults, it returns \<^term>\<open>DeriveOverrideConfig\<close> applied to the
  configuration, the image's configuration, the host configuration and the image name
  that \<^verbatim>\<open>ImageName\<close> gives before the call, and it leaves that configuration in the
  snapshot.
\<close>

theorem runtimeConfig_refines:
  assumes "containerInfo c = Some info" and "ci_Config info = Some config"
    and "imageInfo c = Some img" and "ii_Config img = Some imageConfig"
    and "ci_HostConfig info = Some hc"
    and "Labels config LabelZodiac = None \<or>
         Labels imageConfig LabelZodiac \<noteq> Labels config LabelZodiac"
    and "ImageName c = Inr n"
  shows "runtimeConfig c =
     Inr (DeriveOverrideConfig config imageConfig hc n,
          c\<lparr>containerInfo := Some (info\<lparr>ci_Config :=
            Some (DeriveOverrideConfig config imageConfig hc n)\<rparr>)\<rparr>)"
proof -
  from assms(1,2,7) have "n = with_tag (case Labels config LabelZodiac of
      Some z \<Rightarrow> z | None \<Rightarrow> Image config)"
    by (simp add: ImageName_Some)
  with assms(6) have "image_after config imageConfig = n"
    by (simp add: image_after_eq)
  then show ?thesis
    by (simp add: runtimeConfig_Some [OF assms(1-5)] override_eq)
qed

theorem runtimeConfig_refines_witness:
  "ImageName run_container = Inr ''tests:latest'' \<and>
   DeriveOverrideConfig run_config run_image run_host ''tests:latest'' = run_override \<and>
   runtimeConfig run_container =
     Inr (run_override,
          run_container\<lparr>containerInfo := Some (run_info\<lparr>ci_Config := Some run_override\<rparr>)\<rparr>)"
proof -
  have zodiac: "Labels run_config LabelZodiac = None \<or>
      Labels run_image LabelZodiac \<noteq> Labels run_config LabelZodiac"
    by (simp add: run_config_def Label_defs)
  have name: "ImageName run_container = Inr ''tests:latest''"
    by (simp add: ImageName_Some [OF run_container_fields(1,2)] with_tag_eq)
      (simp add: run_config_def Label_defs)
  from runtimeConfig_refines [OF run_container_fields zodiac name] name
  show ?thesis by (simp add: run_override_eq)
qed

text \<open>
  C10. On a container whose configuration equals its image's defaults in every
  field that is compared, and which has no port binding, the override configuration
  is empty in every such field; only the image reference is set, to the recorded
  image with the default tag.
\<close>

theorem runtimeConfig_identical_cleared:
  assumes "containerInfo c = Some info" and "ci_Config info = Some config"
    and "imageInfo c = Some img" and "ii_Config img = Some imageConfig"
    and "ci_HostConfig info = Some hc"
    and "WorkingDir config = WorkingDir imageConfig" and "User config = User imageConfig"
    and "Cmd config = Cmd imageConfig" and "Entrypoint config = Entrypoint imageConfig"
    and "set (Env config) \<subseteq> set (Env imageConfig)"
    and "Labels config = Labels imageConfig" and "Volumes config = Volumes imageConfig"
    and "ExposedPorts config = ExposedPorts imageConfig"
    and "hc_PortBindings hc = Map.empty"
  shows "\<exists>c'. runtimeConfig c =
     Inr (\<lparr>User = [], ExposedPorts = Map.empty, Env = [], Cmd = [],
           Image = with_tag (Image config), Volumes = Map.empty, WorkingDir = [],
           Entrypoint = [], Labels = Map.empty\<rparr>, c')"
proof -
  have "DeriveOverrideConfig config imageConfig hc (image_after config imageConfig) =
      \<lparr>User = [], ExposedPorts = Map.empty, Env = [], Cmd = [],
       Image = with_tag (Image config), Volumes = Map.empty, WorkingDir = [],
       Entrypoint = [], Labels = Map.empty\<rparr>"
    using assms(6-14)
    by (intro ContainerConfig.equality ext)
      (auto simp: DeriveOverrideConfig_def image_after_def filter_empty_conv)
  then show ?thesis
    by (simp add: runtimeConfig_Some [OF assms(1-5)] override_eq)
qed

theorem runtimeConfig_identical_cleared_witness:
  "\<exists>c'. runtimeConfig
      (NewContainer
         (Some (run_info\<lparr>ci_Config := Some run_image,
            ci_HostConfig := Some \<lparr>hc_Links = [], hc_PortBindings = Map.empty\<rparr>\<rparr>))
         (Some run_image_info)) =
     Inr (\<lparr>User = [], ExposedPorts = Map.empty, Env = [], Cmd = [],
           Image = '':latest'', Volumes = Map.empty, WorkingDir = [],
           Entrypoint = [], Labels = Map.empty\<rparr>, c')"
  using runtimeConfig_identical_cleared
    [of "NewContainer
         (Some (run_info\<lparr>ci_Config := Some run_image,
            ci_HostConfig := Some \<lparr>hc_Links = [], hc_PortBindings = Map.empty\<rparr>\<rparr>))
         (Some run_image_info)"
        "run_info\<lparr>ci_Config := Some run_image,
            ci_HostConfig := Some \<lparr>hc_Links = [], hc_PortBindings = Map.empty\<rparr>\<rparr>"
        run_image run_image_info run_image
        "\<lparr>hc_Links = [], hc_PortBindings = Map.empty\<rparr>"]
  by (simp add: NewContainer_def run_image_info_def with_tag_eq) (simp add: run_image_def)

text \<open>
  C26. The override configuration does not depend on the order of the image's
  default environment: permuting the image's \<^verbatim>\<open>Env\<close> entries leaves the returned
  configuration as it is.
\<close>

theorem runtimeConfig_env_order:
  assumes "runtimeConfig c = Inr (cfg, c')"
    and "imageInfo c = Some img" and "ii_Config img = Some imageConfig"
    and "mset env' = mset (Env imageConfig)"
  shows "\<exists>c''. runtimeConfig
           (c\<lparr>imageInfo := Some (img\<lparr>ii_Config := Some (imageConfig\<lparr>Env := env'\<rparr>)\<rparr>)\<rparr>)
         = Inr (cfg, c'')"
proof -
  from assms(1-3) obtain info config hc where info: "containerInfo c = Some info"
    and config: "ci_Config info = Some config" and hc: "ci_HostConfig info = Some hc"
    and cfg: "cfg = DeriveOverrideConfig config imageConfig hc (image_after config imageConfig)"
    by (auto simp: runtimeConfig_Inr override_eq)
  from assms(4) have "set env' = set (Env imageConfig)"
    by (rule mset_eq_setD)
  then have "DeriveOverrideConfig config (imageConfig\<lparr>Env := env'\<rparr>) hc
        (image_after config (imageConfig\<lparr>Env := env'\<rparr>)) = cfg"
    by (simp add: cfg DeriveOverrideConfig_def image_after_def cong: if_cong)
  then show ?thesis
    by (simp add: runtimeConfig_override
        [where info = info and config = config and hc = hc
           and img = "img\<lparr>ii_Config := Some (imageConfig\<lparr>Env := env'\<rparr>)\<rparr>"
           and imageConfig = "imageConfig\<lparr>Env := env'\<rparr>"] info config hc)
qed

theorem runtimeConfig_env_order_witness:
  "\<exists>c''. runtimeConfig
      (run_container\<lparr>imageInfo := Some (run_image_info\<lparr>ii_Config :=
         Some (run_image\<lparr>Env := [''LANG=C'', ''PATH=/usr/bin'']\<rparr>)\<rparr>)\<rparr>)
    = Inr (run_override, c'')"
proof -
  have "mset [''LANG=C'', ''PATH=/usr/bin''] = mset (Env run_image)"
    by (simp add: run_image_def)
  from runtimeConfig_env_order [OF runtimeConfig_run run_container_fields(3,4) this]
  show ?thesis .
qed

text \<open>
  C5. \<^verbatim>\<open>runtimeConfig\<close> is idempotent on the snapshot: a second call on the snapshot
  that the first call left behind returns the same configuration and changes nothing
  more.
\<close>

theorem runtimeConfig_idem:
  assumes "runtimeConfig c = Inr (cfg, c')"
  shows "runtimeConfig c' = Inr (cfg, c')"
proof -
  from assms obtain info config img imageConfig hc where
    info: "containerInfo c = Some info" and config: "ci_Config info = Some config"
    and img: "imageInfo c = Some img" and imageConfig: "ii_Config img = Some imageConfig"
    and hc: "ci_HostConfig info = Some hc"
    and cfg: "cfg = (subtract_defaults config imageConfig)
        \<lparr>ExposedPorts := bind_ports (hc_PortBindings hc)
           (structMapSubtract (ExposedPorts config) (ExposedPorts imageConfig)),
         Image := image_after config imageConfig\<rparr>"
    and c': "c' = c\<lparr>containerInfo := Some (info\<lparr>ci_Config := Some cfg\<rparr>)\<rparr>"
    by (auto simp: runtimeConfig_Inr)
  have again: "(subtract_defaults cfg imageConfig)
        \<lparr>ExposedPorts := bind_ports (hc_PortBindings hc)
           (structMapSubtract (ExposedPorts cfg) (ExposedPorts imageConfig)),
         Image := image_after cfg imageConfig\<rparr> = cfg"
    unfolding cfg
    by (rule ContainerConfig.equality)
      (simp_all add: image_after_idem bind_ports_subtract_idem)
  show ?thesis
    by (simp add: runtimeConfig_Some
        [where info = "info\<lparr>ci_Config := Some cfg\<rparr>" and config = cfg and img = img
           and imageConfig = imageConfig and hc = hc] c' img imageConfig hc again)
qed

theorem runtimeConfig_idem_witness:
  "runtimeConfig
     (run_container\<lparr>containerInfo := Some (run_info\<lparr>ci_Config := Some run_override\<rparr>)\<rparr>) =
   runtimeConfig run_container"
  using runtimeConfig_idem [OF runtimeConfig_run] by (simp add: runtimeConfig_run)

text \<open>
  C3. \<^verbatim>\<open>runtimeConfig\<close> fails exactly on the snapshots that miss a part: the
  container information, its configuration, its host configuration, the image or the
  image's configuration. The failure is a nil pointer panic; the method has no error
  return.
\<close>

theorem runtimeConfig_panics_iff:
  "(panics (runtimeConfig c) \<longleftrightarrow> \<not> launchable c) \<and>
   (panics (runtimeConfig c) \<longleftrightarrow> runtimeConfig c = Inl NilPointerDereference)"
proof (cases "launchable c")
  case True
  then obtain info config img imageConfig hc where
    "containerInfo c = Some info" "ci_Config info = Some config"
    "imageInfo c = Some img" "ii_Config img = Some imageConfig" "ci_HostConfig info = Some hc"
    by (auto simp: launchable_iff)
  with True show ?thesis by (simp add: runtimeConfig_Some)
next
  case False
  then show ?thesis by (simp add: runtimeConfig_not_launchable)
qed

text \<open>
  The containers that the tests of the polling loop build have no image, so
  \<^verbatim>\<open>runtimeConfig\<close> panics on each of them.
\<close>

theorem runtimeConfig_test_container:
  "runtimeConfig (test_container ident name) = Inl NilPointerDereference"
  by (rule runtimeConfig_not_launchable) (simp add: launchable_def test_container_info)

text \<open>
  The exposed ports of the override configuration are the container's exposed
  ports that are not exposed by the image, together with every port that has a host
  binding, whether or not the image exposes it.
\<close>

theorem runtimeConfig_ports:
  assumes "runtimeConfig c = Inr (cfg, c')"
    and "containerInfo c = Some info" and "ci_Config info = Some config"
    and "imageInfo c = Some img" and "ii_Config img = Some imageConfig"
    and "ci_HostConfig info = Some hc"
  shows "dom (ExposedPorts cfg) =
     (dom (ExposedPorts config) - dom (ExposedPorts imageConfig)) \<union> dom (hc_PortBindings hc)"
  using assms(1)
  by (auto simp: runtimeConfig_override [OF assms(2-6)] DeriveOverrideConfig_def
      split: if_splits)

theorem runtimeConfig_ports_witness:
  "dom (ExposedPorts run_override) =
     (dom (ExposedPorts run_config) - dom (ExposedPorts run_image)) \<union>
     dom (hc_PortBindings run_host)"
  using runtimeConfig_ports [OF runtimeConfig_run run_container_fields] .

text \<open>
  C8. When the image itself carries the compatibility label with the value the
  container has, the subtraction removes the label before the image name is read, and
  the override configuration names the recorded image instead of the label's value,
  which is what \<^verbatim>\<open>ImageName\<close> returned before the call.
\<close>

theorem runtimeConfig_zodiac_shared:
  assumes "containerInfo c = Some info" and "ci_Config info = Some config"
    and "imageInfo c = Some img" and "ii_Config img = Some imageConfig"
    and "ci_HostConfig info = Some hc"
    and "Labels config LabelZodiac = Some z" and "Labels imageConfig LabelZodiac = Some z"
  shows "\<exists>cfg c'. runtimeConfig c = Inr (cfg, c') \<and> Image cfg = with_tag (Image config) \<and>
           ImageName c = Inr (with_tag z) \<and> ImageName c' = Inr (with_tag (Image config))"
proof -
  let ?cfg = "DeriveOverrideConfig config imageConfig hc (with_tag (Image config))"
  from assms(6,7) have "runtimeConfig c =
      Inr (?cfg, c\<lparr>containerInfo := Some (info\<lparr>ci_Config := Some ?cfg\<rparr>)\<rparr>)"
    by (simp add: runtimeConfig_Some [OF assms(1-5)] override_eq image_after_shared)
  moreover have "Image ?cfg = with_tag (Image config)"
    by (simp add: DeriveOverrideConfig_def)
  moreover have "ImageName c = Inr (with_tag z)"
    using assms(6) by (simp add: ImageName_Some [OF assms(1,2)])
  moreover have "Labels ?cfg LabelZodiac = None"
    using assms(6,7) by (simp add: DeriveOverrideConfig_def)
  then have "ImageName (c\<lparr>containerInfo := Some (info\<lparr>ci_Config := Some ?cfg\<rparr>)\<rparr>) =
      Inr (with_tag (Image config))"
    by (simp add: ImageName_Some [where config = ?cfg] DeriveOverrideConfig_def)
  ultimately show ?thesis by blast
qed

theorem runtimeConfig_zodiac_shared_witness:
  "\<exists>cfg c'. runtimeConfig zodiac_container = Inr (cfg, c') \<and>
     Image cfg = ''mirror/app:2'' \<and> ImageName zodiac_container = Inr ''app:1''"
proof -
  have fields: "containerInfo zodiac_container = Some (run_info\<lparr>ci_Config := Some zodiac_config\<rparr>)"
    "ci_Config (run_info\<lparr>ci_Config := Some zodiac_config\<rparr>) = Some zodiac_config"
    "imageInfo zodiac_container = Some (run_image_info\<lparr>ii_Config := Some zodiac_image\<rparr>)"
    "ii_Config (run_image_info\<lparr>ii_Config := Some zodiac_image\<rparr>) = Some zodiac_image"
    "ci_HostConfig (run_info\<lparr>ci_Config := Some zodiac_config\<rparr>) = Some run_host"
    by (simp_all add: zodiac_container_def NewContainer_def run_info_def)
  have labels: "Labels zodiac_config LabelZodiac = Some ''app:1''"
    "Labels zodiac_image LabelZodiac = Some ''app:1''"
    by (simp_all add: zodiac_config_def zodiac_image_def)
  have "Image zodiac_config = ''mirror/app:2''"
    by (simp add: zodiac_config_def)
  with runtimeConfig_zodiac_shared [OF fields labels] show ?thesis
    by (auto simp: with_tag_eq)
qed

text \<open>
  C9. \<^verbatim>\<open>runtimeConfig\<close> changes the classification of the snapshot it was called
  on: when the image declares the label \<^verbatim>\<open>tugbot.test\<close> as \<^verbatim>\<open>true\<close>, the snapshot
  is no candidate after the call, even if it was one before.
\<close>

theorem runtimeConfig_candidate_flip:
  assumes "runtimeConfig c = Inr (cfg, c')"
    and "imageInfo c = Some img" and "ii_Config img = Some imageConfig"
    and "Labels imageConfig LabelTest = Some ''true''"
  shows "IsTugbotCandidate c' = Inr False"
proof -
  from assms(1-3) obtain info config hc where info: "containerInfo c = Some info"
    and cfg: "cfg = DeriveOverrideConfig config imageConfig hc (image_after config imageConfig)"
    and c': "c' = c\<lparr>containerInfo := Some (info\<lparr>ci_Config := Some cfg\<rparr>)\<rparr>"
    by (auto simp: runtimeConfig_Inr override_eq)
  from assms(4) have "Labels cfg LabelTest \<noteq> Some ''true''"
    by (auto simp: cfg DeriveOverrideConfig_def)
  then have "\<not> is_test_label cfg"
    by (simp add: is_test_label_def)
  then show ?thesis
    by (simp add: c' IsTugbotCandidate_eq [where info = "info\<lparr>ci_Config := Some cfg\<rparr>"
          and config = cfg])
qed

theorem runtimeConfig_candidate_flip_witness:
  "IsTugbotCandidate run_container = Inr True \<and>
   IsTugbotCandidate
     (run_container\<lparr>containerInfo := Some (run_info\<lparr>ci_Config := Some run_override\<rparr>)\<rparr>)
     = Inr False"
proof -
  have "Labels run_image LabelTest = Some ''true''"
    by (simp add: run_image_def)
  from runtimeConfig_candidate_flip [OF runtimeConfig_run run_container_fields(3,4) this]
  show ?thesis by (simp add: run_container_candidate)
qed

text \<open>
  \<^verbatim>\<open>runtimeConfig\<close> writes to the configuration only: the snapshot it leaves
  has the same image, state, host configuration, identifier, name and \<^verbatim>\<open>Stale\<close>
  flag, reports the same links, and can be given to \<^verbatim>\<open>runtimeConfig\<close> again.
\<close>

theorem runtimeConfig_frame:
  assumes "runtimeConfig c = Inr (cfg, c')" and "containerInfo c = Some info"
  shows "containerInfo c' = Some (info\<lparr>ci_Config := Some cfg\<rparr>) \<and>
         imageInfo c' = imageInfo c \<and> Stale c' = Stale c \<and>
         ID c' = ID c \<and> Name c' = Name c \<and> Links c' = Links c \<and> launchable c'"
  using assms
  by (auto simp: runtimeConfig_Inr ID_def Name_def Links_def launchable_def)

theorem runtimeConfig_frame_witness:
  "Name (run_container\<lparr>containerInfo := Some (run_info\<lparr>ci_Config := Some run_override\<rparr>)\<rparr>)
     = Inr ''nightly'' \<and>
   launchable (run_container\<lparr>containerInfo := Some (run_info\<lparr>ci_Config := Some run_override\<rparr>)\<rparr>)"
proof -
  have "Name run_container = Inr ''nightly''"
    by (simp add: Name_def run_container_fields strings_TrimPrefix_single)
      (simp add: run_info_def)
  with runtimeConfig_frame [OF runtimeConfig_run run_container_fields(1)]
  show ?thesis by simp
qed

text \<open>
  The loop that exposes the bound ports gives the same map in whatever order
  the \<^verbatim>\<open>range\<close> visits the port bindings: every bound port is exposed and every
  other port is as before.
\<close>

theorem bind_ports_order:
  assumes "set ps = dom bindings"
  shows "bind_ports_loop ps exposed = bind_ports bindings exposed \<and>
         dom (bind_ports bindings exposed) = dom bindings \<union> dom exposed"
  using assms by (simp add: bind_ports_loop_eq)

theorem bind_ports_order_witness:
  "bind_ports_loop [''80/tcp'', ''443/tcp''] [''8080/tcp'' \<mapsto> ()] =
   bind_ports_loop [''443/tcp'', ''80/tcp''] [''8080/tcp'' \<mapsto> ()]"
proof -
  let ?b = "[''80/tcp'' \<mapsto> [], ''443/tcp'' \<mapsto> []] :: string \<rightharpoonup> PortBinding list"
  have 1: "set [''80/tcp'', ''443/tcp''] = dom ?b"
    and 2: "set [''443/tcp'', ''80/tcp''] = dom ?b"
    by auto
  from bind_ports_order [OF 1] bind_ports_order [OF 2] show ?thesis by simp
qed

end
