(* ===== verification/Host_Config.thy ===== *)
theory Host_Config
  imports Tugbot_Container
begin

text \<open>
  The method \<^verbatim>\<open>hostConfig\<close> of \<^verbatim>\<open>src/container/container.go\<close>: it rewrites every
  link of the container's host configuration for the create call, in place, and
  returns the host configuration. \<^term>\<open>rewrite_link\<close> is the body of its loop,
  \<^term>\<open>links_loop\<close> the loop, which writes each rewritten link over the link it
  read, and \<^term>\<open>hostConfig\<close> the method; since the slice it writes to is the
  snapshot's own, the model returns the snapshot as it is left as well. The lemmas
  show that the loop is the map of its body over the links, and give the rewritten
  link in closed form, the links the rewriting leaves alone, the panics, and what of
  the snapshot the method does not touch.
\<close>

section \<open>The method\<close>

definition rewrite_link :: "string \<Rightarrow> string go_result" where
  "rewrite_link link =
     go_bind (go_slice link 0 (strings_Index link '':'')) (\<lambda>name.
     go_bind (go_slice link (strings_LastIndex link ''/'') (int (length link))) (\<lambda>alias.
       Inr (name @ '':'' @ alias)))"

text \<open>
  The \<^verbatim>\<open>range\<close> loop from index \<open>i\<close> on. The length of the slice is fixed when the
  loop starts and an assignment to an element does not change it; a panic of the
  body ends the loop.
\<close>

function links_loop :: "nat \<Rightarrow> string list \<Rightarrow> string list go_result" where
  "links_loop i links =
     (if i < length links
      then go_bind (rewrite_link (links ! i)) (\<lambda>link. links_loop (Suc i) (links[i := link]))
      else Inr links)"
  by pat_completeness auto

termination links_loop
  by (relation "measure (\<lambda>(i, links). length links - i)") auto

declare links_loop.simps [simp del]

definition hostConfig :: "Container \<Rightarrow> (HostConfig \<times> Container) go_result" where
  "hostConfig c =
     go_bind (deref (containerInfo c)) (\<lambda>info.
     go_bind (deref (ci_HostConfig info)) (\<lambda>hc.
     go_bind (links_loop 0 (hc_Links hc)) (\<lambda>links.
       Inr (hc\<lparr>hc_Links := links\<rparr>,
            c\<lparr>containerInfo := Some (info\<lparr>ci_HostConfig := Some (hc\<lparr>hc_Links := links\<rparr>)\<rparr>)\<rparr>))))"

text \<open>A link that can be rewritten: it has a colon and a slash.\<close>

definition link_ok :: "string \<Rightarrow> bool" where
  "link_ok link \<longleftrightarrow> CHR '':'' \<in> set link \<and> CHR ''/'' \<in> set link"

text \<open>
  A snapshot with two links as the Docker daemon reports them, for the examples:
  the linked container's name, a colon, and the alias under the linking container's
  name.
\<close>

definition linked_info :: ContainerInfo where
  "linked_info =
     \<lparr>ci_Id = ''0a1b'', ci_Name = ''/app'', ci_Config = Some test_cc,
      ci_State = Some stateExited,
      ci_HostConfig = Some \<lparr>hc_Links = [''/redis:/app/redis'', ''/db:/app/db''],
                              hc_PortBindings = Map.empty\<rparr>\<rparr>"

definition linked_container :: Container where
  "linked_container = NewContainer (Some linked_info) None"

section \<open>One link\<close>

lemma rewrite_link_closed:
  "rewrite_link link =
     (if link_ok link
      then Inr (before_first CHR '':'' link @ '':'' @ from_last CHR ''/'' link)
      else Inl SliceBoundsOutOfRange)"
  by (simp add: rewrite_link_def link_ok_def go_slice_to_Index go_slice_from_LastIndex)

lemma rewrite_link_Inr:
  "rewrite_link link = Inr l \<longleftrightarrow>
     link_ok link \<and> l = before_first CHR '':'' link @ '':'' @ from_last CHR ''/'' link"
  by (auto simp: rewrite_link_closed)

lemma rewrite_link_panics: "panics (rewrite_link link) \<longleftrightarrow> \<not> link_ok link"
  by (simp add: rewrite_link_closed)

lemma rewrite_link_form:
  assumes "CHR '':'' \<notin> set name" and "CHR ''/'' \<notin> set a"
  shows "rewrite_link (name @ '':/'' @ a) = Inr (name @ '':/'' @ a)"
proof -
  have "from_last CHR ''/'' ((name @ '':'') @ CHR ''/'' # a) = CHR ''/'' # a"
    using assms(2) by (rule from_last_append)
  moreover have "before_first CHR '':'' (name @ CHR '':'' # CHR ''/'' # a) = name"
    using assms(1) by (rule before_first_append)
  ultimately show ?thesis
    by (simp add: rewrite_link_closed link_ok_def)
qed

lemma rewrite_link_result_form:
  assumes "rewrite_link link = Inr l"
  shows "\<exists>name a. l = name @ '':/'' @ a \<and> CHR '':'' \<notin> set name \<and> CHR ''/'' \<notin> set a"
proof -
  from assms have l: "l = before_first CHR '':'' link @ '':'' @ from_last CHR ''/'' link"
    by (simp add: rewrite_link_Inr)
  have "from_last CHR ''/'' link = CHR ''/'' # tl (from_last CHR ''/'' link)"
    by (simp add: from_last_def)
  with l have "l = before_first CHR '':'' link @ '':/'' @ tl (from_last CHR ''/'' link)"
    by simp
  then show ?thesis
    using before_first_notin from_last_tl_notin by blast
qed

lemma rewrite_link_idem: "rewrite_link link = Inr l \<Longrightarrow> rewrite_link l = Inr l"
  using rewrite_link_result_form rewrite_link_form by blast

lemma rewrite_link_name:
  "rewrite_link link = Inr l \<Longrightarrow> before_first CHR '':'' l = before_first CHR '':'' link"
  by (simp add: rewrite_link_Inr)

section \<open>All links\<close>

text \<open>
  The loop reads a link before it writes to its place and never reads a place it
  has written to: it is the map of its body over the links.
\<close>

lemma links_loop_drop:
  "i \<le> length links \<Longrightarrow>
   links_loop i links =
     go_bind (go_mapM rewrite_link (drop i links)) (\<lambda>ls. Inr (take i links @ ls))"
proof (induction i links rule: links_loop.induct)
  case (1 i links)
  show ?case
  proof (cases "i < length links")
    case True
    then have drop: "drop i links = links ! i # drop (Suc i) links"
      by (simp add: Cons_nth_drop_Suc)
    show ?thesis
    proof (cases "rewrite_link (links ! i)")
      case (Inl e)
      with True drop show ?thesis by (subst links_loop.simps) simp
    next
      case (Inr l)
      with True "1.IH" [OF True Inr] drop show ?thesis
        by (subst links_loop.simps)
          (cases "go_mapM rewrite_link (drop (Suc i) links)";
            simp add: take_Suc_conv_app_nth upd_conv_take_nth_drop)
    qed
  next
    case False
    with "1.prems" show ?thesis by (subst links_loop.simps) simp
  qed
qed

lemma links_loop_eq: "links_loop 0 links = go_mapM rewrite_link links"
  by (simp add: links_loop_drop)

lemma list_all2_map_eq:
  "list_all2 (\<lambda>x y. f y = f x) xs ys \<Longrightarrow> map f ys = map f xs"
  by (induction rule: list_all2_induct) simp_all

lemma list_all2_fixed:
  "list_all2 (\<lambda>x y. g y = Inr y) xs ys \<Longrightarrow> go_mapM g ys = Inr ys"
  by (induction rule: list_all2_induct) simp_all

lemma rewrite_links_idem:
  assumes "go_mapM rewrite_link links = Inr links'"
  shows "go_mapM rewrite_link links' = Inr links'"
proof -
  from assms have "list_all2 (\<lambda>x y. rewrite_link x = Inr y) links links'"
    by (simp add: go_mapM_eq_Inr)
  then have "list_all2 (\<lambda>x y. rewrite_link y = Inr y) links links'"
    by (rule list_all2_mono) (rule rewrite_link_idem)
  then show ?thesis by (rule list_all2_fixed)
qed

lemma rewrite_links_names:
  assumes "go_mapM rewrite_link links = Inr links'"
  shows "map (before_first CHR '':'') links' = map (before_first CHR '':'') links"
proof -
  from assms have "list_all2 (\<lambda>x y. rewrite_link x = Inr y) links links'"
    by (simp add: go_mapM_eq_Inr)
  then have "list_all2 (\<lambda>x y. before_first CHR '':'' y = before_first CHR '':'' x) links links'"
    by (rule list_all2_mono) (rule rewrite_link_name)
  then show ?thesis by (rule list_all2_map_eq)
qed

lemma rewrite_links_panics:
  "panics (go_mapM rewrite_link links) \<longleftrightarrow> (\<exists>link \<in> set links. \<not> link_ok link)"
  by (simp add: go_mapM_panics rewrite_link_panics)

lemma rewrite_links_total:
  "list_all link_ok links \<Longrightarrow>
   go_mapM rewrite_link links =
     Inr (map (\<lambda>link. before_first CHR '':'' link @ '':'' @ from_last CHR ''/'' link) links)"
  by (rule go_mapM_total) (simp add: rewrite_link_closed list_all_iff)

section \<open>The method on a snapshot\<close>

lemma hostConfig_mapM:
  "hostConfig c =
     go_bind (deref (containerInfo c)) (\<lambda>info.
     go_bind (deref (ci_HostConfig info)) (\<lambda>hc.
     go_bind (go_mapM rewrite_link (hc_Links hc)) (\<lambda>links.
       Inr (hc\<lparr>hc_Links := links\<rparr>,
            c\<lparr>containerInfo := Some (info\<lparr>ci_HostConfig := Some (hc\<lparr>hc_Links := links\<rparr>)\<rparr>)\<rparr>))))"
  by (simp add: hostConfig_def links_loop_eq)

lemma hostConfig_Some:
  assumes "containerInfo c = Some info" and "ci_HostConfig info = Some hc"
  shows "hostConfig c =
     go_bind (go_mapM rewrite_link (hc_Links hc)) (\<lambda>links.
       Inr (hc\<lparr>hc_Links := links\<rparr>,
            c\<lparr>containerInfo := Some (info\<lparr>ci_HostConfig := Some (hc\<lparr>hc_Links := links\<rparr>)\<rparr>)\<rparr>))"
  using assms by (simp add: hostConfig_mapM)

lemma hostConfig_Inr:
  "hostConfig c = Inr (hc', c') \<longleftrightarrow>
     (\<exists>info hc links.
        containerInfo c = Some info \<and> ci_HostConfig info = Some hc \<and>
        go_mapM rewrite_link (hc_Links hc) = Inr links \<and>
        hc' = hc\<lparr>hc_Links := links\<rparr> \<and>
        c' = c\<lparr>containerInfo := Some (info\<lparr>ci_HostConfig := Some hc'\<rparr>)\<rparr>)"
  by (auto simp: hostConfig_mapM go_bind_eq_Inr)

lemma hostConfig_nil:
  "containerInfo c = None \<Longrightarrow> hostConfig c = Inl NilPointerDereference"
  "containerInfo c = Some info \<Longrightarrow> ci_HostConfig info = None \<Longrightarrow>
     hostConfig c = Inl NilPointerDereference"
  by (simp_all add: hostConfig_mapM)

lemma hostConfig_linked:
  "hostConfig linked_container =
     Inr (\<lparr>hc_Links = [''/redis:/redis'', ''/db:/db''], hc_PortBindings = Map.empty\<rparr>,
          NewContainer
            (Some (linked_info\<lparr>ci_HostConfig :=
               Some \<lparr>hc_Links = [''/redis:/redis'', ''/db:/db''],
                      hc_PortBindings = Map.empty\<rparr>\<rparr>)) None)"
  by (simp add: hostConfig_mapM linked_container_def linked_info_def NewContainer_def
      rewrite_link_closed link_ok_def before_first_def from_last_def)

section \<open>Properties of the link rewriting\<close>

text \<open>
  C4. The rewritten link in closed form, on every input: a link with a colon and a
  slash becomes the part before its first colon, a colon, and the part from its last
  slash on, the slash included; any other link makes the slice expression panic.
\<close>

theorem rewrite_link_eq:
  "rewrite_link link =
     (if CHR '':'' \<in> set link \<and> CHR ''/'' \<in> set link
      then Inr (before_first CHR '':'' link @ '':'' @ from_last CHR ''/'' link)
      else Inl SliceBoundsOutOfRange)"
  by (simp add: rewrite_link_closed link_ok_def)

text \<open>
  C39. The links that the rewriting leaves as they are, are exactly those of the form
  name, colon, slash, alias, with no colon in the name and no slash in the alias.
\<close>

theorem rewrite_link_fixpoints:
  "rewrite_link l = Inr l \<longleftrightarrow>
     (\<exists>name a. l = name @ '':/'' @ a \<and> CHR '':'' \<notin> set name \<and> CHR ''/'' \<notin> set a)"
  using rewrite_link_result_form rewrite_link_form by blast

text \<open>
  C6. Rewriting is idempotent on the snapshot: calling \<^verbatim>\<open>hostConfig\<close> again on the
  snapshot a first call left behind returns the same host configuration and leaves
  the snapshot as it is.
\<close>

theorem hostConfig_idem:
  assumes "hostConfig c = Inr (hc', c')"
  shows "hostConfig c' = Inr (hc', c')"
proof -
  from assms obtain info hc links where info: "containerInfo c = Some info"
    and hc: "ci_HostConfig info = Some hc"
    and links: "go_mapM rewrite_link (hc_Links hc) = Inr links"
    and hc': "hc' = hc\<lparr>hc_Links := links\<rparr>"
    and c': "c' = c\<lparr>containerInfo := Some (info\<lparr>ci_HostConfig := Some hc'\<rparr>)\<rparr>"
    by (auto simp: hostConfig_Inr)
  from links have "go_mapM rewrite_link (hc_Links hc') = Inr links"
    by (simp add: hc' rewrite_links_idem)
  then show ?thesis
    by (simp add: hostConfig_Some [where info = "info\<lparr>ci_HostConfig := Some hc'\<rparr>" and hc = hc']
        c' hc')
qed

theorem hostConfig_idem_witness:
  "hostConfig (NewContainer
      (Some (linked_info\<lparr>ci_HostConfig :=
         Some \<lparr>hc_Links = [''/redis:/redis'', ''/db:/db''],
                hc_PortBindings = Map.empty\<rparr>\<rparr>)) None) =
   hostConfig linked_container"
  using hostConfig_idem [OF hostConfig_linked] by (simp add: hostConfig_linked)

text \<open>
  C37. Rewriting keeps the linked containers' names: after \<^verbatim>\<open>hostConfig\<close>, the
  method \<^verbatim>\<open>Links\<close> reports the names it reported before, and the host configuration
  has as many links as before.
\<close>

theorem hostConfig_Links:
  assumes "hostConfig c = Inr (hc', c')" and "containerInfo c = Some info"
    and "ci_HostConfig info = Some hc"
  shows "Links c' = Links c \<and> length (hc_Links hc') = length (hc_Links hc)"
proof -
  from assms obtain links where links: "go_mapM rewrite_link (hc_Links hc) = Inr links"
    and hc': "hc' = hc\<lparr>hc_Links := links\<rparr>"
    and c': "c' = c\<lparr>containerInfo := Some (info\<lparr>ci_HostConfig := Some hc'\<rparr>)\<rparr>"
    by (auto simp: hostConfig_Inr)
  from links have "map (before_first CHR '':'') links = map (before_first CHR '':'') (hc_Links hc)"
    by (rule rewrite_links_names)
  moreover from links have "length links = length (hc_Links hc)"
    by (rule go_mapM_length)
  ultimately show ?thesis
    by (simp add: Links_eq assms(2,3) c' hc')
qed

theorem hostConfig_Links_witness:
  "Links linked_container = Inr [''/redis'', ''/db''] \<and>
   Links (NewContainer
      (Some (linked_info\<lparr>ci_HostConfig :=
         Some \<lparr>hc_Links = [''/redis:/redis'', ''/db:/db''],
                hc_PortBindings = Map.empty\<rparr>\<rparr>)) None) = Inr [''/redis'', ''/db'']"
proof -
  have "Links linked_container = Inr [''/redis'', ''/db'']"
    by (simp add: Links_eq linked_container_def linked_info_def NewContainer_def
        before_first_def)
  with hostConfig_Links [OF hostConfig_linked, of linked_info]
  show ?thesis
    by (simp add: linked_container_def linked_info_def NewContainer_def)
qed

text \<open>
  C36. \<^verbatim>\<open>hostConfig\<close> panics exactly when the container information or the host
  configuration is nil, or some link has no colon or no slash.
\<close>

theorem hostConfig_panics_iff:
  "panics (hostConfig c) \<longleftrightarrow>
     (case containerInfo c of
        None \<Rightarrow> True
      | Some info \<Rightarrow>
          (case ci_HostConfig info of
             None \<Rightarrow> True
           | Some hc \<Rightarrow> \<not> list_all link_ok (hc_Links hc)))"
proof (cases "containerInfo c")
  case None
  then show ?thesis by (simp add: hostConfig_nil)
next
  case (Some info)
  show ?thesis
  proof (cases "ci_HostConfig info")
    case None
    with Some show ?thesis by (simp add: hostConfig_nil)
  next
    case hc: (Some hc)
    show ?thesis
      by (cases "go_mapM rewrite_link (hc_Links hc)")
        (use rewrite_links_panics [of "hc_Links hc"] in
          \<open>simp_all add: hostConfig_Some [OF Some hc] Some hc list_all_iff\<close>)
  qed
qed

text \<open>
  \<^verbatim>\<open>hostConfig\<close> touches nothing but the links: the snapshot it leaves has the
  same image, the same \<^verbatim>\<open>Stale\<close> flag, and the same answers from \<^verbatim>\<open>ID\<close>,
  \<^verbatim>\<open>Name\<close>, \<^verbatim>\<open>ImageName\<close>, \<^verbatim>\<open>IsTugbot\<close> and \<^verbatim>\<open>IsTugbotCandidate\<close>.
\<close>

theorem hostConfig_frame:
  assumes "hostConfig c = Inr (hc', c')"
  shows "imageInfo c' = imageInfo c \<and> Stale c' = Stale c \<and> ID c' = ID c \<and>
         Name c' = Name c \<and> ImageName c' = ImageName c \<and> IsTugbot c' = IsTugbot c \<and>
         IsTugbotCandidate c' = IsTugbotCandidate c"
proof -
  from assms obtain info where "containerInfo c = Some info"
    and "c' = c\<lparr>containerInfo := Some (info\<lparr>ci_HostConfig := Some hc'\<rparr>)\<rparr>"
    by (auto simp: hostConfig_Inr)
  then show ?thesis
    by (simp add: ID_def Name_def ImageName_def IsTugbot_def
        IsTugbotCandidate_cong [where info = info and info' = "info\<lparr>ci_HostConfig := Some hc'\<rparr>"])
qed

theorem hostConfig_frame_witness:
  "IsTugbotCandidate (NewContainer
      (Some (linked_info\<lparr>ci_HostConfig :=
         Some \<lparr>hc_Links = [''/redis:/redis'', ''/db:/db''],
                hc_PortBindings = Map.empty\<rparr>\<rparr>)) None) =
   IsTugbotCandidate linked_container"
  using hostConfig_frame [OF hostConfig_linked] by simp

end
