(* ===== verification/Container_Methods.thy ===== *)
theory Container_Methods
  imports Runtime_Config Host_Config
begin

text \<open>
  The method set of \<^verbatim>\<open>Container\<close> in \<^verbatim>\<open>src/container/container.go\<close> as one
  interface: a datatype that names the ten methods, the answers they give, and
  \<open>call\<close>, which runs a method on a snapshot and returns its answer with the snapshot
  the method leaves (only \<^verbatim>\<open>runtimeConfig\<close> and \<^verbatim>\<open>hostConfig\<close> change it). A
  client of the package sees a snapshot through sequences of such calls. The theory
  gives the invariant under which no sequence of calls panics: the snapshot is
  complete. Every method keeps it, although two of them write to the snapshot, and
  every method returns an answer of its own kind.
\<close>

section \<open>Methods and answers\<close>

datatype meth =
  Call_ID | Call_Name | Call_ImageID | Call_ImageName | Call_Links | Call_IsTugbot
| Call_StopSignal | Call_runtimeConfig | Call_hostConfig | Call_IsTugbotCandidate

datatype answer =
  Text string | Texts "string list" | Truth bool | Config ContainerConfig | Host HostConfig

definition reading ::
  "('a \<Rightarrow> answer) \<Rightarrow> 'a go_result \<Rightarrow> Container \<Rightarrow> (answer \<times> Container) go_result" where
  "reading tag r c = go_bind r (\<lambda>x. Inr (tag x, c))"

definition writing ::
  "('a \<Rightarrow> answer) \<Rightarrow> ('a \<times> Container) go_result \<Rightarrow> (answer \<times> Container) go_result" where
  "writing tag r = go_bind r (\<lambda>(x, c'). Inr (tag x, c'))"

fun call :: "meth \<Rightarrow> Container \<Rightarrow> (answer \<times> Container) go_result" where
  "call Call_ID c = reading Text (ID c) c"
| "call Call_Name c = reading Text (Name c) c"
| "call Call_ImageID c = reading Text (ImageID c) c"
| "call Call_ImageName c = reading Text (ImageName c) c"
| "call Call_Links c = reading Texts (Links c) c"
| "call Call_IsTugbot c = reading Truth (IsTugbot c) c"
| "call Call_StopSignal c = reading Text (StopSignal c) c"
| "call Call_runtimeConfig c = writing Config (runtimeConfig c)"
| "call Call_hostConfig c = writing Host (hostConfig c)"
| "call Call_IsTugbotCandidate c = reading Truth (IsTugbotCandidate c) c"

text \<open>A sequence of calls on one snapshot, each on the snapshot the call before left.\<close>

fun calls :: "meth list \<Rightarrow> Container \<Rightarrow> (answer list \<times> Container) go_result" where
  "calls [] c = Inr ([], c)"
| "calls (m # ms) c =
     go_bind (call m c) (\<lambda>(a, c').
     go_bind (calls ms c') (\<lambda>(as, c''). Inr (a # as, c'')))"

text \<open>The result type of each method.\<close>

fun answers :: "meth \<Rightarrow> answer \<Rightarrow> bool" where
  "answers Call_Links (Texts ss) = True"
| "answers Call_IsTugbot (Truth b) = True"
| "answers Call_IsTugbotCandidate (Truth b) = True"
| "answers Call_runtimeConfig (Config cfg) = True"
| "answers Call_hostConfig (Host hc) = True"
| "answers Call_ID (Text s) = True"
| "answers Call_Name (Text s) = True"
| "answers Call_ImageID (Text s) = True"
| "answers Call_ImageName (Text s) = True"
| "answers Call_StopSignal (Text s) = True"
| "answers m a = False"

definition methods :: "meth list" where
  "methods =
     [Call_ID, Call_Name, Call_ImageID, Call_ImageName, Call_Links, Call_IsTugbot,
      Call_StopSignal, Call_runtimeConfig, Call_hostConfig, Call_IsTugbotCandidate]"

section \<open>Complete snapshots\<close>

text \<open>
  A snapshot is complete when it has every object the methods reach through the
  pointers (the container's information, configuration, state and host
  configuration, the image and its configuration) and every link has a colon and a
  slash.
\<close>

definition links_ok :: "Container \<Rightarrow> bool" where
  "links_ok c =
     (case containerInfo c of
        None \<Rightarrow> False
      | Some info \<Rightarrow>
          (case ci_HostConfig info of
             None \<Rightarrow> False
           | Some hc \<Rightarrow> list_all link_ok (hc_Links hc)))"

definition complete :: "Container \<Rightarrow> bool" where
  "complete c \<longleftrightarrow> launchable c \<and> wf_container c \<and> links_ok c"

text \<open>The example snapshot with a link, as the daemon reports it.\<close>

definition linked_run :: Container where
  "linked_run =
     NewContainer
       (Some (run_info\<lparr>ci_HostConfig := Some (run_host\<lparr>hc_Links := [''/redis:/nightly/redis'']\<rparr>)\<rparr>))
       (Some run_image_info)"

section \<open>Reading and writing\<close>

lemma reading_Inr [simp]:
  "reading tag r c = Inr (a, c') \<longleftrightarrow> (\<exists>x. r = Inr x \<and> a = tag x \<and> c' = c)"
  by (cases r) (auto simp: reading_def)

lemma writing_Inr [simp]:
  "writing tag r = Inr (a, c') \<longleftrightarrow> (\<exists>x. r = Inr (x, c') \<and> a = tag x)"
  by (cases r) (auto simp: writing_def)

lemma calls_append:
  "calls (ms @ ms') c =
     go_bind (calls ms c) (\<lambda>(as, c').
     go_bind (calls ms' c') (\<lambda>(as', c''). Inr (as @ as', c'')))"
proof (induction ms arbitrary: c)
  case Nil
  show ?case by (cases "calls ms' c") auto
next
  case (Cons m ms)
  show ?case
  proof (cases "call m c")
    case (Inr r)
    obtain a c1 where r: "r = (a, c1)" by (cases r)
    show ?thesis
      by (cases "calls ms c1"; cases "calls ms' (snd (projr (calls ms c1)))")
        (auto simp: Inr r Cons.IH)
  qed simp
qed

section \<open>The complete snapshot and each method\<close>

lemma complete_iff:
  "complete c \<longleftrightarrow>
     (\<exists>info config st hc img imageConfig.
        containerInfo c = Some info \<and> ci_Config info = Some config \<and>
        ci_State info = Some st \<and> ci_HostConfig info = Some hc \<and>
        imageInfo c = Some img \<and> ii_Config img = Some imageConfig \<and>
        list_all link_ok (hc_Links hc))"
  by (auto simp: complete_def launchable_def wf_container_def links_ok_def split: option.splits)

lemma rewrite_link_ok: "rewrite_link link = Inr l \<Longrightarrow> link_ok l"
  using rewrite_link_idem [of link l] by (simp add: rewrite_link_Inr)

lemma rewrite_links_ok:
  assumes "go_mapM rewrite_link links = Inr links'"
  shows "list_all link_ok links'"
proof -
  from assms have "list_all2 (\<lambda>x y. rewrite_link x = Inr y) links links'"
    by (simp add: go_mapM_eq_Inr)
  then show ?thesis
    by (induction rule: list_all2_induct) (simp_all add: rewrite_link_ok)
qed

lemma complete_readers:
  assumes "complete c"
  shows "\<exists>s. ID c = Inr s" "\<exists>s. Name c = Inr s" "\<exists>s. ImageID c = Inr s"
    "\<exists>s. ImageName c = Inr s" "\<exists>ss. Links c = Inr ss" "\<exists>b. IsTugbot c = Inr b"
    "\<exists>s. StopSignal c = Inr s" "\<exists>b. IsTugbotCandidate c = Inr b"
proof -
  from assms obtain info config st where c: "containerInfo c = Some info"
    "ci_Config info = Some config" "ci_State info = Some st" and "imageInfo c \<noteq> None"
    by (auto simp: complete_iff)
  then show "\<exists>s. ID c = Inr s" "\<exists>s. Name c = Inr s" "\<exists>s. ImageID c = Inr s"
    "\<exists>s. StopSignal c = Inr s" "\<exists>b. IsTugbot c = Inr b"
    by (auto simp: ID_def Name_def ImageID_def StopSignal_def IsTugbot_def config_of_def)
  from c show "\<exists>s. ImageName c = Inr s"
    by (simp add: ImageName_Some)
  show "\<exists>ss. Links c = Inr ss"
    by (simp add: Links_eq)
  from c show "\<exists>b. IsTugbotCandidate c = Inr b"
    by (auto simp: IsTugbotCandidate_wf wf_container_iff)
qed

lemma complete_runtimeConfig:
  assumes "complete c"
  shows "\<exists>cfg c'. runtimeConfig c = Inr (cfg, c') \<and> complete c'"
proof -
  from assms obtain info config st hc img imageConfig where
    c: "containerInfo c = Some info" "ci_Config info = Some config"
      "imageInfo c = Some img" "ii_Config img = Some imageConfig" "ci_HostConfig info = Some hc"
    and rest: "ci_State info = Some st" "list_all link_ok (hc_Links hc)"
    by (auto simp: complete_iff)
  from c rest show ?thesis
    by (simp add: runtimeConfig_Some [OF c] complete_iff)
qed

lemma complete_hostConfig:
  assumes "complete c"
  shows "\<exists>hc' c'. hostConfig c = Inr (hc', c') \<and> complete c'"
proof -
  from assms obtain info config st hc img imageConfig where
    c: "containerInfo c = Some info" "ci_HostConfig info = Some hc"
    and rest: "ci_Config info = Some config" "ci_State info = Some st"
      "imageInfo c = Some img" "ii_Config img = Some imageConfig"
    and links: "list_all link_ok (hc_Links hc)"
    by (auto simp: complete_iff)
  from links obtain links' where links': "go_mapM rewrite_link (hc_Links hc) = Inr links'"
    by (auto simp: rewrite_links_total)
  from rest rewrite_links_ok [OF links'] show ?thesis
    by (simp add: hostConfig_Some [OF c] links' complete_iff)
qed

lemma complete_call:
  assumes "complete c"
  shows "\<exists>a c'. call m c = Inr (a, c') \<and> complete c' \<and> answers m a"
  using complete_readers [OF assms] complete_runtimeConfig [OF assms]
    complete_hostConfig [OF assms] assms
  by (cases m) auto

lemma complete_linked_run: "complete linked_run"
  by (simp add: complete_iff linked_run_def NewContainer_def run_info_def run_image_info_def
      run_host_def link_ok_def)

section \<open>No sequence of calls panics on a complete snapshot\<close>

text \<open>
  C15. The methods are safe on complete snapshots. On a snapshot that has all its
  objects and whose links all have a colon and a slash, every sequence of method
  calls returns: no call panics, each call answers with a value of the method's
  result type, and the snapshot left at the end is complete again, also after
  \<^verbatim>\<open>runtimeConfig\<close> has rewritten the configuration and \<^verbatim>\<open>hostConfig\<close> the
  links.
\<close>

theorem calls_complete:
  assumes "complete c"
  shows "\<exists>as c'. calls ms c = Inr (as, c') \<and> complete c' \<and> list_all2 answers ms as"
  using assms
proof (induction ms arbitrary: c)
  case Nil
  then show ?case by simp
next
  case (Cons m ms)
  from complete_call [OF Cons.prems, of m] obtain a c1 where
    m: "call m c = Inr (a, c1)" "complete c1" "answers m a" by blast
  from Cons.IH [OF m(2)] obtain as c' where
    "calls ms c1 = Inr (as, c')" "complete c'" "list_all2 answers ms as" by blast
  with m show ?case by simp
qed

theorem calls_complete_witness:
  "calls [Call_hostConfig, Call_Links, Call_hostConfig, Call_Name] linked_run =
     Inr ([Host (run_host\<lparr>hc_Links := [''/redis:/redis'']\<rparr>), Texts [''/redis''],
           Host (run_host\<lparr>hc_Links := [''/redis:/redis'']\<rparr>), Text ''nightly''],
          NewContainer
            (Some (run_info\<lparr>ci_HostConfig := Some (run_host\<lparr>hc_Links := [''/redis:/redis'']\<rparr>)\<rparr>))
            (Some run_image_info))"
proof -
  let ?h = "run_host\<lparr>hc_Links := [''/redis:/redis'']\<rparr>"
  let ?c = "NewContainer (Some (run_info\<lparr>ci_HostConfig := Some ?h\<rparr>)) (Some run_image_info)"
  have first: "hostConfig linked_run = Inr (?h, ?c)"
    by (simp add: hostConfig_mapM linked_run_def NewContainer_def run_info_def run_host_def
        rewrite_link_closed link_ok_def before_first_def from_last_def)
  have second: "hostConfig ?c = Inr (?h, ?c)"
    by (simp add: hostConfig_mapM NewContainer_def run_info_def run_host_def
        rewrite_link_closed link_ok_def before_first_def from_last_def)
  have links: "Links ?c = Inr [''/redis'']"
    by (simp add: Links_eq NewContainer_def run_info_def run_host_def before_first_def)
  have name: "Name ?c = Inr ''nightly''"
    by (simp add: Name_def NewContainer_def run_info_def strings_TrimPrefix_single)
  from calls_complete [OF complete_linked_run,
      of "[Call_hostConfig, Call_Links, Call_hostConfig, Call_Name]"]
  show ?thesis
    by (simp add: first second links name reading_def writing_def)
qed

end
