(* ===== verification/Store.thy ===== *)
theory Store
  imports Runtime_Config Host_Config
begin

text \<open>
  The snapshot with its pointers. In \<^verbatim>\<open>src/container/container.go\<close> a
  \<^verbatim>\<open>Container\<close> holds pointers to a \<^verbatim>\<open>ContainerInfo\<close> and an \<^verbatim>\<open>ImageInfo\<close>,
  which hold pointers to configurations, a state and a host configuration;
  \<^verbatim>\<open>runtimeConfig\<close> and \<^verbatim>\<open>hostConfig\<close> write through them. Here the objects live
  in a store, one total map from addresses to objects for each struct type, and the
  two methods are sequences of assignments on the store, each reading the store the
  assignment before it left. \<open>snapshot\<close> reads the by-value \<^typ>\<open>Container\<close> of the
  other theories out of the store. The theory shows that the by-value methods are
  what the methods on the store do when the container's configuration and the
  image's configuration are two objects, what happens when they are one object, and
  what a second container sees that shares the configuration, as the containers of
  \<^verbatim>\<open>src/actions/ticker_test.go\<close> do. Slices and maps inside a struct are values:
  the helpers that compute them return fresh ones.
\<close>

section \<open>Objects and pointers\<close>

type_synonym addr = nat

record ContainerInfoP =
  pi_Id :: string
  pi_Name :: string
  pi_Config :: "addr option"
  pi_State :: "addr option"
  pi_HostConfig :: "addr option"

record ImageInfoP =
  pm_Config :: "addr option"
  pm_Id :: string

record store =
  infos :: "addr \<Rightarrow> ContainerInfoP"
  images :: "addr \<Rightarrow> ImageInfoP"
  configs :: "addr \<Rightarrow> ContainerConfig"
  states :: "addr \<Rightarrow> State"
  hosts :: "addr \<Rightarrow> HostConfig"

record ContainerP =
  p_Stale :: bool
  p_containerInfo :: "addr option"
  p_imageInfo :: "addr option"

definition NewContainerP :: "addr option \<Rightarrow> addr option \<Rightarrow> ContainerP" where
  "NewContainerP info img = \<lparr>p_Stale = False, p_containerInfo = info, p_imageInfo = img\<rparr>"

section \<open>The snapshot a container stands for\<close>

definition info_at :: "store \<Rightarrow> addr \<Rightarrow> ContainerInfo" where
  "info_at s a =
     \<lparr>ci_Id = pi_Id (infos s a), ci_Name = pi_Name (infos s a),
      ci_Config = map_option (configs s) (pi_Config (infos s a)),
      ci_State = map_option (states s) (pi_State (infos s a)),
      ci_HostConfig = map_option (hosts s) (pi_HostConfig (infos s a))\<rparr>"

definition image_at :: "store \<Rightarrow> addr \<Rightarrow> ImageInfo" where
  "image_at s a =
     \<lparr>ii_Config = map_option (configs s) (pm_Config (images s a)), ii_Id = pm_Id (images s a)\<rparr>"

definition snapshot :: "store \<Rightarrow> ContainerP \<Rightarrow> Container" where
  "snapshot s c =
     \<lparr>Stale = p_Stale c,
      containerInfo = map_option (info_at s) (p_containerInfo c),
      imageInfo = map_option (image_at s) (p_imageInfo c)\<rparr>"

text \<open>The pointers \<^verbatim>\<open>c.containerInfo.Config\<close> and \<^verbatim>\<open>c.imageInfo.Config\<close>.\<close>

definition config_addr :: "ContainerP \<Rightarrow> store \<Rightarrow> addr option" where
  "config_addr c s = (case p_containerInfo c of None \<Rightarrow> None | Some i \<Rightarrow> pi_Config (infos s i))"

definition image_config_addr :: "ContainerP \<Rightarrow> store \<Rightarrow> addr option" where
  "image_config_addr c s = (case p_imageInfo c of None \<Rightarrow> None | Some m \<Rightarrow> pm_Config (images s m))"

definition alias_free :: "ContainerP \<Rightarrow> store \<Rightarrow> bool" where
  "alias_free c s \<longleftrightarrow> config_addr c s = None \<or> config_addr c s \<noteq> image_config_addr c s"

section \<open>The methods on the store\<close>

definition config_ofP :: "ContainerP \<Rightarrow> store \<Rightarrow> addr go_result" where
  "config_ofP c s = go_bind (deref (p_containerInfo c)) (\<lambda>info. deref (pi_Config (infos s info)))"

definition ImageNameP :: "ContainerP \<Rightarrow> store \<Rightarrow> string go_result" where
  "ImageNameP c s = go_bind (config_ofP c s) (\<lambda>config.
     Inr (with_tag (case Labels (configs s config) LabelZodiac of
                      Some imageName \<Rightarrow> imageName
                    | None \<Rightarrow> Image (configs s config))))"

definition IsTugbotP :: "ContainerP \<Rightarrow> store \<Rightarrow> bool go_result" where
  "IsTugbotP c s = go_bind (config_ofP c s) (\<lambda>config.
     Inr (case Labels (configs s config) LabelTugbot of
            Some val \<Rightarrow> val = ''true''
          | None \<Rightarrow> False))"

definition state_stringP :: "ContainerP \<Rightarrow> store \<Rightarrow> string go_result" where
  "state_stringP c s =
     go_bind (deref (p_containerInfo c)) (\<lambda>info.
     go_bind (deref (pi_State (infos s info))) (\<lambda>st. Inr (StateString (states s st))))"

definition IsTugbotCandidateP :: "ContainerP \<Rightarrow> store \<Rightarrow> bool go_result" where
  "IsTugbotCandidateP c s = go_bind (config_ofP c s) (\<lambda>config.
     case Labels (configs s config) LabelTest of
       Some val \<Rightarrow>
         if val = ''true'' then
           (case Labels (configs s config) LabelCreatedFrom of
              Some val' \<Rightarrow>
                if length val' = 0
                then go_bind (state_stringP c s) (\<lambda>str. Inr (str = ''exited''))
                else Inr False
            | None \<Rightarrow> go_bind (state_stringP c s) (\<lambda>str. Inr (str = ''exited'')))
         else Inr False
     | None \<Rightarrow> Inr False)"

text \<open>An assignment to fields of the configuration at an address.\<close>

definition upd_config :: "addr \<Rightarrow> (ContainerConfig \<Rightarrow> ContainerConfig) \<Rightarrow> store \<Rightarrow> store" where
  "upd_config a f s = s\<lparr>configs := (configs s)(a := f (configs s a))\<rparr>"

definition upd_host :: "addr \<Rightarrow> (HostConfig \<Rightarrow> HostConfig) \<Rightarrow> store \<Rightarrow> store" where
  "upd_host a f s = s\<lparr>hosts := (hosts s)(a := f (hosts s a))\<rparr>"

text \<open>
  The assignments of \<^verbatim>\<open>runtimeConfig\<close> up to the exposed ports; \<open>config\<close> and
  \<open>imageConfig\<close> are the two pointers.
\<close>

definition subtract_defaultsP :: "addr \<Rightarrow> addr \<Rightarrow> store \<Rightarrow> store" where
  "subtract_defaultsP config imageConfig s =
     (let s = (if WorkingDir (configs s config) = WorkingDir (configs s imageConfig)
               then upd_config config (\<lambda>c. c\<lparr>WorkingDir := []\<rparr>) s else s);
          s = (if User (configs s config) = User (configs s imageConfig)
               then upd_config config (\<lambda>c. c\<lparr>User := []\<rparr>) s else s);
          s = (if sliceEqual (Cmd (configs s config)) (Cmd (configs s imageConfig))
               then upd_config config (\<lambda>c. c\<lparr>Cmd := []\<rparr>) s else s);
          s = (if sliceEqual (Entrypoint (configs s config)) (Entrypoint (configs s imageConfig))
               then upd_config config (\<lambda>c. c\<lparr>Entrypoint := []\<rparr>) s else s);
          s = upd_config config
                (\<lambda>c. c\<lparr>Env := sliceSubtract (Env c) (Env (configs s imageConfig))\<rparr>) s;
          s = upd_config config
                (\<lambda>c. c\<lparr>Labels := stringMapSubtract (Labels c) (Labels (configs s imageConfig))\<rparr>) s;
          s = upd_config config
                (\<lambda>c. c\<lparr>Volumes :=
                        structMapSubtract (Volumes c) (Volumes (configs s imageConfig))\<rparr>) s;
          s = upd_config config
                (\<lambda>c. c\<lparr>ExposedPorts :=
                        structMapSubtract (ExposedPorts c) (ExposedPorts (configs s imageConfig))\<rparr>) s
      in s)"

definition runtimeConfigP :: "ContainerP \<Rightarrow> store \<Rightarrow> (addr \<times> store) go_result" where
  "runtimeConfigP c s =
     go_bind (deref (p_containerInfo c)) (\<lambda>info.
     go_bind (deref (p_imageInfo c)) (\<lambda>img.
     go_bind (deref (pi_Config (infos s info))) (\<lambda>config.
     go_bind (deref (pm_Config (images s img))) (\<lambda>imageConfig.
       let s = subtract_defaultsP config imageConfig s in
       go_bind (deref (pi_HostConfig (infos s info))) (\<lambda>hc.
         let s = upd_config config
                   (\<lambda>c. c\<lparr>ExposedPorts :=
                           bind_ports (hc_PortBindings (hosts s hc)) (ExposedPorts c)\<rparr>) s
         in go_bind (ImageNameP c s) (\<lambda>imageName.
              Inr (config, upd_config config (\<lambda>c. c\<lparr>Image := imageName\<rparr>) s)))))))"

text \<open>
  The loop of \<^verbatim>\<open>hostConfig\<close> from index \<open>i\<close> on: every iteration reads a link
  through the pointer \<open>hc\<close> and assigns the rewritten link to its place.
\<close>

function links_loopP :: "addr \<Rightarrow> nat \<Rightarrow> store \<Rightarrow> store go_result" where
  "links_loopP hc i s =
     (if i < length (hc_Links (hosts s hc))
      then go_bind (rewrite_link (hc_Links (hosts s hc) ! i)) (\<lambda>link.
             links_loopP hc (Suc i) (upd_host hc (\<lambda>h. h\<lparr>hc_Links := (hc_Links h)[i := link]\<rparr>) s))
      else Inr s)"
  by pat_completeness auto

termination links_loopP
  by (relation "measure (\<lambda>(hc, i, s). length (hc_Links (hosts s hc)) - i)")
    (auto simp: upd_host_def)

declare links_loopP.simps [simp del]

definition hostConfigP :: "ContainerP \<Rightarrow> store \<Rightarrow> (addr \<times> store) go_result" where
  "hostConfigP c s =
     go_bind (deref (p_containerInfo c)) (\<lambda>info.
     go_bind (deref (pi_HostConfig (infos s info))) (\<lambda>hc.
     go_bind (links_loopP hc 0 s) (\<lambda>s.
       Inr (hc, s))))"

text \<open>The configuration with every field that \<^verbatim>\<open>runtimeConfig\<close> compares cleared.\<close>

definition cleared :: "ContainerConfig \<Rightarrow> ContainerConfig" where
  "cleared c =
     c\<lparr>WorkingDir := [], User := [], Cmd := [], Entrypoint := [], Env := [],
       Labels := Map.empty, Volumes := Map.empty, ExposedPorts := Map.empty\<rparr>"

section \<open>The stores of the examples\<close>

text \<open>
  The objects of the third test of \<^verbatim>\<open>src/actions/ticker_test.go\<close>: one
  configuration \<^verbatim>\<open>cc\<close> at address 0, to which both \<^verbatim>\<open>c1\<close> and \<^verbatim>\<open>c2\<close> point, and
  one state. Address 1 is not used in the examples.
\<close>

definition zero_config :: ContainerConfig where
  "zero_config =
     \<lparr>User = [], ExposedPorts = Map.empty, Env = [], Cmd = [], Image = [],
      Volumes = Map.empty, WorkingDir = [], Entrypoint = [], Labels = Map.empty\<rparr>"

definition zero_info :: ContainerInfoP where
  "zero_info = \<lparr>pi_Id = [], pi_Name = [], pi_Config = None, pi_State = None, pi_HostConfig = None\<rparr>"

definition zero_store :: store where
  "zero_store =
     \<lparr>infos = (\<lambda>a. zero_info),
      images = (\<lambda>a. \<lparr>pm_Config = None, pm_Id = []\<rparr>),
      configs = (\<lambda>a. zero_config),
      states = (\<lambda>a. \<lparr>Running = False, Paused = False, Restarting = False, Dead = False,
                      StartedAt = 0\<rparr>),
      hosts = (\<lambda>a. \<lparr>hc_Links = [], hc_PortBindings = Map.empty\<rparr>)\<rparr>"

definition test_store :: store where
  "test_store =
     zero_store
       \<lparr>infos := (infos zero_store)
          (2 := \<lparr>pi_Id = ''c1id'', pi_Name = ''c1'', pi_Config = Some 0, pi_State = Some 0,
                 pi_HostConfig = None\<rparr>,
           3 := \<lparr>pi_Id = ''c2id'', pi_Name = ''c2'', pi_Config = Some 0, pi_State = Some 0,
                 pi_HostConfig = None\<rparr>),
        configs := (configs zero_store)(0 := test_cc),
        states := (states zero_store)(0 := stateExited)\<rparr>"

definition test_c1P :: ContainerP where
  "test_c1P = NewContainerP (Some 2) None"

definition test_c2P :: ContainerP where
  "test_c2P = NewContainerP (Some 3) None"

text \<open>
  The example of theory \<open>Runtime_Config\<close> in a store, with a second container
  \<open>run_siblingP\<close> that was inspected with the same configuration object, and a
  container \<open>run_aliasedP\<close> whose image information points to the container's own
  configuration.
\<close>

definition run_store :: store where
  "run_store =
     zero_store
       \<lparr>infos := (infos zero_store)
          (0 := \<lparr>pi_Id = ''77aa'', pi_Name = ''/nightly'', pi_Config = Some 0,
                 pi_State = Some 0, pi_HostConfig = Some 0\<rparr>,
           2 := \<lparr>pi_Id = ''77ab'', pi_Name = ''/weekly'', pi_Config = Some 0,
                 pi_State = Some 0, pi_HostConfig = Some 0\<rparr>),
        images := (images zero_store)
          (0 := \<lparr>pm_Config = Some 2, pm_Id = ''sha256:1f''\<rparr>,
           2 := \<lparr>pm_Config = Some 0, pm_Id = ''sha256:1f''\<rparr>),
        configs := (configs zero_store)(0 := run_config, 2 := run_image),
        states := (states zero_store)(0 := stateExited),
        hosts := (hosts zero_store)(0 := run_host)\<rparr>"

definition run_containerP :: ContainerP where
  "run_containerP = NewContainerP (Some 0) (Some 0)"

definition run_siblingP :: ContainerP where
  "run_siblingP = NewContainerP (Some 2) (Some 0)"

definition run_aliasedP :: ContainerP where
  "run_aliasedP = NewContainerP (Some 0) (Some 2)"

section \<open>Reading the store\<close>

lemma upd_config_fields [simp]:
  "configs (upd_config a f s) = (configs s)(a := f (configs s a))"
  "infos (upd_config a f s) = infos s" "images (upd_config a f s) = images s"
  "states (upd_config a f s) = states s" "hosts (upd_config a f s) = hosts s"
  by (simp_all add: upd_config_def)

lemma upd_host_fields [simp]:
  "hosts (upd_host a f s) = (hosts s)(a := f (hosts s a))"
  "infos (upd_host a f s) = infos s" "images (upd_host a f s) = images s"
  "states (upd_host a f s) = states s" "configs (upd_host a f s) = configs s"
  by (simp_all add: upd_host_def)

lemma upd_host_twice: "upd_host a f (upd_host a g s) = upd_host a (\<lambda>h. f (g h)) s"
  by (simp add: upd_host_def)

lemma upd_host_same: "f (hosts s a) = hosts s a \<Longrightarrow> upd_host a f s = s"
  by (simp add: upd_host_def)

lemma upd_config_twice: "upd_config a f (upd_config a g s) = upd_config a (\<lambda>c. f (g c)) s"
  by (simp add: upd_config_def)

lemma upd_config_same: "f (configs s a) = configs s a \<Longrightarrow> upd_config a f s = s"
  by (simp add: upd_config_def)

lemma upd_config_cong:
  "f (configs s a) = g (configs s a) \<Longrightarrow> upd_config a f s = upd_config a g s"
  by (simp add: upd_config_def)

lemma snapshot_fields [simp]:
  "Stale (snapshot s c) = p_Stale c"
  "containerInfo (snapshot s c) = map_option (info_at s) (p_containerInfo c)"
  "imageInfo (snapshot s c) = map_option (image_at s) (p_imageInfo c)"
  by (simp_all add: snapshot_def)

lemma info_at_fields [simp]:
  "ci_Id (info_at s a) = pi_Id (infos s a)" "ci_Name (info_at s a) = pi_Name (infos s a)"
  "ci_Config (info_at s a) = map_option (configs s) (pi_Config (infos s a))"
  "ci_State (info_at s a) = map_option (states s) (pi_State (infos s a))"
  "ci_HostConfig (info_at s a) = map_option (hosts s) (pi_HostConfig (infos s a))"
  by (simp_all add: info_at_def)

lemma image_at_fields [simp]:
  "ii_Config (image_at s a) = map_option (configs s) (pm_Config (images s a))"
  "ii_Id (image_at s a) = pm_Id (images s a)"
  by (simp_all add: image_at_def)

lemma config_of_snapshot:
  "config_of (snapshot s c) = go_bind (config_ofP c s) (\<lambda>a. Inr (configs s a))"
  by (cases "p_containerInfo c"; cases "pi_Config (infos s (the (p_containerInfo c)))")
    (simp_all add: config_of_def config_ofP_def)

lemma config_ofP_eq:
  "config_ofP c s = (case config_addr c s of None \<Rightarrow> Inl NilPointerDereference | Some a \<Rightarrow> Inr a)"
  by (cases "p_containerInfo c"; cases "pi_Config (infos s (the (p_containerInfo c)))")
    (simp_all add: config_ofP_def config_addr_def)

lemma ImageNameP_snapshot: "ImageNameP c s = ImageName (snapshot s c)"
  by (cases "config_ofP c s") (simp_all add: ImageNameP_def ImageName_def config_of_snapshot)

lemma IsTugbotP_snapshot: "IsTugbotP c s = IsTugbot (snapshot s c)"
  by (cases "config_ofP c s") (simp_all add: IsTugbotP_def IsTugbot_def config_of_snapshot)

lemma state_stringP_snapshot:
  "state_stringP c s =
     go_bind (go_bind (deref (containerInfo (snapshot s c))) (\<lambda>info. deref (ci_State info)))
       (\<lambda>st. Inr (StateString st))"
  by (cases "p_containerInfo c"; cases "pi_State (infos s (the (p_containerInfo c)))")
    (simp_all add: state_stringP_def)

lemma IsTugbotCandidateP_snapshot: "IsTugbotCandidateP c s = IsTugbotCandidate (snapshot s c)"
proof (cases "config_ofP c s")
  case (Inl p)
  then show ?thesis
    by (simp add: IsTugbotCandidateP_def IsTugbotCandidate_def config_of_snapshot)
next
  case (Inr a)
  have "go_bind (state_stringP c s) (\<lambda>str. Inr (str = ''exited'')) =
      go_bind (go_bind (deref (containerInfo (snapshot s c))) (\<lambda>info. deref (ci_State info)))
        (\<lambda>st. Inr (StateString st = ''exited''))"
    by (cases "p_containerInfo c"; cases "pi_State (infos s (the (p_containerInfo c)))")
      (simp_all add: state_stringP_def)
  with Inr show ?thesis
    by (simp add: IsTugbotCandidateP_def IsTugbotCandidate_def config_of_snapshot
        del: snapshot_fields split: option.splits)
qed

section \<open>The assignments of the configuration diff\<close>

lemma subtract_defaultsP_noalias:
  assumes "config \<noteq> imageConfig"
  shows "subtract_defaultsP config imageConfig s =
     upd_config config (\<lambda>c. subtract_defaults c (configs s imageConfig)) s"
  using assms
  by (simp add: subtract_defaultsP_def subtract_defaults_def Let_def upd_config_def)

lemma subtract_defaultsP_alias: "subtract_defaultsP a a s = upd_config a cleared s"
  by (simp add: subtract_defaultsP_def Let_def upd_config_def cleared_def
      sliceSubtract_self stringMapSubtract_self structMapSubtract_self)

section \<open>The configuration diff on the store\<close>

lemma upd_config_const: "upd_config a f s = upd_config a (\<lambda>c. f (configs s a)) s"
  by (simp add: upd_config_def)

lemma ImageNameP_upd_config:
  assumes "p_containerInfo c = Some i" and "pi_Config (infos s i) = Some a"
  shows "ImageNameP c (upd_config a f s) =
     Inr (with_tag (case Labels (f (configs s a)) LabelZodiac of
                      Some z \<Rightarrow> z
                    | None \<Rightarrow> Image (f (configs s a))))"
  using assms by (simp add: ImageNameP_def config_ofP_def split: option.split)

lemma runtimeConfigP_Some:
  assumes "p_containerInfo c = Some i" and "p_imageInfo c = Some m"
    and "pi_Config (infos s i) = Some a" and "pm_Config (images s m) = Some b"
    and "pi_HostConfig (infos s i) = Some h" and "a \<noteq> b"
  shows "runtimeConfigP c s =
     Inr (a, upd_config a
       (\<lambda>c. DeriveOverrideConfig (configs s a) (configs s b) (hosts s h)
               (image_after (configs s a) (configs s b))) s)"
proof -
  let ?ports = "\<lambda>c. c\<lparr>ExposedPorts :=
      bind_ports (hc_PortBindings (hosts s h)) (ExposedPorts c)\<rparr>"
  let ?s = "upd_config a (\<lambda>c. ?ports (subtract_defaults c (configs s b))) s"
  have "ImageNameP c ?s = Inr (image_after (configs s a) (configs s b))"
    by (simp add: ImageNameP_upd_config [OF assms(1,3)] image_after_def split: option.split)
  with assms have "runtimeConfigP c s =
      Inr (a, upd_config a (\<lambda>c. c\<lparr>Image := image_after (configs s a) (configs s b)\<rparr>) ?s)"
    by (simp add: runtimeConfigP_def subtract_defaultsP_noalias Let_def upd_config_twice)
  also have "upd_config a (\<lambda>c. c\<lparr>Image := image_after (configs s a) (configs s b)\<rparr>) ?s =
      upd_config a (\<lambda>c. DeriveOverrideConfig (configs s a) (configs s b) (hosts s h)
        (image_after (configs s a) (configs s b))) s"
    by (subst upd_config_twice, subst upd_config_const) (simp add: override_eq)
  finally show ?thesis .
qed

lemma runtimeConfigP_alias:
  assumes "p_containerInfo c = Some i" and "p_imageInfo c = Some m"
    and "pi_Config (infos s i) = Some a" and "pm_Config (images s m) = Some a"
    and "pi_HostConfig (infos s i) = Some h"
  shows "runtimeConfigP c s =
     Inr (a, upd_config a
       (\<lambda>c. (cleared c)\<lparr>ExposedPorts := bind_ports (hc_PortBindings (hosts s h)) Map.empty,
                        Image := with_tag (Image c)\<rparr>) s)"
proof -
  let ?ports = "\<lambda>c. c\<lparr>ExposedPorts :=
      bind_ports (hc_PortBindings (hosts s h)) (ExposedPorts c)\<rparr>"
  let ?s = "upd_config a (\<lambda>c. ?ports (cleared c)) s"
  have "ImageNameP c ?s = Inr (with_tag (Image (configs s a)))"
    by (simp add: ImageNameP_upd_config [OF assms(1,3)] cleared_def)
  with assms have "runtimeConfigP c s =
      Inr (a, upd_config a (\<lambda>c. c\<lparr>Image := with_tag (Image (configs s a))\<rparr>) ?s)"
    by (simp add: runtimeConfigP_def subtract_defaultsP_alias Let_def upd_config_twice)
  also have "upd_config a (\<lambda>c. c\<lparr>Image := with_tag (Image (configs s a))\<rparr>) ?s =
      upd_config a
        (\<lambda>c. (cleared c)\<lparr>ExposedPorts := bind_ports (hc_PortBindings (hosts s h)) Map.empty,
                         Image := with_tag (Image c)\<rparr>) s"
    by (subst upd_config_twice, rule upd_config_cong) (simp add: cleared_def)
  finally show ?thesis .
qed

lemma launchable_snapshot:
  "launchable (snapshot s c) \<longleftrightarrow>
     (\<exists>i m a b h. p_containerInfo c = Some i \<and> p_imageInfo c = Some m \<and>
        pi_Config (infos s i) = Some a \<and> pm_Config (images s m) = Some b \<and>
        pi_HostConfig (infos s i) = Some h)"
  by (auto simp: launchable_def split: option.splits)

lemma subtract_defaultsP_frame [simp]:
  "infos (subtract_defaultsP a b s) = infos s" "images (subtract_defaultsP a b s) = images s"
  "states (subtract_defaultsP a b s) = states s" "hosts (subtract_defaultsP a b s) = hosts s"
  by (simp_all add: subtract_defaultsP_def Let_def)

lemma runtimeConfigP_not_launchable:
  assumes "\<not> launchable (snapshot s c)"
  shows "runtimeConfigP c s = Inl NilPointerDereference"
proof (cases "p_containerInfo c")
  case None
  then show ?thesis by (simp add: runtimeConfigP_def)
next
  case i: (Some i)
  show ?thesis
  proof (cases "p_imageInfo c")
    case None
    with i show ?thesis by (simp add: runtimeConfigP_def)
  next
    case m: (Some m)
    with i assms show ?thesis
      by (cases "pi_Config (infos s i)"; cases "pm_Config (images s m)";
          cases "pi_HostConfig (infos s i)")
        (simp_all add: runtimeConfigP_def launchable_snapshot Let_def)
  qed
qed

lemma runtimeConfigP_launchable:
  assumes "launchable (snapshot s c)"
  shows "\<exists>a s'. runtimeConfigP c s = Inr (a, s')"
proof -
  from assms obtain i m a b h where ptrs: "p_containerInfo c = Some i"
    "p_imageInfo c = Some m" "pi_Config (infos s i) = Some a"
    "pm_Config (images s m) = Some b" "pi_HostConfig (infos s i) = Some h"
    by (auto simp: launchable_snapshot)
  show ?thesis
  proof (cases "a = b")
    case True
    with ptrs runtimeConfigP_alias [of c i m s a h] show ?thesis by simp
  next
    case False
    with runtimeConfigP_Some [OF ptrs] show ?thesis by simp
  qed
qed

section \<open>The snapshot after an assignment\<close>

lemma config_addr_Some:
  "config_addr c s = Some a \<longleftrightarrow>
     (\<exists>i. p_containerInfo c = Some i \<and> pi_Config (infos s i) = Some a)"
  by (auto simp: config_addr_def split: option.splits)

lemma image_config_addr_Some:
  "image_config_addr c s = Some b \<longleftrightarrow>
     (\<exists>m. p_imageInfo c = Some m \<and> pm_Config (images s m) = Some b)"
  by (auto simp: image_config_addr_def split: option.splits)

lemma map_option_upd_other:
  "p \<noteq> Some a \<Longrightarrow> map_option (f(a := v)) p = map_option f p"
  by (cases p) auto

lemma info_at_upd_config:
  "info_at (upd_config a f s) i =
     (if pi_Config (infos s i) = Some a
      then (info_at s i)\<lparr>ci_Config := Some (f (configs s a))\<rparr> else info_at s i)"
  by (rule ContainerInfo.equality) (auto simp: map_option_upd_other)

lemma image_at_upd_config:
  "image_at (upd_config a f s) m =
     (if pm_Config (images s m) = Some a
      then (image_at s m)\<lparr>ii_Config := Some (f (configs s a))\<rparr> else image_at s m)"
  by (rule ImageInfo.equality) (auto simp: map_option_upd_other)

lemma snapshot_upd_config:
  assumes "p_containerInfo c = Some i" and "pi_Config (infos s i) = Some a"
    and "image_config_addr c s \<noteq> Some a"
  shows "snapshot (upd_config a f s) c =
     (snapshot s c)\<lparr>containerInfo := Some ((info_at s i)\<lparr>ci_Config := Some (f (configs s a))\<rparr>)\<rparr>"
  using assms
  by (cases "p_imageInfo c")
    (simp_all add: snapshot_def info_at_upd_config image_at_upd_config image_config_addr_def)

lemma snapshot_upd_host:
  assumes "p_containerInfo c = Some i" and "pi_HostConfig (infos s i) = Some h"
  shows "snapshot (upd_host h f s) c =
     (snapshot s c)\<lparr>containerInfo := Some ((info_at s i)\<lparr>ci_HostConfig := Some (f (hosts s h))\<rparr>)\<rparr>"
proof -
  have "info_at (upd_host h f s) i = (info_at s i)\<lparr>ci_HostConfig := Some (f (hosts s h))\<rparr>"
    using assms(2) by (intro ContainerInfo.equality) simp_all
  moreover have "image_at (upd_host h f s) m = image_at s m" for m
    by (rule ImageInfo.equality) simp_all
  ultimately show ?thesis
    using assms(1) by (cases "p_imageInfo c") (simp_all add: snapshot_def)
qed

lemma snapshot_pointers:
  assumes "p_containerInfo c = Some i" and "p_imageInfo c = Some m"
    and "pi_Config (infos s i) = Some a" and "pm_Config (images s m) = Some b"
    and "pi_HostConfig (infos s i) = Some h"
  shows "containerInfo (snapshot s c) = Some (info_at s i)"
    "ci_Config (info_at s i) = Some (configs s a)"
    "imageInfo (snapshot s c) = Some (image_at s m)"
    "ii_Config (image_at s m) = Some (configs s b)"
    "ci_HostConfig (info_at s i) = Some (hosts s h)"
  using assms by simp_all

lemma runtimeConfig_snapshot:
  assumes "p_containerInfo c = Some i" and "p_imageInfo c = Some m"
    and "pi_Config (infos s i) = Some a" and "pm_Config (images s m) = Some b"
    and "pi_HostConfig (infos s i) = Some h"
  shows "runtimeConfig (snapshot s c) =
     Inr (DeriveOverrideConfig (configs s a) (configs s b) (hosts s h)
            (image_after (configs s a) (configs s b)),
          (snapshot s c)\<lparr>containerInfo := Some ((info_at s i)\<lparr>ci_Config := Some
            (DeriveOverrideConfig (configs s a) (configs s b) (hosts s h)
               (image_after (configs s a) (configs s b)))\<rparr>)\<rparr>)"
  by (rule runtimeConfig_override [OF snapshot_pointers [OF assms]])

lemma DeriveOverrideConfig_self:
  "DeriveOverrideConfig c c hc (image_after c c) =
     (cleared c)\<lparr>ExposedPorts := bind_ports (hc_PortBindings hc) Map.empty,
                 Image := with_tag (Image c)\<rparr>"
  by (rule ContainerConfig.equality)
    (auto simp: DeriveOverrideConfig_def cleared_def image_after_def stringMapSubtract_self
      bind_ports_apply fun_eq_iff)

lemma runtimeConfigP_Inr:
  assumes "runtimeConfigP c s = Inr (a, s')"
  shows "config_addr c s = Some a \<and> s' = upd_config a (\<lambda>c. configs s' a) s \<and>
    (\<exists>b h. image_config_addr c s = Some b \<and>
       configs s' a = DeriveOverrideConfig (configs s a) (configs s b) h
                        (image_after (configs s a) (configs s b)))"
proof -
  from assms have "launchable (snapshot s c)"
    using runtimeConfigP_not_launchable [of s c] by auto
  then obtain i m a' b h where ptrs: "p_containerInfo c = Some i"
    "p_imageInfo c = Some m" "pi_Config (infos s i) = Some a'"
    "pm_Config (images s m) = Some b" "pi_HostConfig (infos s i) = Some h"
    by (auto simp: launchable_snapshot)
  let ?cfg = "DeriveOverrideConfig (configs s a') (configs s b) (hosts s h)
    (image_after (configs s a') (configs s b))"
  have "runtimeConfigP c s = Inr (a', upd_config a' (\<lambda>c. ?cfg) s)"
  proof (cases "a' = b")
    case True
    with ptrs runtimeConfigP_alias [of c i m s a' h] show ?thesis
      by (simp add: DeriveOverrideConfig_self cong: upd_config_cong)
  next
    case False
    with runtimeConfigP_Some [OF ptrs] show ?thesis by simp
  qed
  with assms have "a = a'" and s': "s' = upd_config a' (\<lambda>c. ?cfg) s" by auto
  with ptrs show ?thesis
    by (auto simp: config_addr_Some image_config_addr_Some upd_config_def)
qed

section \<open>The example stores\<close>

lemma run_store_ptrs:
  "pi_Config (infos run_store 0) = Some 0" "pi_HostConfig (infos run_store 0) = Some 0"
  "pi_State (infos run_store 0) = Some 0"
  "pi_Config (infos run_store 2) = Some 0" "pi_HostConfig (infos run_store 2) = Some 0"
  "pi_State (infos run_store 2) = Some 0"
  "pm_Config (images run_store 0) = Some 2" "pm_Config (images run_store 2) = Some 0"
  by (simp_all add: run_store_def)

lemma run_store_objs:
  "configs run_store 0 = run_config" "configs run_store 2 = run_image"
  "hosts run_store 0 = run_host" "states run_store 0 = stateExited"
  by (simp_all add: run_store_def)

lemma run_containerP_ptrs:
  "p_containerInfo run_containerP = Some 0" "p_imageInfo run_containerP = Some 0"
  by (simp_all add: run_containerP_def NewContainerP_def)

lemma runtimeConfigP_run:
  "runtimeConfigP run_containerP run_store = Inr (0, upd_config 0 (\<lambda>c. run_override) run_store)"
  using runtimeConfigP_Some [OF run_containerP_ptrs run_store_ptrs(1,7,2)]
  by (simp add: run_store_objs run_image_after run_override_eq)

lemma run_sibling_candidate: "IsTugbotCandidateP run_siblingP run_store = Inr True"
  by (simp add: IsTugbotCandidateP_def config_ofP_def state_stringP_def run_siblingP_def
      NewContainerP_def run_store_ptrs run_store_objs run_config_def Label_defs
      stateExited_string)

lemma test_store_snapshot:
  "snapshot test_store test_c1P = test_c1" "snapshot test_store test_c2P = test_c2"
  "config_addr test_c1P test_store = config_addr test_c2P test_store"
  by (simp_all add: snapshot_def info_at_def test_store_def test_c1P_def test_c2P_def
      NewContainerP_def test_c1_def test_c2_def test_container_def NewContainer_def
      config_addr_def)

section \<open>The link rewriting on the store\<close>

text \<open>
  The loop on the store is the loop on the list of links, with the links it ends
  with assigned to the host configuration.
\<close>

lemma links_loopP_eq:
  "links_loopP hc i s =
     go_bind (links_loop i (hc_Links (hosts s hc))) (\<lambda>links.
       Inr (upd_host hc (\<lambda>h. h\<lparr>hc_Links := links\<rparr>) s))"
proof (induction hc i s rule: links_loopP.induct)
  case (1 hc i s)
  show ?case
  proof (cases "i < length (hc_Links (hosts s hc))")
    case True
    show ?thesis
    proof (cases "rewrite_link (hc_Links (hosts s hc) ! i)")
      case (Inl e)
      with True show ?thesis
        by (subst links_loopP.simps, subst links_loop.simps) simp
    next
      case (Inr l)
      with True "1.IH" [OF True Inr] show ?thesis
        by (subst links_loopP.simps, subst links_loop.simps) (simp add: upd_host_twice)
    qed
  next
    case False
    then show ?thesis
      by (subst links_loopP.simps, subst links_loop.simps) (simp add: upd_host_same)
  qed
qed

lemma hostConfigP_mapM:
  "hostConfigP c s =
     go_bind (deref (p_containerInfo c)) (\<lambda>info.
     go_bind (deref (pi_HostConfig (infos s info))) (\<lambda>hc.
     go_bind (go_mapM rewrite_link (hc_Links (hosts s hc))) (\<lambda>links.
       Inr (hc, upd_host hc (\<lambda>h. h\<lparr>hc_Links := links\<rparr>) s))))"
proof -
  have "go_bind (links_loopP hc 0 s) (\<lambda>s'. Inr (hc, s')) =
      go_bind (go_mapM rewrite_link (hc_Links (hosts s hc))) (\<lambda>links.
        Inr (hc, upd_host hc (\<lambda>h. h\<lparr>hc_Links := links\<rparr>) s))" for hc
    by (cases "go_mapM rewrite_link (hc_Links (hosts s hc))")
      (simp_all add: links_loopP_eq links_loop_eq)
  then show ?thesis by (simp add: hostConfigP_def)
qed

section \<open>The by-value methods and the methods on the store\<close>

text \<open>
  The methods that only read give the same result on the store and on the
  snapshot read out of the store.
\<close>

theorem readers_refine:
  "ImageNameP c s = ImageName (snapshot s c) \<and> IsTugbotP c s = IsTugbot (snapshot s c) \<and>
   IsTugbotCandidateP c s = IsTugbotCandidate (snapshot s c)"
  by (simp only: ImageNameP_snapshot IsTugbotP_snapshot IsTugbotCandidateP_snapshot)

text \<open>
  C24. \<^verbatim>\<open>runtimeConfig\<close> on the store is the by-value \<^verbatim>\<open>runtimeConfig\<close> when the
  container's configuration and the image's configuration are two objects: both
  panic on the same stores; when they return, the returned pointer is the
  container's configuration pointer, the object it points to is the configuration
  the by-value method returns, the snapshot read out of the new store is the
  snapshot the by-value method leaves, and no other object of the store has changed.
\<close>

theorem runtimeConfigP_refines:
  assumes "alias_free c s"
  shows "case runtimeConfigP c s of
           Inl p \<Rightarrow> runtimeConfig (snapshot s c) = Inl p
         | Inr (a, s') \<Rightarrow>
             config_addr c s = Some a \<and>
             runtimeConfig (snapshot s c) = Inr (configs s' a, snapshot s' c) \<and>
             s' = upd_config a (\<lambda>c. configs s' a) s"
proof (cases "launchable (snapshot s c)")
  case False
  then show ?thesis
    by (simp add: runtimeConfigP_not_launchable runtimeConfig_not_launchable)
next
  case True
  then obtain i m a b h where ptrs: "p_containerInfo c = Some i"
    "p_imageInfo c = Some m" "pi_Config (infos s i) = Some a"
    "pm_Config (images s m) = Some b" "pi_HostConfig (infos s i) = Some h"
    by (auto simp: launchable_snapshot)
  with assms have neq: "a \<noteq> b" and img: "image_config_addr c s \<noteq> Some a"
    by (auto simp: alias_free_def config_addr_def image_config_addr_def)
  from ptrs have "config_addr c s = Some a"
    by (simp add: config_addr_def)
  with runtimeConfigP_Some [OF ptrs neq] runtimeConfig_snapshot [OF ptrs]
    snapshot_upd_config [OF ptrs(1,3) img]
  show ?thesis
    by simp
qed

theorem runtimeConfigP_refines_witness:
  "runtimeConfigP run_containerP run_store = Inr (0, upd_config 0 (\<lambda>c. run_override) run_store) \<and>
   config_addr run_containerP run_store = Some 0 \<and>
   runtimeConfig (snapshot run_store run_containerP) =
     Inr (run_override, snapshot (upd_config 0 (\<lambda>c. run_override) run_store) run_containerP)"
proof -
  have free: "alias_free run_containerP run_store"
    by (simp add: alias_free_def config_addr_def image_config_addr_def run_containerP_ptrs
        run_store_ptrs)
  from runtimeConfigP_refines [OF free] runtimeConfigP_run show ?thesis
    by simp
qed

text \<open>
  When the image information points to the container's own configuration, the
  method on the store returns the configuration the by-value method returns, with
  every compared field cleared; but it has cleared the image's defaults with it,
  which the by-value method keeps.
\<close>

theorem runtimeConfigP_aliased:
  assumes "p_containerInfo c = Some i" and "p_imageInfo c = Some m"
    and "pi_Config (infos s i) = Some a" and "pm_Config (images s m) = Some a"
    and "pi_HostConfig (infos s i) = Some h"
  shows "\<exists>s' c'. runtimeConfigP c s = Inr (a, s') \<and>
           runtimeConfig (snapshot s c) = Inr (configs s' a, c') \<and>
           configs s' a =
             (cleared (configs s a))
               \<lparr>ExposedPorts := bind_ports (hc_PortBindings (hosts s h)) Map.empty,
                Image := with_tag (Image (configs s a))\<rparr> \<and>
           imageInfo (snapshot s' c) = Some ((image_at s m)\<lparr>ii_Config := Some (configs s' a)\<rparr>) \<and>
           imageInfo c' = Some (image_at s m)"
  using runtimeConfigP_alias [OF assms] runtimeConfig_snapshot [OF assms] assms(2,4)
  by (simp add: DeriveOverrideConfig_self image_at_upd_config)

theorem runtimeConfigP_aliased_witness:
  "\<exists>s' c'. runtimeConfigP run_aliasedP run_store = Inr (0, s') \<and>
     runtimeConfig (snapshot run_store run_aliasedP) = Inr (configs s' 0, c') \<and>
     configs s' 0 =
       (cleared run_config)
         \<lparr>ExposedPorts := bind_ports (hc_PortBindings run_host) Map.empty,
          Image := with_tag (Image run_config)\<rparr> \<and>
     imageInfo (snapshot s' run_aliasedP) =
       Some ((image_at run_store 2)\<lparr>ii_Config := Some (configs s' 0)\<rparr>) \<and>
     imageInfo c' = Some (image_at run_store 2)"
  using runtimeConfigP_aliased [of run_aliasedP 0 2 run_store 0 0]
  by (simp add: run_aliasedP_def NewContainerP_def run_store_ptrs run_store_objs)

text \<open>
  C25. A container that shares its configuration object with the container on which
  \<^verbatim>\<open>runtimeConfig\<close> ran, as \<^verbatim>\<open>c1\<close> and \<^verbatim>\<open>c2\<close> share \<^verbatim>\<open>cc\<close> in the tests of
  the polling loop, has the override configuration afterwards; when the image
  declares the test label, that container is no candidate any more, though no method
  was called on it.
\<close>

theorem runtimeConfigP_shared:
  assumes "runtimeConfigP c s = Inr (a, s')" and "config_addr d s = Some a"
    and "image_config_addr c s = Some b" and "Labels (configs s b) LabelTest = Some ''true''"
  shows "config_of (snapshot s' d) = Inr (configs s' a) \<and> IsTugbotCandidateP d s' = Inr False"
proof -
  from runtimeConfigP_Inr [OF assms(1)] assms(3) obtain h where
    s': "s' = upd_config a (\<lambda>c. configs s' a) s"
    and cfg: "configs s' a = DeriveOverrideConfig (configs s a) (configs s b) h
      (image_after (configs s a) (configs s b))"
    by auto
  from assms(2) obtain i where i: "p_containerInfo d = Some i" "pi_Config (infos s i) = Some a"
    by (auto simp: config_addr_Some)
  have "infos s' = infos s" by (subst s') simp
  with i have info: "containerInfo (snapshot s' d) = Some (info_at s' i)"
    and config: "ci_Config (info_at s' i) = Some (configs s' a)"
    by simp_all
  from assms(4) have "\<not> is_test_label (configs s' a)"
    by (auto simp: cfg is_test_label_def DeriveOverrideConfig_def)
  with IsTugbotCandidate_eq [OF info config] info config show ?thesis
    by (simp add: IsTugbotCandidateP_snapshot config_of_def del: snapshot_fields info_at_fields)
qed

theorem runtimeConfigP_shared_witness:
  "runtimeConfigP run_containerP run_store = Inr (0, upd_config 0 (\<lambda>c. run_override) run_store) \<and>
   IsTugbotCandidateP run_siblingP run_store = Inr True \<and>
   config_of (snapshot (upd_config 0 (\<lambda>c. run_override) run_store) run_siblingP) =
     Inr run_override \<and>
   IsTugbotCandidateP run_siblingP (upd_config 0 (\<lambda>c. run_override) run_store) = Inr False"
proof -
  have "config_addr run_siblingP run_store = Some 0"
    and "image_config_addr run_containerP run_store = Some 2"
    and "Labels (configs run_store 2) LabelTest = Some ''true''"
    by (simp_all add: config_addr_def image_config_addr_def run_siblingP_def
        run_containerP_ptrs NewContainerP_def run_store_ptrs run_store_objs run_image_def)
  from runtimeConfigP_shared [OF runtimeConfigP_run this] runtimeConfigP_run
    run_sibling_candidate
  show ?thesis by simp
qed

text \<open>
  C34. \<^verbatim>\<open>hostConfig\<close> on the store, with the loop that assigns each rewritten link
  to its place, is the by-value \<^verbatim>\<open>hostConfig\<close> on every store: both panic on the same stores; when they return, the object the returned pointer
  points to is the host configuration the by-value method returns, the snapshot read
  out of the new store is the snapshot it leaves, and no other object has changed.
\<close>

theorem hostConfigP_refines:
  "case hostConfigP c s of
     Inl p \<Rightarrow> hostConfig (snapshot s c) = Inl p
   | Inr (h, s') \<Rightarrow>
       hostConfig (snapshot s c) = Inr (hosts s' h, snapshot s' c) \<and>
       s' = upd_host h (\<lambda>hc. hosts s' h) s"
proof (cases "p_containerInfo c")
  case None
  then show ?thesis by (simp add: hostConfigP_mapM hostConfig_mapM)
next
  case i: (Some i)
  show ?thesis
  proof (cases "pi_HostConfig (infos s i)")
    case None
    with i show ?thesis by (simp add: hostConfigP_mapM hostConfig_mapM)
  next
    case h: (Some h)
    have by_value: "hostConfig (snapshot s c) =
        go_bind (go_mapM rewrite_link (hc_Links (hosts s h))) (\<lambda>links.
          Inr ((hosts s h)\<lparr>hc_Links := links\<rparr>,
               (snapshot s c)\<lparr>containerInfo :=
                  Some ((info_at s i)\<lparr>ci_HostConfig := Some ((hosts s h)\<lparr>hc_Links := links\<rparr>)\<rparr>)\<rparr>))"
      using i h by (intro hostConfig_Some) simp_all
    show ?thesis
    proof (cases "go_mapM rewrite_link (hc_Links (hosts s h))")
      case (Inl p)
      with i h by_value show ?thesis by (simp add: hostConfigP_mapM)
    next
      case (Inr links)
      with i h by_value snapshot_upd_host [OF i h, of "\<lambda>hc. hc\<lparr>hc_Links := links\<rparr>"]
      show ?thesis
        by (simp add: hostConfigP_mapM upd_host_def)
    qed
  qed
qed

end
