(* ===== verification/Ticker.thy ===== *)
theory Ticker
  imports Tugbot_Container
begin

text \<open>
  The polling driver \<^verbatim>\<open>RunTickerTestContainers\<close>, which
  \<^verbatim>\<open>src/actions/ticker_test.go\<close> tests. Its code is not among the sources, so
  the driver follows section 4.2 of the specification: a loop that on every tick
  lists the containers, launches each candidate, and stops when it is cancelled.
  The timer and the cancellation signal are events; the driver is a transition
  system over them, given as the executable \<open>fire\<close> and as the inductive relation
  \<open>ticker_step\<close>, which are shown to agree. The runtime client is a parameter: a
  record of its two operations over a client state of any type. Calls of the
  client and of the classifiers can panic, and a panic ends the loop in the mode
  \<open>Panicked\<close>, which the specification does not have. The modes are ordered,
  \<open>Ticking\<close> below the two final modes, and no run goes down in this order.
\<close>

section \<open>The runtime client\<close>

datatype client_error = ClientError string

record 'cl Client =
  ListContainers :: "'cl \<Rightarrow> ((Container list \<times> client_error option) \<times> 'cl) go_result"
  StartContainerFrom :: "Container \<Rightarrow> 'cl \<Rightarrow> (client_error option \<times> 'cl) go_result"

text \<open>The calls the driver makes, in the order it makes them, and what it logs.\<close>

datatype request = ListRequest | StartRequest Container

datatype log_entry = ListFailure client_error | LaunchFailure Container client_error

fun started :: "request list \<Rightarrow> Container list" where
  "started [] = []"
| "started (ListRequest # rs) = started rs"
| "started (StartRequest c # rs) = c # started rs"

section \<open>The driver\<close>

datatype mode = Ticking | Stopped | Panicked go_panic

datatype event = Tick | Next | Cancel

text \<open>
  The state of the loop: the containers of the current pass that are still to be
  looked at, the client, and the history of requests and log entries.
\<close>

record 'cl ticker =
  tk_mode :: mode
  tk_pending :: "Container list"
  tk_client :: 'cl
  tk_requests :: "request list"
  tk_logged :: "log_entry list"

definition crash :: "go_panic \<Rightarrow> 'cl ticker \<Rightarrow> 'cl ticker" where
  "crash p t = t\<lparr>tk_mode := Panicked p\<rparr>"

text \<open>Step 3 of a pass: the agent's own container is skipped, then the candidate test.\<close>

definition is_candidate :: "Container \<Rightarrow> bool go_result" where
  "is_candidate c = go_bind (IsTugbot c) (\<lambda>self.
     if self then Inr False else IsTugbotCandidate c)"

definition launch :: "'cl Client \<Rightarrow> Container \<Rightarrow> 'cl ticker \<Rightarrow> 'cl ticker" where
  "launch ops c t =
     (case StartContainerFrom ops c (tk_client t) of
        Inl p \<Rightarrow> crash p (t\<lparr>tk_requests := tk_requests t @ [StartRequest c]\<rparr>)
      | Inr (err, cl) \<Rightarrow>
          t\<lparr>tk_client := cl,
            tk_requests := tk_requests t @ [StartRequest c],
            tk_logged := tk_logged t @
              (case err of None \<Rightarrow> [] | Some e \<Rightarrow> [LaunchFailure c e])\<rparr>)"

definition process :: "'cl Client \<Rightarrow> Container \<Rightarrow> 'cl ticker \<Rightarrow> 'cl ticker" where
  "process ops c t =
     (case is_candidate c of
        Inl p \<Rightarrow> crash p t
      | Inr b \<Rightarrow> if b then launch ops c t else t)"

text \<open>Steps 1 and 2 of a pass: the list call; a failure is logged and the pass is over.\<close>

definition discover :: "'cl Client \<Rightarrow> 'cl ticker \<Rightarrow> 'cl ticker" where
  "discover ops t =
     (case ListContainers ops (tk_client t) of
        Inl p \<Rightarrow> crash p (t\<lparr>tk_requests := tk_requests t @ [ListRequest]\<rparr>)
      | Inr ((cs, err), cl) \<Rightarrow>
          (case err of
             Some e \<Rightarrow> t\<lparr>tk_client := cl,
                         tk_requests := tk_requests t @ [ListRequest],
                         tk_logged := tk_logged t @ [ListFailure e]\<rparr>
           | None \<Rightarrow> t\<lparr>tk_client := cl,
                       tk_requests := tk_requests t @ [ListRequest],
                       tk_pending := cs\<rparr>))"

text \<open>
  One event. The timer is served when the pass is over, \<open>Next\<close> looks at the next
  container of the pass, and the cancellation is served in every state of the
  running loop, also between two containers.
\<close>

definition fire :: "'cl Client \<Rightarrow> event \<Rightarrow> 'cl ticker \<Rightarrow> 'cl ticker option" where
  "fire ops ev t =
     (if tk_mode t \<noteq> Ticking then None
      else case ev of
        Cancel \<Rightarrow> Some (t\<lparr>tk_mode := Stopped, tk_pending := []\<rparr>)
      | Tick \<Rightarrow> if tk_pending t = [] then Some (discover ops t) else None
      | Next \<Rightarrow> (case tk_pending t of
                   [] \<Rightarrow> None
                 | c # cs \<Rightarrow> Some (process ops c (t\<lparr>tk_pending := cs\<rparr>))))"

fun exec :: "'cl Client \<Rightarrow> event list \<Rightarrow> 'cl ticker \<Rightarrow> 'cl ticker option" where
  "exec ops [] t = Some t"
| "exec ops (ev # evs) t =
     (case fire ops ev t of None \<Rightarrow> None | Some t' \<Rightarrow> exec ops evs t')"

inductive ticker_step :: "'cl Client \<Rightarrow> 'cl ticker \<Rightarrow> event \<Rightarrow> 'cl ticker \<Rightarrow> bool"
  for ops :: "'cl Client" where
  tick: "tk_mode t = Ticking \<Longrightarrow> tk_pending t = [] \<Longrightarrow> ticker_step ops t Tick (discover ops t)"
| look: "tk_mode t = Ticking \<Longrightarrow> tk_pending t = c # cs \<Longrightarrow>
         ticker_step ops t Next (process ops c (t\<lparr>tk_pending := cs\<rparr>))"
| cancel: "tk_mode t = Ticking \<Longrightarrow>
         ticker_step ops t Cancel (t\<lparr>tk_mode := Stopped, tk_pending := []\<rparr>)"

inductive ticker_run :: "'cl Client \<Rightarrow> 'cl ticker \<Rightarrow> event list \<Rightarrow> 'cl ticker \<Rightarrow> bool"
  for ops :: "'cl Client" where
  run_nil: "ticker_run ops t [] t"
| run_cons: "ticker_step ops t ev t' \<Longrightarrow> ticker_run ops t' evs t'' \<Longrightarrow>
         ticker_run ops t (ev # evs) t''"

text \<open>
  Both relations are executable: from the client, the state and the events the
  successor is computed.
\<close>

code_pred (modes: i \<Rightarrow> i \<Rightarrow> i \<Rightarrow> o \<Rightarrow> bool) ticker_step .

code_pred (modes: i \<Rightarrow> i \<Rightarrow> i \<Rightarrow> o \<Rightarrow> bool) ticker_run .

text \<open>The call of the driver: the first tick fires at once.\<close>

definition ticker_init :: "'cl \<Rightarrow> 'cl ticker" where
  "ticker_init cl =
     \<lparr>tk_mode = Ticking, tk_pending = [], tk_client = cl, tk_requests = [], tk_logged = []\<rparr>"

definition RunTickerTestContainers :: "'cl Client \<Rightarrow> 'cl \<Rightarrow> 'cl ticker" where
  "RunTickerTestContainers ops cl = discover ops (ticker_init cl)"

section \<open>Clients that keep their contract\<close>

text \<open>
  A client that does not panic and lists snapshots as an inspect call builds them.
  \<open>static_client\<close> is the simplest such client: it has no state, lists the same
  containers on every call and starts every container; \<open>failing_client\<close> fails
  every call with the same error.
\<close>

definition wf_client :: "'cl Client \<Rightarrow> bool" where
  "wf_client ops \<longleftrightarrow>
     (\<forall>cl. case ListContainers ops cl of
             Inl p \<Rightarrow> False
           | Inr ((cs, err), cl') \<Rightarrow> list_all wf_container cs) \<and>
     (\<forall>c cl. \<not> panics (StartContainerFrom ops c cl))"

definition static_client :: "Container list \<Rightarrow> unit Client" where
  "static_client cs =
     \<lparr>ListContainers = (\<lambda>cl. Inr ((cs, None), cl)),
      StartContainerFrom = (\<lambda>c cl. Inr (None, cl))\<rparr>"

definition failing_client :: "client_error \<Rightarrow> unit Client" where
  "failing_client e =
     \<lparr>ListContainers = (\<lambda>cl. Inr (([], Some e), cl)),
      StartContainerFrom = (\<lambda>c cl. Inr (Some e, cl))\<rparr>"

text \<open>The state of a loop that has not panicked and looks at well-formed snapshots only.\<close>

definition ticker_ok :: "'cl ticker \<Rightarrow> bool" where
  "ticker_ok t \<longleftrightarrow>
     (case tk_mode t of Panicked p \<Rightarrow> False | _ \<Rightarrow> True) \<and> list_all wf_container (tk_pending t)"

definition only_candidates :: "'cl ticker \<Rightarrow> bool" where
  "only_candidates t \<longleftrightarrow>
     list_all (\<lambda>c. is_candidate c = Inr True) (started (tk_requests t))"

text \<open>
  The modes in the order in which a loop passes through them: a running loop can
  stop or panic, and a loop that has stopped or panicked stays as it is.
\<close>

instantiation mode :: order
begin

definition less_eq_mode :: "mode \<Rightarrow> mode \<Rightarrow> bool" where
  "m \<le> m' \<longleftrightarrow> m = Ticking \<or> m = m'"

definition less_mode :: "mode \<Rightarrow> mode \<Rightarrow> bool" where
  "m < m' \<longleftrightarrow> m = Ticking \<and> m' \<noteq> Ticking"

instance
  by standard (auto simp: less_eq_mode_def less_mode_def)

end

section \<open>The events\<close>

lemma fire_Cancel:
  "fire ops Cancel t =
     (if tk_mode t = Ticking then Some (t\<lparr>tk_mode := Stopped, tk_pending := []\<rparr>) else None)"
  by (simp add: fire_def)

lemma fire_Tick:
  "fire ops Tick t =
     (if tk_mode t = Ticking \<and> tk_pending t = [] then Some (discover ops t) else None)"
  by (simp add: fire_def)

lemma fire_Next:
  "fire ops Next t =
     (if tk_mode t = Ticking
      then case tk_pending t of
             [] \<Rightarrow> None
           | c # cs \<Rightarrow> Some (process ops c (t\<lparr>tk_pending := cs\<rparr>))
      else None)"
  by (simp add: fire_def)

lemmas fire_simps [go_simps] = fire_Cancel fire_Tick fire_Next

lemma fire_not_Ticking [simp]: "tk_mode t \<noteq> Ticking \<Longrightarrow> fire ops ev t = None"
  by (simp add: fire_def)

inductive_simps ticker_step_simps:
  "ticker_step ops t Tick t'" "ticker_step ops t Next t'" "ticker_step ops t Cancel t'"

inductive_simps ticker_run_Nil: "ticker_run ops t [] t'"

inductive_simps ticker_run_Cons: "ticker_run ops t (ev # evs) t'"

lemma ticker_step_iff: "ticker_step ops t ev t' \<longleftrightarrow> fire ops ev t = Some t'"
  by (cases ev; cases "tk_pending t") (auto simp: ticker_step_simps fire_simps)

lemma ticker_run_iff: "ticker_run ops t evs t' \<longleftrightarrow> exec ops evs t = Some t'"
  by (induction evs arbitrary: t)
    (auto simp: ticker_run_Nil ticker_run_Cons ticker_step_iff split: option.splits)

lemma exec_append:
  "exec ops (xs @ ys) t = (case exec ops xs t of None \<Rightarrow> None | Some t' \<Rightarrow> exec ops ys t')"
  by (induction xs arbitrary: t) (auto split: option.splits)

lemma exec_not_Ticking: "tk_mode t \<noteq> Ticking \<Longrightarrow> exec ops evs t = Some t' \<longleftrightarrow> evs = [] \<and> t' = t"
  by (cases evs) auto

section \<open>The requests of each operation\<close>

lemma started_append [simp]: "started (rs @ rs') = started rs @ started rs'"
  by (induction rs rule: started.induct) auto

lemma is_candidate_eq:
  "is_candidate c = Inr True \<longleftrightarrow> IsTugbot c = Inr False \<and> IsTugbotCandidate c = Inr True"
  by (cases "IsTugbot c") (auto simp: is_candidate_def)

lemma is_candidate_wf: "wf_container c \<Longrightarrow> \<exists>b. is_candidate c = Inr b"
  by (auto simp: wf_container_iff is_candidate_def IsTugbotCandidate_wf
      IsTugbot_eq [OF iffD2 [OF config_of_eq_Inr]])

lemma crash_fields [simp]:
  "tk_mode (crash p t) = Panicked p" "tk_pending (crash p t) = tk_pending t"
  "tk_client (crash p t) = tk_client t" "tk_requests (crash p t) = tk_requests t"
  "tk_logged (crash p t) = tk_logged t"
  by (simp_all add: crash_def)

lemma launch_requests [simp]: "tk_requests (launch ops c t) = tk_requests t @ [StartRequest c]"
  by (auto simp: launch_def split: sum.splits)

lemma launch_pending [simp]: "tk_pending (launch ops c t) = tk_pending t"
  by (auto simp: launch_def split: sum.splits)

lemma launch_mode:
  "\<not> panics (StartContainerFrom ops c (tk_client t)) \<Longrightarrow> tk_mode (launch ops c t) = tk_mode t"
  by (auto simp: launch_def panics_iff split: sum.splits)

lemma process_pending [simp]: "tk_pending (process ops c t) = tk_pending t"
  by (auto simp: process_def split: sum.splits)

lemma process_requests:
  "tk_requests (process ops c t) =
     tk_requests t @ (if is_candidate c = Inr True then [StartRequest c] else [])"
  by (auto simp: process_def split: sum.splits)

lemma started_process:
  "started (tk_requests (process ops c t)) =
     started (tk_requests t) @ filter (\<lambda>c. is_candidate c = Inr True) [c]"
  by (simp add: process_requests)

lemma discover_requests [simp]: "tk_requests (discover ops t) = tk_requests t @ [ListRequest]"
  by (auto simp: discover_def split: sum.splits option.splits)

section \<open>Invariants of the loop\<close>

lemma wf_client_list:
  assumes "wf_client ops"
  obtains cs err cl' where "ListContainers ops cl = Inr ((cs, err), cl')"
    and "list_all wf_container cs"
proof -
  from assms have "case ListContainers ops cl of
      Inl p \<Rightarrow> False | Inr ((cs, err), cl') \<Rightarrow> list_all wf_container cs"
    by (simp add: wf_client_def)
  then show thesis
    by (cases "ListContainers ops cl") (auto intro: that)
qed

lemma wf_client_start: "wf_client ops \<Longrightarrow> \<not> panics (StartContainerFrom ops c cl)"
  by (simp add: wf_client_def)

lemma ticker_ok_iff:
  "ticker_ok t \<longleftrightarrow> (tk_mode t = Ticking \<or> tk_mode t = Stopped) \<and> list_all wf_container (tk_pending t)"
  by (cases "tk_mode t") (simp_all add: ticker_ok_def)

lemma discover_ok:
  assumes "wf_client ops" and "tk_mode t = Ticking" and "tk_pending t = []"
  shows "tk_mode (discover ops t) = Ticking \<and> ticker_ok (discover ops t)"
proof -
  obtain cs err cl' where "ListContainers ops (tk_client t) = Inr ((cs, err), cl')"
    and "list_all wf_container cs"
    using wf_client_list [OF assms(1)] by blast
  with assms(2,3) show ?thesis
    by (cases err) (simp_all add: discover_def ticker_ok_iff)
qed

lemma process_mode:
  assumes "wf_client ops" and "wf_container c"
  shows "tk_mode (process ops c t) = tk_mode t"
proof -
  from assms(2) obtain b where "is_candidate c = Inr b"
    using is_candidate_wf by blast
  then show ?thesis
    by (simp add: process_def launch_mode wf_client_start [OF assms(1)])
qed

lemma process_ok:
  assumes "wf_client ops" and "tk_mode t = Ticking" and "tk_pending t = c # cs"
    and "ticker_ok t"
  shows "tk_mode (process ops c (t\<lparr>tk_pending := cs\<rparr>)) = Ticking \<and>
         ticker_ok (process ops c (t\<lparr>tk_pending := cs\<rparr>))"
  using assms by (simp add: ticker_ok_iff process_mode)

lemma ticker_step_ok:
  assumes "wf_client ops" and "ticker_step ops t ev t'" and "ticker_ok t"
  shows "ticker_ok t' \<and> tk_mode t' = (if ev = Cancel then Stopped else Ticking)"
  using assms(2,1,3)
  by cases (simp_all add: discover_ok process_ok, simp add: ticker_ok_iff)

lemma ticker_run_Stopped:
  "ticker_run ops t evs t' \<Longrightarrow> tk_mode t \<noteq> Ticking \<Longrightarrow> evs = [] \<and> t' = t"
  by (simp add: ticker_run_iff exec_not_Ticking)

lemma ticker_run_mode:
  assumes "wf_client ops" and "ticker_run ops t evs t'"
    and "ticker_ok t" and "tk_mode t = Ticking"
  shows "tk_mode t' = (if Cancel \<in> set evs then Stopped else Ticking)"
  using assms(2-4)
proof (induction rule: ticker_run.induct)
  case (run_nil t)
  then show ?case by simp
next
  case (run_cons t ev t' evs t'')
  from ticker_step_ok [OF assms(1) run_cons.hyps(1) run_cons.prems(1)]
  have ok: "ticker_ok t'" and mode: "tk_mode t' = (if ev = Cancel then Stopped else Ticking)"
    by simp_all
  show ?case
  proof (cases "ev = Cancel")
    case True
    with mode run_cons.hyps(2) have "evs = [] \<and> t'' = t'"
      by (intro ticker_run_Stopped) simp_all
    with True mode show ?thesis by simp
  next
    case False
    with mode run_cons.IH [OF ok] show ?thesis by simp
  qed
qed

lemma launch_Stopped: "tk_mode (launch ops c t) = Stopped \<Longrightarrow> tk_mode t = Stopped"
  by (auto simp: launch_def split: sum.splits)

lemma process_Stopped: "tk_mode (process ops c t) = Stopped \<Longrightarrow> tk_mode t = Stopped"
  by (auto simp: process_def dest: launch_Stopped split: sum.splits if_splits)

lemma discover_Stopped: "tk_mode (discover ops t) = Stopped \<Longrightarrow> tk_mode t = Stopped"
  by (auto simp: discover_def split: sum.splits option.splits)

lemma fire_Stopped: "fire ops ev t = Some t' \<Longrightarrow> tk_mode t' = Stopped \<Longrightarrow> ev = Cancel"
  by (cases ev)
    (auto simp: fire_simps dest: discover_Stopped process_Stopped split: if_splits list.splits)

lemma ticker_step_Ticking: "ticker_step ops t ev t' \<Longrightarrow> tk_mode t = Ticking"
  by (cases rule: ticker_step.cases) simp_all

lemma ticker_run_mode_mono: "ticker_run ops t evs t' \<Longrightarrow> tk_mode t \<le> tk_mode t'"
  by (cases rule: ticker_run.cases) (auto simp: less_eq_mode_def dest: ticker_step_Ticking)

lemma RunTickerTestContainers_ok:
  "wf_client ops \<Longrightarrow>
     tk_mode (RunTickerTestContainers ops cl) = Ticking \<and> ticker_ok (RunTickerTestContainers ops cl)"
  by (simp add: RunTickerTestContainers_def discover_ok ticker_init_def)

lemma only_candidates_step:
  assumes "ticker_step ops t ev t'" and "only_candidates t"
  shows "only_candidates t'"
  using assms
  by cases (auto simp: only_candidates_def process_requests)

lemma only_candidates_run:
  "ticker_run ops t evs t' \<Longrightarrow> only_candidates t \<Longrightarrow> only_candidates t'"
  by (induction rule: ticker_run.induct) (auto intro: only_candidates_step)

lemma only_candidates_init: "only_candidates (RunTickerTestContainers ops cl)"
  by (simp add: only_candidates_def RunTickerTestContainers_def ticker_init_def)

section \<open>A pass, container by container\<close>

lemma exec_Next_prefix:
  assumes "wf_client ops"
  shows "ticker_ok t \<Longrightarrow> tk_mode t = Ticking \<Longrightarrow> k \<le> length (tk_pending t) \<Longrightarrow>
    \<exists>t'. exec ops (replicate k Next) t = Some t' \<and> tk_mode t' = Ticking \<and> ticker_ok t' \<and>
      tk_pending t' = drop k (tk_pending t) \<and>
      tk_requests t' =
        tk_requests t @
          map StartRequest (filter (\<lambda>c. is_candidate c = Inr True) (take k (tk_pending t)))"
proof (induction k arbitrary: t)
  case 0
  then show ?case by simp
next
  case (Suc k)
  then obtain c cs where pending: "tk_pending t = c # cs"
    by (cases "tk_pending t") auto
  let ?t = "process ops c (t\<lparr>tk_pending := cs\<rparr>)"
  from process_ok [OF assms Suc.prems(2) pending Suc.prems(1)]
  have mode: "tk_mode ?t = Ticking" and ok: "ticker_ok ?t" by simp_all
  from Suc.prems(3) pending have "k \<le> length (tk_pending ?t)" by simp
  from Suc.IH [OF ok mode this] Suc.prems(2) pending show ?case
    by (auto simp: fire_Next process_requests)
qed

section \<open>The static client\<close>

lemma wf_static_client: "list_all wf_container cs \<Longrightarrow> wf_client (static_client cs)"
  by (simp add: wf_client_def static_client_def panics_def)

lemma static_client_init:
  "RunTickerTestContainers (static_client cs) () =
     \<lparr>tk_mode = Ticking, tk_pending = cs, tk_client = (), tk_requests = [ListRequest],
      tk_logged = []\<rparr>"
  by (simp add: RunTickerTestContainers_def discover_def static_client_def ticker_init_def)

lemma static_client_launch:
  "launch (static_client cs) c t = t\<lparr>tk_requests := tk_requests t @ [StartRequest c]\<rparr>"
  by (simp add: launch_def static_client_def)

lemma is_candidate_test_container: "is_candidate (test_container ident name) = Inr True"
  by (simp add: is_candidate_eq test_container_not_tugbot test_container_candidate)

lemma static_client_process_test:
  "process (static_client cs) (test_container ident name) t =
     t\<lparr>tk_requests := tk_requests t @ [StartRequest (test_container ident name)]\<rparr>"
  by (simp add: process_def is_candidate_test_container static_client_launch)

lemma wf_failing_client: "wf_client (failing_client e)"
  by (simp add: wf_client_def failing_client_def panics_def)

lemma failing_client_init:
  "RunTickerTestContainers (failing_client e) () =
     \<lparr>tk_mode = Ticking, tk_pending = [], tk_client = (), tk_requests = [ListRequest],
      tk_logged = [ListFailure e]\<rparr>"
  by (simp add: RunTickerTestContainers_def discover_def failing_client_def ticker_init_def)

lemma failing_client_discover:
  "discover (failing_client e) t =
     t\<lparr>tk_requests := tk_requests t @ [ListRequest], tk_logged := tk_logged t @ [ListFailure e]\<rparr>"
  by (simp add: discover_def failing_client_def)

lemma is_candidate_filter:
  "filter (\<lambda>c. is_candidate c = Inr True) cs =
     filter (\<lambda>c. IsTugbot c = Inr False \<and> IsTugbotCandidate c = Inr True) cs"
  by (simp add: is_candidate_eq)

section \<open>What the loop guarantees\<close>

text \<open>
  C11. The loop launches candidates only: whatever the client answers and whenever
  the timer fires, every container handed to \<^verbatim>\<open>StartContainerFrom\<close> is not the
  agent's own container and is a candidate.
\<close>

theorem ticker_launches_candidates:
  assumes "ticker_run ops (RunTickerTestContainers ops cl) evs t"
    and "c \<in> set (started (tk_requests t))"
  shows "IsTugbot c = Inr False \<and> IsTugbotCandidate c = Inr True"
proof -
  from only_candidates_run [OF assms(1) only_candidates_init] assms(2)
  show ?thesis
    by (auto simp: only_candidates_def list_all_iff is_candidate_eq)
qed

theorem ticker_launches_candidates_witness:
  "ticker_run (static_client [test_c]) (RunTickerTestContainers (static_client [test_c]) ())
     [Next]
     \<lparr>tk_mode = Ticking, tk_pending = [], tk_client = (),
      tk_requests = [ListRequest, StartRequest test_c], tk_logged = []\<rparr> \<and>
   IsTugbot test_c = Inr False \<and> IsTugbotCandidate test_c = Inr True"
proof -
  let ?t = "\<lparr>tk_mode = Ticking, tk_pending = [], tk_client = (),
      tk_requests = [ListRequest, StartRequest test_c], tk_logged = []\<rparr>"
  have run: "ticker_run (static_client [test_c])
      (RunTickerTestContainers (static_client [test_c]) ()) [Next] ?t"
    by (simp add: ticker_run_iff static_client_init fire_Next test_c_def
        static_client_process_test)
  have "test_c \<in> set (started (tk_requests ?t))" by simp
  from run ticker_launches_candidates [OF run this] show ?thesis by simp
qed

text \<open>
  C12. Only the cancellation stops the loop. With a client that keeps its contract
  (it may fail, but it does not panic and it lists well-formed snapshots), the loop
  is running after every sequence of events without a cancellation, however many
  list calls and launches failed, and it is stopped after a cancellation.
\<close>

theorem ticker_stops_only_on_cancel:
  assumes "wf_client ops" and "ticker_run ops (RunTickerTestContainers ops cl) evs t"
  shows "tk_mode t = (if Cancel \<in> set evs then Stopped else Ticking)"
  using ticker_run_mode [OF assms] RunTickerTestContainers_ok [OF assms(1)]
  by simp

theorem ticker_stops_only_on_cancel_witness:
  "ticker_run (failing_client (ClientError ''Expected :)''))
     (RunTickerTestContainers (failing_client (ClientError ''Expected :)'')) ())
     [Tick, Tick]
     \<lparr>tk_mode = Ticking, tk_pending = [], tk_client = (),
      tk_requests = [ListRequest, ListRequest, ListRequest],
      tk_logged = replicate 3 (ListFailure (ClientError ''Expected :)''))\<rparr>"
proof -
  let ?ops = "failing_client (ClientError ''Expected :)'')"
  have "\<exists>t. ticker_run ?ops (RunTickerTestContainers ?ops ()) [Tick, Tick] t"
    by (simp add: ticker_run_iff failing_client_init fire_Tick failing_client_discover)
  then obtain t where run: "ticker_run ?ops (RunTickerTestContainers ?ops ()) [Tick, Tick] t" ..
  from ticker_stops_only_on_cancel [OF wf_failing_client run] have "tk_mode t = Ticking"
    by simp
  moreover from run have "t = \<lparr>tk_mode = tk_mode t, tk_pending = [], tk_client = (),
      tk_requests = [ListRequest, ListRequest, ListRequest],
      tk_logged = replicate 3 (ListFailure (ClientError ''Expected :)''))\<rparr>"
    by (auto simp: ticker_run_iff failing_client_init fire_Tick failing_client_discover
        numeral_3_eq_3)
  ultimately show ?thesis using run by simp
qed

text \<open>
  The loop can take a step exactly while it is running: the cancellation is
  served in every running state, also in the middle of a pass; a running loop always
  has a next step of its own (the timer, or the next container of the pass); and a
  stopped loop, like one that panicked, takes no step at all.
\<close>

lemma ticker_enabled_iff:
  "((\<exists>t'. ticker_step ops t Cancel t') \<longleftrightarrow> tk_mode t = Ticking) \<and>
   ((\<exists>ev t'. ev \<noteq> Cancel \<and> ticker_step ops t ev t') \<longleftrightarrow> tk_mode t = Ticking)"
proof -
  have "\<exists>ev t'. ev \<noteq> Cancel \<and> fire ops ev t = Some t'" if "tk_mode t = Ticking"
  proof (cases "tk_pending t")
    case Nil
    with that have "fire ops Tick t = Some (discover ops t)" by (simp add: fire_Tick)
    then show ?thesis by blast
  next
    case (Cons c cs)
    with that have "fire ops Next t = Some (process ops c (t\<lparr>tk_pending := cs\<rparr>))"
      by (simp add: fire_Next)
    then show ?thesis by blast
  qed
  moreover have "tk_mode t = Ticking" if "fire ops ev t = Some t'" for ev t'
    using that by (cases "tk_mode t = Ticking") simp_all
  ultimately show ?thesis
    by (auto simp: ticker_step_iff fire_Cancel)
qed

text \<open>
  C13. A pass implements its specification: when the list call succeeds with the
  containers \<open>cs\<close>, the tick and one step for each of them make exactly the requests
  \<^verbatim>\<open>ListContainers\<close> and then \<^verbatim>\<open>StartContainerFrom\<close> for the candidates among
  \<open>cs\<close> that are not the agent's own container, in the order of the list, whether or
  not launches fail; the loop is then running and waits for the next tick.
\<close>

theorem ticker_pass:
  assumes "wf_client ops" and "tk_mode t = Ticking" and "tk_pending t = []"
    and "ListContainers ops (tk_client t) = Inr ((cs, None), cl)"
  shows "\<exists>t'. exec ops (Tick # replicate (length cs) Next) t = Some t' \<and>
           tk_mode t' = Ticking \<and> tk_pending t' = [] \<and>
           tk_requests t' = tk_requests t @ ListRequest #
             map StartRequest
               (filter (\<lambda>c. IsTugbot c = Inr False \<and> IsTugbotCandidate c = Inr True) cs)"
proof -
  let ?t = "discover ops t"
  from assms(4) have pending: "tk_pending ?t = cs"
    by (simp add: discover_def)
  from discover_ok [OF assms(1-3)] have "ticker_ok ?t" and "tk_mode ?t = Ticking"
    by simp_all
  from exec_Next_prefix [OF assms(1) this, of "length cs"] assms(2,3) pending
  show ?thesis
    by (auto simp: fire_Tick is_candidate_filter)
qed

theorem ticker_pass_witness:
  "\<exists>t'. exec (static_client [test_c1, test_c2])
            (Tick # replicate (length [test_c1, test_c2]) Next) (ticker_init ()) = Some t' \<and>
      tk_mode t' = Ticking \<and> tk_pending t' = [] \<and>
      tk_requests t' = [ListRequest, StartRequest test_c1, StartRequest test_c2]"
proof -
  have wf: "wf_client (static_client [test_c1, test_c2])"
    by (simp add: wf_static_client test_c1_def test_c2_def test_container_wf)
  have "filter (\<lambda>c. IsTugbot c = Inr False \<and> IsTugbotCandidate c = Inr True)
      [test_c1, test_c2] = [test_c1, test_c2]"
    by (simp add: test_c1_def test_c2_def test_container_not_tugbot test_container_candidate)
  with ticker_pass [OF wf, of "ticker_init ()" "[test_c1, test_c2]" "()"]
  show ?thesis
    by (simp add: ticker_init_def static_client_def)
qed

text \<open>
  C14. The cancellation is observed between two containers of a pass: cancelled
  after \<open>k\<close> containers of the pass, the loop stops at once; it has made the launches
  for the candidates among the first \<open>k\<close> containers, and none for the rest of the
  list.
\<close>

theorem ticker_cancel_between_candidates:
  assumes "wf_client ops" and "ticker_ok t" and "tk_mode t = Ticking"
    and "k \<le> length (tk_pending t)"
  shows "\<exists>t'. exec ops (replicate k Next @ [Cancel]) t = Some t' \<and>
           tk_mode t' = Stopped \<and> tk_pending t' = [] \<and>
           tk_requests t' = tk_requests t @
             map StartRequest
               (filter (\<lambda>c. IsTugbot c = Inr False \<and> IsTugbotCandidate c = Inr True)
                  (take k (tk_pending t)))"
  using exec_Next_prefix [OF assms]
  by (auto simp: exec_append fire_Cancel is_candidate_filter)

theorem ticker_cancel_between_candidates_witness:
  "\<exists>t'. exec (static_client [test_c1, test_c2]) (replicate 1 Next @ [Cancel])
            (RunTickerTestContainers (static_client [test_c1, test_c2]) ()) = Some t' \<and>
      tk_mode t' = Stopped \<and> tk_pending t' = [] \<and>
      tk_requests t' = [ListRequest, StartRequest test_c1]"
proof -
  let ?ops = "static_client [test_c1, test_c2]"
  have wf: "wf_client ?ops"
    by (simp add: wf_static_client test_c1_def test_c2_def test_container_wf)
  have "filter (\<lambda>c. IsTugbot c = Inr False \<and> IsTugbotCandidate c = Inr True) [test_c1] =
      [test_c1]"
    by (simp add: test_c1_def test_container_not_tugbot test_container_candidate)
  with ticker_cancel_between_candidates [OF wf, of "RunTickerTestContainers ?ops ()" 1]
    RunTickerTestContainers_ok [OF wf, of "()"]
  show ?thesis
    by (simp add: static_client_init)
qed

end
