(* ===== verification/Ticker_Test.thy ===== *)
theory Ticker_Test
  imports Ticker
begin

text \<open>
  The three tests of \<^verbatim>\<open>src/actions/ticker_test.go\<close>: the scripts they give the
  mock client, the functions they hook into its calls, the variables these
  functions share with the test, and what each test asserts at its end. The mock
  client follows the \<^verbatim>\<open>testify\<close> library: an expected call answers until its
  \<^verbatim>\<open>Repeatability\<close> is used up, the first expected call that can still answer is
  taken, and a call that nothing expects panics. The test's own goroutine waits for
  the wait group \<^verbatim>\<open>wg1\<close> and then cancels, so a run of a test is a sequence of
  events of the driver in which the cancellation comes when the counter of
  \<^verbatim>\<open>wg1\<close> is zero. The goroutine the test starts calls the driver and then
  \<^verbatim>\<open>wg2.Done()\<close>; the test's assertions come after \<^verbatim>\<open>wg2.Wait()\<close>, so they
  are made only when the driver has returned. The mutex \<^verbatim>\<open>locker\<close> of the first
  two tests is a flag: only the driver's goroutine calls the client, so a
  \<^verbatim>\<open>Lock\<close> that finds the mutex held would never be served.
\<close>

section \<open>The variables of a test\<close>

record test_vars =
  touch :: bool
  touchListContainers :: bool
  touchStartContainerFrom :: bool
  locker :: bool
  wg1 :: int
  wg2 :: int
  failed :: bool

definition test_vars_init :: test_vars where
  "test_vars_init =
     \<lparr>touch = False, touchListContainers = False, touchStartContainerFrom = False,
      locker = False, wg1 = 1, wg2 = 1, failed = False\<rparr>"

text \<open>
  The counter of a wait group and the state of a mutex (held or not), with the
  operations of the \<^verbatim>\<open>sync\<close> package on them. \<^verbatim>\<open>Done\<close> panics when the counter
  falls below zero, and \<^verbatim>\<open>Unlock\<close> of a mutex that is not held is a fatal error.
  A \<^verbatim>\<open>Lock\<close> of a held mutex blocks; with no other goroutine to release it the
  run ends there, which the model records like a panic.
\<close>

definition WaitGroup_Done :: "int \<Rightarrow> int go_result" where
  "WaitGroup_Done n =
     (if n - 1 < 0 then Inl (PanicValue ''sync: negative WaitGroup counter'') else Inr (n - 1))"

definition Mutex_Lock :: "bool \<Rightarrow> bool go_result" where
  "Mutex_Lock held =
     (if held then Inl (PanicValue ''fatal error: all goroutines are asleep - deadlock!'')
      else Inr True)"

definition Mutex_Unlock :: "bool \<Rightarrow> bool go_result" where
  "Mutex_Unlock held =
     (if held then Inr False else Inl (PanicValue ''fatal error: sync: unlock of unlocked mutex''))"

definition wg1_Done :: "test_vars \<Rightarrow> test_vars go_result" where
  "wg1_Done v = go_bind (WaitGroup_Done (wg1 v)) (\<lambda>n. Inr (v\<lparr>wg1 := n\<rparr>))"

definition wg2_Done :: "test_vars \<Rightarrow> test_vars go_result" where
  "wg2_Done v = go_bind (WaitGroup_Done (wg2 v)) (\<lambda>n. Inr (v\<lparr>wg2 := n\<rparr>))"

definition locker_Lock :: "test_vars \<Rightarrow> test_vars go_result" where
  "locker_Lock v = go_bind (Mutex_Lock (locker v)) (\<lambda>held. Inr (v\<lparr>locker := held\<rparr>))"

definition locker_Unlock :: "test_vars \<Rightarrow> test_vars go_result" where
  "locker_Unlock v = go_bind (Mutex_Unlock (locker v)) (\<lambda>held. Inr (v\<lparr>locker := held\<rparr>))"

definition assert_Equal :: "string \<Rightarrow> string \<Rightarrow> test_vars \<Rightarrow> test_vars" where
  "assert_Equal expected actual v = (if expected = actual then v else v\<lparr>failed := True\<rparr>)"

section \<open>The functions hooked into the calls\<close>

definition touch_once :: "test_vars \<Rightarrow> test_vars go_result" where
  "touch_once v = (if \<not> touch v then wg1_Done (v\<lparr>touch := True\<rparr>) else Inr v)"

definition run_failed_ListContainers :: "unit \<Rightarrow> test_vars \<Rightarrow> test_vars go_result" where
  "run_failed_ListContainers args v =
     go_bind (locker_Lock v) (\<lambda>v.
     go_bind (touch_once v) (\<lambda>v.
       locker_Unlock v))"

definition run_single_StartContainerFrom :: "Container \<Rightarrow> test_vars \<Rightarrow> test_vars go_result" where
  "run_single_StartContainerFrom arg v =
     go_bind (Name test_c) (\<lambda>expected.
     go_bind (Name arg) (\<lambda>actual.
       let v = assert_Equal expected actual v in
       go_bind (locker_Lock v) (\<lambda>v.
       go_bind (touch_once v) (\<lambda>v.
         locker_Unlock v))))"

definition run_first_StartContainerFrom :: "Container \<Rightarrow> test_vars \<Rightarrow> test_vars go_result" where
  "run_first_StartContainerFrom arg v =
     go_bind (Name arg) (\<lambda>name.
     go_bind (Name test_c1) (\<lambda>expected.
       Inr (assert_Equal expected name v)))"

definition run_second_ListContainers :: "unit \<Rightarrow> test_vars \<Rightarrow> test_vars go_result" where
  "run_second_ListContainers args v = Inr (v\<lparr>touchListContainers := True\<rparr>)"

definition run_second_StartContainerFrom :: "Container \<Rightarrow> test_vars \<Rightarrow> test_vars go_result" where
  "run_second_StartContainerFrom arg v =
     go_bind (Name arg) (\<lambda>name.
       let v = v\<lparr>touchStartContainerFrom := True\<rparr> in
       go_bind (Name test_c2) (\<lambda>expected.
         wg1_Done (assert_Equal expected name v)))"

section \<open>The mock client\<close>

record ('a, 'r) expected_call =
  Repeatability :: int
  totalCalls :: nat
  RunFn :: "('a \<Rightarrow> test_vars \<Rightarrow> test_vars go_result) option"
  ReturnArguments :: 'r

text \<open>
  \<^verbatim>\<open>On(...).Return(r)\<close> with an argument matcher that accepts every argument, as all
  expected calls of the tests have, and the modifiers \<^verbatim>\<open>Run\<close> and \<^verbatim>\<open>Once\<close>.
\<close>

definition Return :: "'r \<Rightarrow> ('a, 'r) expected_call" where
  "Return r = \<lparr>Repeatability = 0, totalCalls = 0, RunFn = None, ReturnArguments = r\<rparr>"

definition Run :: "('a \<Rightarrow> test_vars \<Rightarrow> test_vars go_result) \<Rightarrow> ('a, 'r) expected_call \<Rightarrow>
    ('a, 'r) expected_call" where
  "Run f e = e\<lparr>RunFn := Some f\<rparr>"

definition Once :: "('a, 'r) expected_call \<Rightarrow> ('a, 'r) expected_call" where
  "Once e = e\<lparr>Repeatability := 1\<rparr>"

definition count_call :: "('a, 'r) expected_call \<Rightarrow> ('a, 'r) expected_call" where
  "count_call e =
     (if Repeatability e = 1 then e\<lparr>Repeatability := - 1, totalCalls := totalCalls e + 1\<rparr>
      else if Repeatability e > 1
        then e\<lparr>Repeatability := Repeatability e - 1, totalCalls := totalCalls e + 1\<rparr>
      else if Repeatability e = 0 then e\<lparr>totalCalls := totalCalls e + 1\<rparr>
      else e)"

definition run_hook :: "('a, 'r) expected_call \<Rightarrow> 'a \<Rightarrow> test_vars \<Rightarrow> test_vars go_result" where
  "run_hook e a v = (case RunFn e of None \<Rightarrow> Inr v | Some f \<Rightarrow> f a v)"

fun Called :: "'a \<Rightarrow> ('a, 'r) expected_call list \<Rightarrow> test_vars \<Rightarrow>
    ('r \<times> ('a, 'r) expected_call list \<times> test_vars) go_result" where
  "Called a [] v = Inl (PanicValue ''mock: the method call was unexpected'')"
| "Called a (e # es) v =
     (if Repeatability e > - 1
      then go_bind (run_hook e a v) (\<lambda>v'. Inr (ReturnArguments e, count_call e # es, v'))
      else go_bind (Called a es v) (\<lambda>(r, es', v'). Inr (r, e # es', v')))"

record mock_client =
  ExpectedListContainers :: "(unit, Container list \<times> client_error option) expected_call list"
  ExpectedStartContainerFrom :: "(Container, client_error option) expected_call list"
  Calls :: "request list"
  vars :: test_vars

definition mock_ListContainers ::
  "mock_client \<Rightarrow> ((Container list \<times> client_error option) \<times> mock_client) go_result" where
  "mock_ListContainers m =
     go_bind (Called () (ExpectedListContainers m) (vars m)) (\<lambda>(r, es, v).
       Inr (r, m\<lparr>ExpectedListContainers := es, Calls := Calls m @ [ListRequest], vars := v\<rparr>))"

definition mock_StartContainerFrom ::
  "Container \<Rightarrow> mock_client \<Rightarrow> (client_error option \<times> mock_client) go_result" where
  "mock_StartContainerFrom c m =
     go_bind (Called c (ExpectedStartContainerFrom m) (vars m)) (\<lambda>(r, es, v).
       Inr (r, m\<lparr>ExpectedStartContainerFrom := es, Calls := Calls m @ [StartRequest c],
                vars := v\<rparr>))"

definition MockClient :: "mock_client Client" where
  "MockClient =
     \<lparr>ListContainers = mock_ListContainers, StartContainerFrom = mock_StartContainerFrom\<rparr>"

text \<open>
  \<^verbatim>\<open>AssertExpectations\<close>: an expected call is met when its method was called and
  no repetition of it is left over.
\<close>

definition expectation_met :: "bool \<Rightarrow> ('a, 'r) expected_call \<Rightarrow> bool" where
  "expectation_met was_called e \<longleftrightarrow>
     (was_called \<or> totalCalls e \<noteq> 0) \<and> Repeatability e \<le> 0"

definition AssertExpectations :: "mock_client \<Rightarrow> bool" where
  "AssertExpectations m \<longleftrightarrow>
     list_all (expectation_met (ListRequest \<in> set (Calls m))) (ExpectedListContainers m) \<and>
     list_all (expectation_met (started (Calls m) \<noteq> [])) (ExpectedStartContainerFrom m)"

section \<open>The scripts of the three tests\<close>

definition client_failed :: mock_client where
  "client_failed =
     \<lparr>ExpectedListContainers =
        [Run run_failed_ListContainers (Return ([], Some (ClientError ''Expected :)'')))],
      ExpectedStartContainerFrom = [],
      Calls = [], vars = test_vars_init\<rparr>"

definition client_single :: mock_client where
  "client_single =
     \<lparr>ExpectedListContainers = [Return ([test_c], None)],
      ExpectedStartContainerFrom = [Run run_single_StartContainerFrom (Return None)],
      Calls = [], vars = test_vars_init\<rparr>"

definition client_two_lists :: mock_client where
  "client_two_lists =
     \<lparr>ExpectedListContainers =
        [Once (Return ([test_c1], None)),
         Run run_second_ListContainers (Return ([test_c2], None))],
      ExpectedStartContainerFrom =
        [Once (Run run_first_StartContainerFrom (Return None)),
         Run run_second_StartContainerFrom (Return None)],
      Calls = [], vars = test_vars_init\<rparr>"

section \<open>The run of a test and its verdict\<close>

text \<open>
  The test cancels after \<^verbatim>\<open>wg1.Wait()\<close> has returned, and then waits for the
  driver to return: the goroutine that called the driver calls \<^verbatim>\<open>wg2.Done()\<close>
  when the driver has returned, and \<^verbatim>\<open>wg2.Wait()\<close> returns when the counter of
  \<^verbatim>\<open>wg2\<close> is zero.
\<close>

definition fire_test :: "event \<Rightarrow> mock_client ticker \<Rightarrow> mock_client ticker option" where
  "fire_test ev t =
     (if ev = Cancel \<and> wg1 (vars (tk_client t)) \<noteq> 0 then None else fire MockClient ev t)"

fun exec_test :: "event list \<Rightarrow> mock_client ticker \<Rightarrow> mock_client ticker option" where
  "exec_test [] t = Some t"
| "exec_test (ev # evs) t =
     (case fire_test ev t of None \<Rightarrow> None | Some t' \<Rightarrow> exec_test evs t')"

definition wg2_Wait :: "mock_client ticker \<Rightarrow> bool" where
  "wg2_Wait t \<longleftrightarrow>
     tk_mode t = Stopped \<and>
     (case wg2_Done (vars (tk_client t)) of Inl p \<Rightarrow> False | Inr v \<Rightarrow> wg2 v = 0)"

definition test_passes :: "mock_client ticker \<Rightarrow> bool" where
  "test_passes t \<longleftrightarrow>
     wg2_Wait t \<and> \<not> failed (vars (tk_client t)) \<and> touch (vars (tk_client t)) \<and>
     AssertExpectations (tk_client t)"

definition test_two_lists_passes :: "mock_client ticker \<Rightarrow> bool" where
  "test_two_lists_passes t \<longleftrightarrow>
     wg2_Wait t \<and> \<not> failed (vars (tk_client t)) \<and>
     touchListContainers (vars (tk_client t)) \<and> touchStartContainerFrom (vars (tk_client t)) \<and>
     AssertExpectations (tk_client t)"

section \<open>The states of the tests in closed form\<close>

text \<open>
  The state of the first test after \<open>k\<close> list calls, and of the second test after
  \<open>k\<close> list calls and \<open>j\<close> launches that made the requests \<open>rs\<close>.
\<close>

definition failed_list_state :: "nat \<Rightarrow> mode \<Rightarrow> mock_client ticker" where
  "failed_list_state k md =
     \<lparr>tk_mode = md, tk_pending = [],
      tk_client = client_failed
        \<lparr>ExpectedListContainers :=
           [(Run run_failed_ListContainers (Return ([], Some (ClientError ''Expected :)''))))
              \<lparr>totalCalls := k\<rparr>],
         Calls := replicate k ListRequest,
         vars := test_vars_init\<lparr>touch := True, wg1 := 0\<rparr>\<rparr>,
      tk_requests = replicate k ListRequest,
      tk_logged = replicate k (ListFailure (ClientError ''Expected :)''))\<rparr>"

definition single_state ::
  "nat \<Rightarrow> nat \<Rightarrow> request list \<Rightarrow> Container list \<Rightarrow> mode \<Rightarrow> mock_client ticker" where
  "single_state k j rs cs md =
     \<lparr>tk_mode = md, tk_pending = cs,
      tk_client = client_single
        \<lparr>ExpectedListContainers := [(Return ([test_c], None))\<lparr>totalCalls := k\<rparr>],
         ExpectedStartContainerFrom :=
           [(Run run_single_StartContainerFrom (Return None))\<lparr>totalCalls := j\<rparr>],
         Calls := rs,
         vars := (if j = 0 then test_vars_init else test_vars_init\<lparr>touch := True, wg1 := 0\<rparr>)\<rparr>,
      tk_requests = rs, tk_logged = []\<rparr>"

text \<open>
  The states of the third test, event by event: after the first list call, the
  launch of \<^verbatim>\<open>c1\<close>, the second list call, the launch of \<^verbatim>\<open>c2\<close>, a third list
  call, and a second launch of \<^verbatim>\<open>c2\<close>.
\<close>

definition stop :: "'cl ticker \<Rightarrow> 'cl ticker" where
  "stop t = t\<lparr>tk_mode := Stopped, tk_pending := []\<rparr>"

definition two_lists_listed1 :: "mock_client ticker" where
  "two_lists_listed1 = RunTickerTestContainers MockClient client_two_lists"

definition two_lists_started1 :: "mock_client ticker" where
  "two_lists_started1 = process MockClient test_c1 (two_lists_listed1\<lparr>tk_pending := []\<rparr>)"

definition two_lists_listed2 :: "mock_client ticker" where
  "two_lists_listed2 = discover MockClient two_lists_started1"

definition two_lists_started2 :: "mock_client ticker" where
  "two_lists_started2 = process MockClient test_c2 (two_lists_listed2\<lparr>tk_pending := []\<rparr>)"

definition two_lists_listed3 :: "mock_client ticker" where
  "two_lists_listed3 = discover MockClient two_lists_started2"

definition two_lists_started3 :: "mock_client ticker" where
  "two_lists_started3 = process MockClient test_c2 (two_lists_listed3\<lparr>tk_pending := []\<rparr>)"

section \<open>Calls of the mock client\<close>

lemmas expected_call_defs = Return_def Run_def Once_def count_call_def run_hook_def

lemma Called_first:
  "- 1 < Repeatability e \<Longrightarrow>
     Called a (e # es) v =
       go_bind (run_hook e a v) (\<lambda>v'. Inr (ReturnArguments e, count_call e # es, v'))"
  by simp

lemma Called_used_up:
  "Repeatability e = - 1 \<Longrightarrow>
     Called a (e # es) v = go_bind (Called a es v) (\<lambda>(r, es', v'). Inr (r, e # es', v'))"
  by simp

lemma Called_panics_iff:
  "panics (Called a es v) \<longleftrightarrow>
     (case filter (\<lambda>e. - 1 < Repeatability e) es of
        [] \<Rightarrow> True
      | e # es' \<Rightarrow> panics (run_hook e a v))"
proof (induction es)
  case Nil
  show ?case by (simp add: panics_def)
next
  case (Cons e es)
  show ?case
  proof (cases "- 1 < Repeatability e")
    case True
    then show ?thesis
      by (cases "run_hook e a v") (simp_all add: panics_def)
  next
    case False
    with Cons.IH show ?thesis
      by (cases "Called a es v") (auto simp: panics_def)
  qed
qed

lemma exec_test_append:
  "exec_test (xs @ ys) t =
     (case exec_test xs t of None \<Rightarrow> None | Some t' \<Rightarrow> exec_test ys t')"
  by (induction xs arbitrary: t) (auto split: option.splits)

lemma exec_test_exec: "exec_test evs t = Some t' \<Longrightarrow> exec MockClient evs t = Some t'"
  by (induction evs arbitrary: t) (auto simp: fire_test_def split: option.splits if_splits)

lemma Name_test_c [simp]:
  "Name test_c = Inr ''My Test Container''" "Name test_c1 = Inr ''c1''"
  "Name test_c2 = Inr ''c2''"
  by (simp_all add: test_c_def test_c1_def test_c2_def test_container_Name
      strings_TrimPrefix_single)

lemma is_candidate_test_c [simp]:
  "is_candidate test_c = Inr True" "is_candidate test_c1 = Inr True"
  "is_candidate test_c2 = Inr True"
  by (simp_all add: test_c_def test_c1_def test_c2_def is_candidate_test_container)

lemmas sync_defs =
  WaitGroup_Done_def Mutex_Lock_def Mutex_Unlock_def wg1_Done_def wg2_Done_def
  locker_Lock_def locker_Unlock_def

lemmas mock_defs =
  MockClient_def mock_ListContainers_def mock_StartContainerFrom_def expected_call_defs
  test_vars_init_def touch_once_def sync_defs assert_Equal_def

lemmas verdict_defs =
  test_passes_def test_two_lists_passes_def wg2_Wait_def AssertExpectations_def
  expectation_met_def

section \<open>The test of a list call that fails\<close>

lemma failed_list_init:
  "RunTickerTestContainers MockClient client_failed = failed_list_state 1 Ticking"
  by (simp add: RunTickerTestContainers_def discover_def ticker_init_def failed_list_state_def
      client_failed_def mock_defs run_failed_ListContainers_def)

lemma failed_list_Tick:
  "0 < k \<Longrightarrow>
     fire_test Tick (failed_list_state k Ticking) = Some (failed_list_state (Suc k) Ticking)"
  by (simp add: fire_test_def fire_Tick discover_def failed_list_state_def client_failed_def
      mock_defs run_failed_ListContainers_def replicate_append_same)

lemma failed_list_Cancel:
  "fire_test Cancel (failed_list_state k Ticking) = Some (failed_list_state k Stopped)"
  by (simp add: fire_test_def fire_Cancel failed_list_state_def test_vars_init_def)

lemma failed_list_Ticks:
  "0 < k \<Longrightarrow>
     exec_test (replicate n Tick) (failed_list_state k Ticking) =
       Some (failed_list_state (k + n) Ticking)"
  by (induction n arbitrary: k) (simp_all add: failed_list_Tick)

lemma failed_list_passes: "0 < k \<Longrightarrow> test_passes (failed_list_state k Stopped)"
  by (auto simp: verdict_defs failed_list_state_def client_failed_def mock_defs)

lemma failed_list_requests:
  "Calls (tk_client (failed_list_state k md)) = replicate k ListRequest"
  "tk_logged (failed_list_state k md) = replicate k (ListFailure (ClientError ''Expected :)''))"
  by (simp_all add: failed_list_state_def)

lemma exec_test_not_Ticking:
  "tk_mode t \<noteq> Ticking \<Longrightarrow> exec_test evs t = Some t' \<longleftrightarrow> evs = [] \<and> t' = t"
  by (cases evs) (auto simp: fire_test_def)

section \<open>The test of a single candidate\<close>

lemma single_state_mode [simp]: "tk_mode (single_state k j rs cs md) = md"
  by (simp add: single_state_def)

lemma single_init:
  "RunTickerTestContainers MockClient client_single =
     single_state 1 0 [ListRequest] [test_c] Ticking"
  by (simp add: RunTickerTestContainers_def discover_def ticker_init_def single_state_def
      client_single_def mock_defs)

lemma single_Tick:
  "fire_test Tick (single_state k j rs cs Ticking) =
     (if cs = [] then Some (single_state (Suc k) j (rs @ [ListRequest]) [test_c] Ticking)
      else None)"
  by (simp add: fire_test_def fire_Tick discover_def single_state_def client_single_def
      mock_defs)

lemma single_Next:
  "fire_test Next (single_state k j rs (test_c # cs) Ticking) =
     Some (single_state k (Suc j) (rs @ [StartRequest test_c]) cs Ticking)"
  by (simp add: fire_test_def fire_Next process_def launch_def single_state_def
      client_single_def mock_defs run_single_StartContainerFrom_def)

lemma single_Next_Nil: "fire_test Next (single_state k j rs [] Ticking) = None"
  by (simp add: fire_test_def fire_Next single_state_def)

lemma single_Cancel:
  "fire_test Cancel (single_state k j rs cs Ticking) =
     (if j = 0 then None else Some (single_state k j rs [] Stopped))"
  by (simp add: fire_test_def fire_Cancel single_state_def test_vars_init_def)

lemma single_step:
  assumes "fire_test ev (single_state k j rs cs Ticking) = Some t"
    and "set cs \<subseteq> {test_c}" and "started rs = replicate j test_c"
    and "ListRequest \<in> set rs"
  obtains k' j' rs' cs' md where "t = single_state k' j' rs' cs' md"
    and "set cs' \<subseteq> {test_c}" and "started rs' = replicate j' test_c"
    and "ListRequest \<in> set rs'" and "md = Ticking \<or> md = Stopped \<and> 0 < j'"
proof (cases ev)
  case Tick
  with assms(1) have "t = single_state (Suc k) j (rs @ [ListRequest]) [test_c] Ticking"
    by (auto simp: single_Tick split: if_splits)
  with assms(3,4) show thesis
    by (intro that [of "Suc k" j "rs @ [ListRequest]" "[test_c]" Ticking]) auto
next
  case Next
  with assms(1,2) obtain cs' where cs: "cs = test_c # cs'"
    by (cases cs) (auto simp: single_Next_Nil)
  with Next assms(1) have "t = single_state k (Suc j) (rs @ [StartRequest test_c]) cs' Ticking"
    by (simp add: single_Next)
  moreover from assms(3) have "started (rs @ [StartRequest test_c]) = replicate (Suc j) test_c"
    by (simp add: replicate_append_same)
  ultimately show thesis using cs assms(2,4)
    by (intro that [of k "Suc j" "rs @ [StartRequest test_c]" cs' Ticking]) auto
next
  case Cancel
  with assms(1) have "0 < j" and "t = single_state k j rs [] Stopped"
    by (auto simp: single_Cancel split: if_splits)
  with assms(3,4) show thesis
    by (intro that [of k j rs "[]" Stopped]) auto
qed

lemma single_run:
  assumes "exec_test evs (single_state k j rs cs Ticking) = Some t"
    and "set cs \<subseteq> {test_c}" and "started rs = replicate j test_c"
    and "ListRequest \<in> set rs"
  shows "\<exists>k' j' rs' cs'. t = single_state k' j' rs' cs' (tk_mode t) \<and>
       started rs' = replicate j' test_c \<and> ListRequest \<in> set rs' \<and>
       (tk_mode t = Ticking \<or> tk_mode t = Stopped \<and> 0 < j')"
  using assms
proof (induction evs arbitrary: k j rs cs)
  case Nil
  then have "t = single_state k j rs cs (tk_mode t)" and "tk_mode t = Ticking"
    by auto
  with Nil.prems show ?case by blast
next
  case (Cons ev evs)
  from Cons.prems(1) obtain t1 where
    fire: "fire_test ev (single_state k j rs cs Ticking) = Some t1"
    and run: "exec_test evs t1 = Some t"
    by (auto split: option.splits)
  from fire Cons.prems(2-4) obtain k' j' rs' cs' md where
    t1: "t1 = single_state k' j' rs' cs' md" and inv: "set cs' \<subseteq> {test_c}"
    "started rs' = replicate j' test_c" "ListRequest \<in> set rs'"
    and md: "md = Ticking \<or> md = Stopped \<and> 0 < j'"
    by (rule single_step)
  show ?case
  proof (cases "md = Ticking")
    case True
    with run t1 inv show ?thesis by (intro Cons.IH) simp_all
  next
    case False
    with run t1 have "t = single_state k' j' rs' cs' md"
      by (simp add: exec_test_not_Ticking)
    with False md inv show ?thesis by auto
  qed
qed

lemma single_state_passes:
  assumes "0 < j" and "ListRequest \<in> set rs" and "started rs \<noteq> []"
  shows "test_passes (single_state k j rs cs Stopped)"
  using assms
  by (simp add: verdict_defs single_state_def client_single_def mock_defs)

lemma single_state_Calls [simp]: "Calls (tk_client (single_state k j rs cs md)) = rs"
  by (simp add: single_state_def)

section \<open>The test of two different lists\<close>

lemmas two_lists_defs =
  two_lists_listed1_def two_lists_started1_def two_lists_listed2_def two_lists_started2_def
  two_lists_listed3_def two_lists_started3_def

lemmas two_lists_eval =
  RunTickerTestContainers_def discover_def process_def launch_def ticker_init_def
  client_two_lists_def mock_defs run_first_StartContainerFrom_def
  run_second_ListContainers_def run_second_StartContainerFrom_def

lemma two_lists_listed1:
  "tk_mode two_lists_listed1 = Ticking" "tk_pending two_lists_listed1 = [test_c1]"
  "wg1 (vars (tk_client two_lists_listed1)) = 1"
  by (simp_all add: two_lists_listed1_def two_lists_eval)

lemma two_lists_started1:
  "tk_mode two_lists_started1 = Ticking" "tk_pending two_lists_started1 = []"
  "wg1 (vars (tk_client two_lists_started1)) = 1"
  by (simp_all add: two_lists_started1_def two_lists_listed1_def two_lists_eval)

lemma two_lists_listed2:
  "tk_mode two_lists_listed2 = Ticking" "tk_pending two_lists_listed2 = [test_c2]"
  "wg1 (vars (tk_client two_lists_listed2)) = 1"
  by (simp_all add: two_lists_defs two_lists_eval)

lemma two_lists_started2:
  "tk_mode two_lists_started2 = Ticking" "tk_pending two_lists_started2 = []"
  "wg1 (vars (tk_client two_lists_started2)) = 0"
  by (simp_all add: two_lists_defs two_lists_eval)

lemma two_lists_listed3:
  "tk_mode two_lists_listed3 = Ticking" "tk_pending two_lists_listed3 = [test_c2]"
  "wg1 (vars (tk_client two_lists_listed3)) = 0"
  by (simp_all add: two_lists_defs two_lists_eval)

lemma two_lists_started3:
  "tk_mode two_lists_started3 = Panicked (PanicValue ''sync: negative WaitGroup counter'')"
  "tk_requests two_lists_started3 =
     [ListRequest, StartRequest test_c1, ListRequest, StartRequest test_c2, ListRequest,
      StartRequest test_c2]"
  by (simp_all add: two_lists_defs two_lists_eval)

lemma two_lists_started2_Calls:
  "Calls (tk_client two_lists_started2) =
     [ListRequest, StartRequest test_c1, ListRequest, StartRequest test_c2]"
  by (simp add: two_lists_defs two_lists_eval)

lemma two_lists_listed3_Calls:
  "Calls (tk_client two_lists_listed3) =
     [ListRequest, StartRequest test_c1, ListRequest, StartRequest test_c2, ListRequest]"
  by (simp add: two_lists_defs two_lists_eval)

lemma two_lists_started2_passes: "test_two_lists_passes (stop two_lists_started2)"
  by (simp add: verdict_defs stop_def two_lists_defs two_lists_eval)

lemma two_lists_listed3_passes: "test_two_lists_passes (stop two_lists_listed3)"
  by (simp add: verdict_defs stop_def two_lists_defs two_lists_eval)

section \<open>The events a test can see\<close>

lemma fire_test_waiting:
  assumes "tk_mode t = Ticking" and "wg1 (vars (tk_client t)) \<noteq> 0"
  shows "fire_test ev t =
     (case (ev, tk_pending t) of
        (Tick, []) \<Rightarrow> Some (discover MockClient t)
      | (Next, c # cs) \<Rightarrow> Some (process MockClient c (t\<lparr>tk_pending := cs\<rparr>))
      | _ \<Rightarrow> None)"
  using assms
  by (cases ev; cases "tk_pending t") (simp_all add: fire_test_def fire_simps)

lemma fire_test_released:
  assumes "tk_mode t = Ticking" and "wg1 (vars (tk_client t)) = 0"
  shows "fire_test ev t =
     (case (ev, tk_pending t) of
        (Tick, []) \<Rightarrow> Some (discover MockClient t)
      | (Next, c # cs) \<Rightarrow> Some (process MockClient c (t\<lparr>tk_pending := cs\<rparr>))
      | (Cancel, cs) \<Rightarrow> Some (stop t)
      | _ \<Rightarrow> None)"
  using assms
  by (cases ev; cases "tk_pending t") (simp_all add: fire_test_def fire_simps stop_def)

lemma stop_fields [simp]:
  "tk_mode (stop t) = Stopped" "tk_client (stop t) = tk_client t"
  "tk_requests (stop t) = tk_requests t"
  by (simp_all add: stop_def)

lemma two_lists_run_started3:
  "exec_test evs two_lists_started3 = Some t \<Longrightarrow> tk_mode t \<noteq> Stopped"
  by (auto simp: exec_test_not_Ticking two_lists_started3)

lemma two_lists_run_listed3:
  assumes "exec_test evs two_lists_listed3 = Some t" and "tk_mode t = Stopped"
  shows "t = stop two_lists_listed3"
proof (cases evs)
  case Nil
  with assms show ?thesis by (simp add: two_lists_listed3)
next
  case (Cons ev evs')
  with assms two_lists_run_started3 [of evs' t] show ?thesis
    by (cases ev)
      (auto simp: fire_test_released two_lists_listed3 exec_test_not_Ticking
        two_lists_started3_def)
qed

lemma two_lists_run_started2:
  assumes "exec_test evs two_lists_started2 = Some t" and "tk_mode t = Stopped"
  shows "t = stop two_lists_started2 \<or> t = stop two_lists_listed3"
proof (cases evs)
  case Nil
  with assms show ?thesis by (simp add: two_lists_started2)
next
  case (Cons ev evs')
  with assms two_lists_run_listed3 [of evs' t] show ?thesis
    by (cases ev)
      (auto simp: fire_test_released two_lists_started2 exec_test_not_Ticking
        two_lists_listed3_def)
qed

lemma two_lists_run_listed2:
  assumes "exec_test evs two_lists_listed2 = Some t" and "tk_mode t = Stopped"
  shows "t = stop two_lists_started2 \<or> t = stop two_lists_listed3"
proof (cases evs)
  case Nil
  with assms show ?thesis by (simp add: two_lists_listed2)
next
  case (Cons ev evs')
  with assms two_lists_run_started2 [of evs' t] show ?thesis
    by (cases ev) (auto simp: fire_test_waiting two_lists_listed2 two_lists_started2_def)
qed

lemma two_lists_run_started1:
  assumes "exec_test evs two_lists_started1 = Some t" and "tk_mode t = Stopped"
  shows "t = stop two_lists_started2 \<or> t = stop two_lists_listed3"
proof (cases evs)
  case Nil
  with assms show ?thesis by (simp add: two_lists_started1)
next
  case (Cons ev evs')
  with assms two_lists_run_listed2 [of evs' t] show ?thesis
    by (cases ev) (auto simp: fire_test_waiting two_lists_started1 two_lists_listed2_def)
qed

lemma two_lists_run_listed1:
  assumes "exec_test evs two_lists_listed1 = Some t" and "tk_mode t = Stopped"
  shows "t = stop two_lists_started2 \<or> t = stop two_lists_listed3"
proof (cases evs)
  case Nil
  with assms show ?thesis by (simp add: two_lists_listed1)
next
  case (Cons ev evs')
  with assms two_lists_run_started1 [of evs' t] show ?thesis
    by (cases ev) (auto simp: fire_test_waiting two_lists_listed1 two_lists_started1_def)
qed

lemma two_lists_intended_run:
  "exec_test [Next, Tick, Next, Cancel] two_lists_listed1 = Some (stop two_lists_started2)"
  by (simp add: fire_test_waiting fire_test_released two_lists_listed1 two_lists_started1
      two_lists_listed2 two_lists_started2 flip: two_lists_defs)

lemma two_lists_late_run:
  "exec_test [Next, Tick, Next, Tick, Next] two_lists_listed1 = Some two_lists_started3"
  by (simp add: fire_test_waiting fire_test_released two_lists_listed1 two_lists_started1
      two_lists_listed2 two_lists_started2 two_lists_listed3 flip: two_lists_defs)

section \<open>What the tests establish\<close>

text \<open>
  The test of a failing list call passes after any number of ticks: the loop
  has made one list call for the call of the driver and one for every tick, has
  logged each failure, has launched nothing, and stops when the test cancels.
\<close>

theorem failed_list_test_passes:
  "\<exists>t. exec_test (replicate n Tick @ [Cancel])
          (RunTickerTestContainers MockClient client_failed) = Some t \<and>
     test_passes t \<and> Calls (tk_client t) = replicate (Suc n) ListRequest \<and>
     tk_logged t = replicate (Suc n) (ListFailure (ClientError ''Expected :)''))"
  by (simp add: exec_test_append failed_list_init failed_list_Ticks failed_list_Cancel
      failed_list_passes failed_list_requests)

text \<open>
  The test of a single candidate passes on every run in which the driver
  returns: whenever the timer fires and whenever the cancellation is observed, the
  test's assertions hold, and every launch was a launch of the container
  \<^verbatim>\<open>My Test Container\<close>. On the run in which the cancellation is observed before
  the second tick, the container was launched exactly once.
\<close>

theorem single_candidate_test_passes:
  assumes "exec_test evs (RunTickerTestContainers MockClient client_single) = Some t"
    and "tk_mode t = Stopped"
  shows "test_passes t \<and> set (started (Calls (tk_client t))) = {test_c}"
proof -
  from assms(1) have "exec_test evs (single_state 1 0 [ListRequest] [test_c] Ticking) = Some t"
    by (simp add: single_init)
  from single_run [OF this] assms(2) obtain k j rs cs where
    t: "t = single_state k j rs cs Stopped" and j: "0 < j"
    and rs: "started rs = replicate j test_c" and l: "ListRequest \<in> set rs"
    by fastforce
  from j rs have "started rs \<noteq> []" and "set (started rs) = {test_c}" by auto
  with t j l show ?thesis
    by (simp add: single_state_passes)
qed

theorem single_candidate_test_passes_witness:
  "exec_test [Next, Cancel] (RunTickerTestContainers MockClient client_single) =
     Some (single_state 1 1 [ListRequest, StartRequest test_c] [] Stopped) \<and>
   test_passes (single_state 1 1 [ListRequest, StartRequest test_c] [] Stopped) \<and>
   Calls (tk_client (single_state 1 1 [ListRequest, StartRequest test_c] [] Stopped)) =
     [ListRequest, StartRequest test_c]"
proof -
  have run: "exec_test [Next, Cancel] (RunTickerTestContainers MockClient client_single) =
      Some (single_state 1 1 [ListRequest, StartRequest test_c] [] Stopped)"
    by (simp add: single_init single_Next single_Cancel)
  from single_candidate_test_passes [OF run] run show ?thesis by simp
qed

text \<open>
  The test of two different lists passes on every run in which the driver
  returns, and on each of them \<^verbatim>\<open>c1\<close> and \<^verbatim>\<open>c2\<close> have been launched exactly once
  each, in the order of the ticks.
\<close>

theorem two_lists_test_passes:
  assumes "exec_test evs (RunTickerTestContainers MockClient client_two_lists) = Some t"
    and "tk_mode t = Stopped"
  shows "test_two_lists_passes t \<and> started (Calls (tk_client t)) = [test_c1, test_c2]"
proof -
  from assms have "t = stop two_lists_started2 \<or> t = stop two_lists_listed3"
    by (intro two_lists_run_listed1 [of evs]) (simp_all add: two_lists_listed1_def)
  then show ?thesis
    by (auto simp: two_lists_started2_passes two_lists_listed3_passes
        two_lists_started2_Calls two_lists_listed3_Calls)
qed

theorem two_lists_test_passes_witness:
  "exec_test [Next, Tick, Next, Cancel]
     (RunTickerTestContainers MockClient client_two_lists) = Some (stop two_lists_started2) \<and>
   test_two_lists_passes (stop two_lists_started2) \<and>
   Calls (tk_client (stop two_lists_started2)) =
     [ListRequest, StartRequest test_c1, ListRequest, StartRequest test_c2]"
proof -
  have run: "exec_test [Next, Tick, Next, Cancel]
      (RunTickerTestContainers MockClient client_two_lists) = Some (stop two_lists_started2)"
    using two_lists_intended_run by (simp add: two_lists_listed1_def)
  from two_lists_test_passes [OF run] run show ?thesis
    by (simp add: two_lists_started2_Calls)
qed

text \<open>
  The test of two different lists has a run in which the driver does not
  return: when the timer fires a third time and the launch of that pass starts
  before the cancellation is observed, the function hooked into
  \<^verbatim>\<open>StartContainerFrom\<close> calls \<^verbatim>\<open>wg1.Done()\<close> a second time and the driver's
  goroutine panics.
\<close>

theorem two_lists_test_race:
  "\<exists>t. exec_test [Next, Tick, Next, Tick, Next]
          (RunTickerTestContainers MockClient client_two_lists) = Some t \<and>
     tk_mode t = Panicked (PanicValue ''sync: negative WaitGroup counter'') \<and>
     started (tk_requests t) = [test_c1, test_c2, test_c2]"
  using two_lists_late_run
  by (simp add: two_lists_started3 flip: two_lists_listed1_def)

end
