(* ===== verification/Ticker_Loop.thy ===== *)
theory Ticker_Loop
  imports Ticker "HOL-Library.Stream"
begin

text \<open>
  The call of \<^verbatim>\<open>RunTickerTestContainers\<close> as a loop that may not end. The driver
  blocks its caller until the cancellation is observed (specification 4.2), so the
  call is a partial function: \<open>run_loop\<close> returns the state in which the loop ended,
  and \<open>None\<close> is the call that never returns. What the loop sees of its environment
  is a stream of booleans: the \<open>n\<close>-th element says whether the \<open>n\<close>-th time the loop
  waits (for the timer, or between two containers of a pass) it observes the
  cancellation. Every other wait ends with the event the state of the pass
  determines. The theory shows when the call returns, how many requests it makes
  until then, and that with a client that keeps its contract it returns for no
  other reason than the cancellation.
\<close>

section \<open>The loop\<close>

definition next_event :: "bool \<Rightarrow> 'cl ticker \<Rightarrow> event" where
  "next_event cancelled t =
     (if cancelled then Cancel else if tk_pending t = [] then Tick else Next)"

partial_function (option) run_loop ::
  "'cl Client \<Rightarrow> bool stream \<Rightarrow> 'cl ticker \<Rightarrow> 'cl ticker option" where
  "run_loop ops env t =
     (if tk_mode t = Ticking
      then case fire ops (next_event (shd env) t) t of
             None \<Rightarrow> None
           | Some t' \<Rightarrow> run_loop ops (stl env) t'
      else Some t)"

text \<open>What a wait that does not observe the cancellation is followed by.\<close>

definition advance :: "'cl Client \<Rightarrow> 'cl ticker \<Rightarrow> 'cl ticker" where
  "advance ops t =
     (case tk_pending t of
        [] \<Rightarrow> discover ops t
      | c # cs \<Rightarrow> process ops c (t\<lparr>tk_pending := cs\<rparr>))"

text \<open>The events that are no cancellation: each of them makes at most one request.\<close>

definition work :: "event list \<Rightarrow> nat" where
  "work evs = length (filter (\<lambda>ev. ev \<noteq> Cancel) evs)"

text \<open>The environment in which the cancellation is observed at the \<open>n\<close>-th wait.\<close>

definition cancel_at :: "nat \<Rightarrow> bool stream" where
  "cancel_at n = replicate n False @- sconst True"

section \<open>One iteration\<close>

lemma fire_next_event:
  "tk_mode t = Ticking \<Longrightarrow>
     fire ops (next_event cancelled t) t =
       Some (if cancelled then t\<lparr>tk_mode := Stopped, tk_pending := []\<rparr> else advance ops t)"
  by (cases "tk_pending t") (simp_all add: next_event_def advance_def fire_simps)

lemma run_loop_ended [simp]: "tk_mode t \<noteq> Ticking \<Longrightarrow> run_loop ops env t = Some t"
  by (subst run_loop.simps) simp

lemma run_loop_cancelled:
  "tk_mode t = Ticking \<Longrightarrow> shd env \<Longrightarrow>
     run_loop ops env t = Some (t\<lparr>tk_mode := Stopped, tk_pending := []\<rparr>)"
  by (subst run_loop.simps) (simp add: fire_next_event)

lemma run_loop_advance:
  "tk_mode t = Ticking \<Longrightarrow> \<not> shd env \<Longrightarrow>
     run_loop ops env t = run_loop ops (stl env) (advance ops t)"
  by (subst run_loop.simps) (simp add: fire_next_event)

lemma run_loop_Cons:
  "run_loop ops (b ## env) t =
     (if tk_mode t \<noteq> Ticking then Some t
      else if b then Some (t\<lparr>tk_mode := Stopped, tk_pending := []\<rparr>)
      else run_loop ops env (advance ops t))"
  by (simp add: run_loop_cancelled run_loop_advance)

lemma ticker_step_advance:
  "tk_mode t = Ticking \<Longrightarrow> ticker_step ops t (next_event False t) (advance ops t)"
  by (simp add: ticker_step_iff fire_next_event)

lemma advance_requests:
  "\<exists>rs. tk_requests (advance ops t) = tk_requests t @ rs \<and> length rs \<le> 1"
  by (cases "tk_pending t") (simp_all add: advance_def process_requests)

lemma advance_ok:
  assumes "wf_client ops" and "ticker_ok t" and "tk_mode t = Ticking"
  shows "ticker_ok (advance ops t) \<and> tk_mode (advance ops t) = Ticking"
  using ticker_step_ok [OF assms(1) ticker_step_advance [OF assms(3)] assms(2)]
  by (simp add: next_event_def)

section \<open>Runs and their requests\<close>

lemma work_simps [simp]:
  "work [] = 0" "work (ev # evs) = (if ev = Cancel then 0 else 1) + work evs"
  by (simp_all add: work_def)

lemma ticker_step_requests:
  assumes "ticker_step ops t ev t'"
  shows "\<exists>rs. tk_requests t' = tk_requests t @ rs \<and> length rs \<le> work [ev]"
  using assms by cases (simp_all add: process_requests)

lemma ticker_run_requests:
  "ticker_run ops t evs t' \<Longrightarrow>
     \<exists>rs. tk_requests t' = tk_requests t @ rs \<and> length rs \<le> work evs"
proof (induction rule: ticker_run.induct)
  case (run_nil t)
  show ?case by simp
next
  case (run_cons t ev t' evs t'')
  from ticker_step_requests [OF run_cons.hyps(1)] run_cons.IH show ?case
    by (auto split: if_splits)
qed

section \<open>The call returns when the cancellation is observed\<close>

lemma run_loop_stop:
  assumes "tk_mode t \<noteq> Ticking \<or> shd env"
  shows "\<exists>t' evs. run_loop ops env t = Some t' \<and> tk_mode t' \<noteq> Ticking \<and>
           ticker_run ops t evs t' \<and> work evs = 0"
proof (cases "tk_mode t = Ticking")
  case True
  with assms have "run_loop ops env t = Some (t\<lparr>tk_mode := Stopped, tk_pending := []\<rparr>)"
    by (simp add: run_loop_cancelled)
  moreover from True
  have "ticker_run ops t [Cancel] (t\<lparr>tk_mode := Stopped, tk_pending := []\<rparr>)"
    by (simp add: ticker_run_iff fire_Cancel)
  ultimately show ?thesis by fastforce
next
  case False
  then show ?thesis by (auto intro: run_nil)
qed

lemma run_loop_at:
  "env !! n \<Longrightarrow>
     \<exists>t' evs. run_loop ops env t = Some t' \<and> tk_mode t' \<noteq> Ticking \<and>
       ticker_run ops t evs t' \<and> work evs \<le> n"
proof (induction n arbitrary: env t)
  case 0
  with run_loop_stop [of t env ops] show ?case by auto
next
  case (Suc n)
  show ?case
  proof (cases "tk_mode t \<noteq> Ticking \<or> shd env")
    case True
    from run_loop_stop [OF this, of ops] show ?thesis by (metis le0)
  next
    case False
    then have ticking: "tk_mode t = Ticking" and wait: "\<not> shd env" by simp_all
    from Suc.prems have "stl env !! n" by simp
    from Suc.IH [OF this, of "advance ops t"]
    obtain t' evs where run: "run_loop ops (stl env) (advance ops t) = Some t'"
      and mode: "tk_mode t' \<noteq> Ticking"
      and evs: "ticker_run ops (advance ops t) evs t'" and n: "work evs \<le> n"
      by blast
    from run ticking wait have "run_loop ops env t = Some t'"
      by (simp add: run_loop_advance)
    moreover from evs ticker_step_advance [OF ticking, of ops]
    have "ticker_run ops t (next_event False t # evs) t'"
      by (rule run_cons [rotated])
    moreover from n have "work (next_event False t # evs) \<le> Suc n"
      by (simp add: next_event_def)
    ultimately show ?thesis using mode by blast
  qed
qed

section \<open>The call does not return before the cancellation\<close>

lemma run_loop_observed:
  assumes "run_loop ops env t = Some t'" and "wf_client ops" and "ticker_ok t"
    and "tk_mode t = Ticking"
  shows "\<exists>n. env !! n"
  using assms
proof (induction rule: run_loop.raw_induct [rotated, consumes 1, case_names step])
  case (step run_loop' ops env t t')
  show ?case
  proof (cases "shd env")
    case True
    then have "env !! 0" by simp
    then show ?thesis ..
  next
    case False
    with step.hyps step.prems(3)
    have "run_loop' ops (stl env) (advance ops t) = Some t'"
      by (simp add: fire_next_event)
    from step.IH [OF this step.prems(1)] advance_ok [OF step.prems]
    obtain n where "stl env !! n" by blast
    then have "env !! Suc n" by simp
    then show ?thesis ..
  qed
qed

section \<open>The loop with the clients of the examples\<close>

lemma cancel_at_simps [simp]:
  "cancel_at 0 = sconst True" "cancel_at (Suc n) = False ## cancel_at n"
  by (simp_all add: cancel_at_def)

lemma cancel_at_snth: "cancel_at n !! n"
  by (induction n) simp_all

lemma sconst_False_snth [simp]: "\<not> sconst False !! n"
  by simp

lemma advance_failing_client:
  "tk_pending t = [] \<Longrightarrow>
     advance (failing_client e) t =
       t\<lparr>tk_requests := tk_requests t @ [ListRequest], tk_logged := tk_logged t @ [ListFailure e]\<rparr>"
  by (simp add: advance_def failing_client_discover)

lemma failing_client_loop:
  "tk_mode t = Ticking \<Longrightarrow> tk_pending t = [] \<Longrightarrow>
     run_loop (failing_client e) (cancel_at n) t =
       Some (t\<lparr>tk_mode := Stopped,
               tk_requests := tk_requests t @ replicate n ListRequest,
               tk_logged := tk_logged t @ replicate n (ListFailure e)\<rparr>)"
proof (induction n arbitrary: t)
  case 0
  then show ?case by (simp add: run_loop_cancelled)
next
  case (Suc n)
  then show ?case
    by (simp add: run_loop_Cons advance_failing_client replicate_app_Cons_same)
qed

section \<open>What the call guarantees\<close>

text \<open>
  C16. The call returns when it is cancelled. With any client, also one that fails
  or panics, and from any state of the loop: if the cancellation is observed at some
  wait, the call returns, the loop is then not running any more, and the state it
  returns is one the transition system reaches from the state the call started in,
  in a mode that is not below the mode at the start.
\<close>

theorem run_loop_terminates:
  assumes "env !! n"
  shows "\<exists>t'. run_loop ops env t = Some t' \<and> tk_mode t' \<noteq> Ticking \<and>
           tk_mode t \<le> tk_mode t' \<and> (\<exists>evs. ticker_run ops t evs t')"
  using run_loop_at [OF assms, of ops t] ticker_run_mode_mono by blast

theorem run_loop_terminates_witness:
  "cancel_at 2 !! 2 \<and>
   run_loop (failing_client (ClientError ''Expected :)'')) (cancel_at 2)
       (RunTickerTestContainers (failing_client (ClientError ''Expected :)'')) ()) =
     Some \<lparr>tk_mode = Stopped, tk_pending = [], tk_client = (),
           tk_requests = [ListRequest, ListRequest, ListRequest],
           tk_logged = replicate 3 (ListFailure (ClientError ''Expected :)''))\<rparr>"
proof -
  let ?ops = "failing_client (ClientError ''Expected :)'')"
  have at: "cancel_at 2 !! 2" by (rule cancel_at_snth)
  from run_loop_terminates [OF at, of ?ops "RunTickerTestContainers ?ops ()"]
  obtain t' where "run_loop ?ops (cancel_at 2) (RunTickerTestContainers ?ops ()) = Some t'"
    by blast
  with at show ?thesis
    by (auto simp: failing_client_init run_loop_Cons run_loop_cancelled advance_failing_client
        numeral_2_eq_2 numeral_3_eq_3)
qed

text \<open>
  C18. The call blocks until the cancellation. With a client that keeps its contract
  and a running loop that looks at well-formed snapshots, the call does not return
  exactly when the cancellation is never observed, however many list calls and
  launches fail; and when it returns, the loop has stopped and not panicked.
\<close>

theorem run_loop_blocks:
  assumes "wf_client ops" and "ticker_ok t" and "tk_mode t = Ticking"
  shows "(run_loop ops env t = None \<longleftrightarrow> (\<forall>n. \<not> env !! n)) \<and>
         (\<forall>t'. run_loop ops env t = Some t' \<longrightarrow> tk_mode t' = Stopped)"
proof (intro conjI allI impI)
  show "run_loop ops env t = None \<longleftrightarrow> (\<forall>n. \<not> env !! n)"
    using run_loop_observed [OF _ assms, of env] run_loop_at [of env _ ops t]
    by (cases "run_loop ops env t") auto
next
  fix t'
  assume run: "run_loop ops env t = Some t'"
  from run_loop_observed [OF this assms] obtain n where "env !! n" ..
  from run_loop_at [OF this, of ops t] run
  obtain evs where "tk_mode t' \<noteq> Ticking" and "ticker_run ops t evs t'" by auto
  with ticker_run_mode [OF assms(1) _ assms(2,3)] show "tk_mode t' = Stopped"
    by (auto split: if_splits)
qed

theorem run_loop_blocks_witness:
  "run_loop (failing_client (ClientError ''Expected :)'')) (sconst False)
     (RunTickerTestContainers (failing_client (ClientError ''Expected :)'')) ()) = None"
  using run_loop_blocks [OF wf_failing_client, where env = "sconst False" and
      t = "RunTickerTestContainers (failing_client (ClientError ''Expected :)'')) ()"]
  by (simp add: failing_client_init ticker_ok_iff)

text \<open>
  C17. The latency of the cancellation is bounded by one request of the client. Each
  wait that does not observe the cancellation is followed by at most one call of
  the client, and the wait that observes it by none: a call that observes the
  cancellation at its \<open>n\<close>-th wait returns, and it returns after at most \<open>n\<close> more
  requests, which come after the requests made before. This holds with every client and in the
  middle of a pass, however many containers of the pass are left.
\<close>

theorem run_loop_latency:
  assumes "env !! n"
  shows "\<exists>t' rs. run_loop ops env t = Some t' \<and> tk_requests t' = tk_requests t @ rs \<and>
           length rs \<le> n"
proof -
  from run_loop_at [OF assms, of ops t]
  obtain t' evs where "run_loop ops env t = Some t'" "ticker_run ops t evs t'" "work evs \<le> n"
    by auto
  with ticker_run_requests [of ops t evs t'] show ?thesis
    by (auto intro: order_trans)
qed

theorem run_loop_latency_witness:
  "cancel_at 1 !! 1 \<and>
   run_loop (static_client [test_c1, test_c2]) (cancel_at 1)
       (RunTickerTestContainers (static_client [test_c1, test_c2]) ()) =
     Some \<lparr>tk_mode = Stopped, tk_pending = [], tk_client = (),
           tk_requests = [ListRequest] @ [StartRequest test_c1], tk_logged = []\<rparr> \<and>
   length [StartRequest test_c1] \<le> 1"
proof -
  let ?ops = "static_client [test_c1, test_c2]"
  have at: "cancel_at 1 !! 1" by (rule cancel_at_snth)
  have run: "run_loop ?ops (cancel_at 1) (RunTickerTestContainers ?ops ()) =
      Some \<lparr>tk_mode = Stopped, tk_pending = [], tk_client = (),
            tk_requests = [ListRequest] @ [StartRequest test_c1], tk_logged = []\<rparr>"
    by (simp add: static_client_init run_loop_Cons run_loop_cancelled advance_def
        test_c1_def static_client_process_test)
  from run_loop_latency [OF at, of ?ops "RunTickerTestContainers ?ops ()"] at run show ?thesis
    by simp
qed

end
