(* ===== verification/Test_Runs.thy ===== *)
theory Test_Runs
  imports Ticker_Test Ticker_Loop
begin

text \<open>
  The three tests of \<^verbatim>\<open>src/actions/ticker_test.go\<close> from their first statement to
  their verdict. A test starts the driver in a goroutine, waits for \<^verbatim>\<open>wg1\<close>,
  cancels, and waits for \<^verbatim>\<open>wg2\<close>; whether it ever gets to its assertions depends
  on when the loop observes the cancellation. As in theory \<open>Ticker_Loop\<close> the
  environment is a stream of booleans, one for each wait of the loop; an element
  counts only when the counter of \<^verbatim>\<open>wg1\<close> is zero, since the test does not cancel
  before. \<open>run_test\<close> is the driver's call under this environment, a partial
  function. For each test the theory gives the environments in which the test
  returns and passes, those in which it never returns, and, for the third test,
  those in which the driver's goroutine panics.
\<close>

section \<open>The driver's call in a test\<close>

definition observed :: "bool \<Rightarrow> mock_client ticker \<Rightarrow> bool" where
  "observed b t \<longleftrightarrow> b \<and> wg1 (vars (tk_client t)) = 0"

partial_function (option) run_test ::
  "bool stream \<Rightarrow> mock_client ticker \<Rightarrow> mock_client ticker option" where
  "run_test env t =
     (if tk_mode t = Ticking
      then case fire_test (next_event (observed (shd env) t) t) t of
             None \<Rightarrow> None
           | Some t' \<Rightarrow> run_test (stl env) t'
      else Some t)"

section \<open>One wait\<close>

lemma run_test_ended [simp]: "tk_mode t \<noteq> Ticking \<Longrightarrow> run_test env t = Some t"
  by (subst run_test.simps) simp

lemma fire_test_advance:
  assumes "tk_mode t = Ticking"
  shows "fire_test (next_event False t) t = Some (advance MockClient t)"
proof -
  have "next_event False t \<noteq> Cancel" by (simp add: next_event_def)
  with fire_next_event [OF assms, of MockClient False] show ?thesis
    by (simp add: fire_test_def)
qed

lemma fire_test_next_event:
  assumes "tk_mode t = Ticking"
  shows "fire_test (next_event (observed b t) t) t =
           Some (if observed b t then stop t else advance MockClient t)"
proof (cases "observed b t")
  case True
  with assms show ?thesis
    by (simp add: fire_test_def next_event_def observed_def fire_Cancel stop_def)
next
  case False
  with fire_test_advance [OF assms] show ?thesis by simp
qed

lemma run_test_step:
  "tk_mode t = Ticking \<Longrightarrow>
     run_test env t =
       (if observed (shd env) t then Some (stop t)
        else run_test (stl env) (advance MockClient t))"
  by (subst run_test.simps) (simp add: fire_test_next_event)

lemma run_test_wait:
  "tk_mode t = Ticking \<Longrightarrow> \<not> observed (shd env) t \<Longrightarrow>
     run_test env t = run_test (stl env) (advance MockClient t)"
  by (subst run_test_step) simp_all

lemma run_test_cancel:
  "tk_mode t = Ticking \<Longrightarrow> observed (shd env) t \<Longrightarrow> run_test env t = Some (stop t)"
  by (subst run_test_step) simp_all

lemma first_observation:
  assumes "env !! n"
  obtains m where "env !! m" and "\<forall>i<m. \<not> env !! i"
  using assms exists_least_iff [of "\<lambda>n. env !! n"] by blast

section \<open>The test of a list call that fails\<close>

lemma failed_list_mode [simp]:
  "tk_mode (failed_list_state k md) = md" "tk_pending (failed_list_state k md) = []"
  by (simp_all add: failed_list_state_def)

lemma failed_list_observed [simp]: "0 < k \<Longrightarrow> observed b (failed_list_state k Ticking) = b"
  by (simp add: observed_def failed_list_state_def)

lemma failed_list_advance:
  "0 < k \<Longrightarrow> advance MockClient (failed_list_state k Ticking) = failed_list_state (Suc k) Ticking"
  using failed_list_Tick [of k]
  by (simp add: fire_test_def fire_Tick advance_def failed_list_state_def)

lemma failed_list_stop: "stop (failed_list_state k Ticking) = failed_list_state k Stopped"
  by (simp add: stop_def failed_list_state_def)

lemma failed_list_run_test:
  "0 < k \<Longrightarrow> env !! n \<Longrightarrow> \<forall>i<n. \<not> env !! i \<Longrightarrow>
     run_test env (failed_list_state k Ticking) = Some (failed_list_state (k + n) Stopped)"
proof (induction n arbitrary: env k)
  case 0
  then show ?case
    by (simp add: run_test_cancel failed_list_stop)
next
  case (Suc n)
  from Suc.prems(3) have "\<not> shd env" and "\<forall>i<n. \<not> stl env !! i" by auto
  with Suc.prems(1,2) Suc.IH [of "Suc k" "stl env"] show ?case
    by (simp add: run_test_wait failed_list_advance)
qed

lemma failed_list_returns:
  assumes "run_test env t = Some t'" and "t = failed_list_state k Ticking" and "0 < k"
  shows "\<exists>n. env !! n"
  using assms
proof (induction arbitrary: k rule: run_test.raw_induct [rotated, consumes 1, case_names step])
  case (step run_test' env t t')
  show ?case
  proof (cases "shd env")
    case True
    then have "env !! 0" by simp
    then show ?thesis ..
  next
    case False
    with step.hyps step.prems
    have "run_test' (stl env) (failed_list_state (Suc k) Ticking) = Some t'"
      by (simp add: fire_test_advance failed_list_advance observed_def)
    from step.IH [OF this refl] obtain n where "stl env !! n" by auto
    then have "env !! Suc n" by simp
    then show ?thesis ..
  qed
qed

section \<open>The test of a single candidate\<close>

lemma single_state_pending [simp]: "tk_pending (single_state k j rs cs md) = cs"
  by (simp add: single_state_def)

lemma single_observed [simp]: "observed b (single_state k j rs cs md) \<longleftrightarrow> b \<and> 0 < j"
  by (simp add: observed_def single_state_def test_vars_init_def)

lemma single_stop: "stop (single_state k j rs cs Ticking) = single_state k j rs [] Stopped"
  by (simp add: stop_def single_state_def)

lemma single_advance:
  "advance MockClient (single_state k j rs [] Ticking) =
     single_state (Suc k) j (rs @ [ListRequest]) [test_c] Ticking"
  "advance MockClient (single_state k j rs (test_c # cs) Ticking) =
     single_state k (Suc j) (rs @ [StartRequest test_c]) cs Ticking"
  using fire_test_advance [of "single_state k j rs [] Ticking"]
    fire_test_advance [of "single_state k j rs (test_c # cs) Ticking"]
  by (simp_all add: next_event_def single_Tick single_Next)

lemma single_wait:
  assumes "\<not> (shd env \<and> 0 < j)" and "set cs \<subseteq> {test_c}"
  shows "\<exists>k' j' rs' cs'.
     run_test env (single_state k j rs cs Ticking) =
       run_test (stl env) (single_state k' j' rs' cs' Ticking) \<and>
     j \<le> j' \<and> set cs' \<subseteq> {test_c} \<and>
     started rs' = started rs @ replicate (j' - j) test_c \<and> set rs \<subseteq> set rs'"
proof (cases cs)
  case Nil
  with assms(1) have "run_test env (single_state k j rs cs Ticking) =
      run_test (stl env) (single_state (Suc k) j (rs @ [ListRequest]) [test_c] Ticking)"
    by (simp add: run_test_wait single_advance)
  then show ?thesis
    by (intro exI [of _ "Suc k"] exI [of _ j] exI [of _ "rs @ [ListRequest]"]
        exI [of _ "[test_c]"]) auto
next
  case (Cons c cs')
  with assms(2) have cs: "cs = test_c # cs'" and cs': "set cs' \<subseteq> {test_c}" by auto
  with assms(1) have "run_test env (single_state k j rs cs Ticking) =
      run_test (stl env) (single_state k (Suc j) (rs @ [StartRequest test_c]) cs' Ticking)"
    by (simp add: run_test_wait single_advance)
  with cs' show ?thesis
    by (intro exI [of _ k] exI [of _ "Suc j"] exI [of _ "rs @ [StartRequest test_c]"]
        exI [of _ cs']) auto
qed

lemma single_run_test:
  assumes "0 < j"
  shows "env !! n \<Longrightarrow> set cs \<subseteq> {test_c} \<Longrightarrow>
     \<exists>k' j' rs'. run_test env (single_state k j rs cs Ticking) =
         Some (single_state k' j' rs' [] Stopped) \<and> j \<le> j' \<and>
       started rs' = started rs @ replicate (j' - j) test_c \<and> set rs \<subseteq> set rs' \<and>
       (shd env \<longrightarrow> rs' = rs)"
  using assms
proof (induction n arbitrary: env k j rs cs)
  case 0
  then show ?case
    by (auto simp: run_test_cancel single_stop)
next
  case (Suc n)
  show ?case
  proof (cases "shd env")
    case True
    with Suc.prems(3) show ?thesis
      by (auto simp: run_test_cancel single_stop)
  next
    case False
    then obtain k1 j1 rs1 cs1 where
      wait: "run_test env (single_state k j rs cs Ticking) =
        run_test (stl env) (single_state k1 j1 rs1 cs1 Ticking)"
      and inv: "j \<le> j1" "set cs1 \<subseteq> {test_c}"
        "started rs1 = started rs @ replicate (j1 - j) test_c" "set rs \<subseteq> set rs1"
      using single_wait [OF _ Suc.prems(2), of env j k rs] by auto
    from Suc.prems(1) have "stl env !! n" by simp
    from Suc.IH [OF this inv(2), of j1 k1 rs1] inv(1) Suc.prems(3)
    obtain k' j' rs' where
      "run_test (stl env) (single_state k1 j1 rs1 cs1 Ticking) =
        Some (single_state k' j' rs' [] Stopped)"
      and "j1 \<le> j'" and "started rs' = started rs1 @ replicate (j' - j1) test_c"
      and "set rs1 \<subseteq> set rs'"
      by auto
    with wait inv False show ?thesis
      by (intro exI [of _ k'] exI [of _ j'] exI [of _ rs'])
        (auto simp: replicate_add [symmetric])
  qed
qed

lemma single_returns:
  assumes "run_test env t = Some t'" and "t = single_state k j rs cs Ticking"
    and "0 < j" and "set cs \<subseteq> {test_c}"
  shows "\<exists>n. env !! n"
  using assms
proof (induction arbitrary: k j rs cs
    rule: run_test.raw_induct [rotated, consumes 1, case_names step])
  case (step run_test' env t t')
  show ?case
  proof (cases "shd env")
    case True
    then have "env !! 0" by simp
    then show ?thesis ..
  next
    case False
    with step.hyps step.prems(1)
    have run: "run_test' (stl env) (advance MockClient (single_state k j rs cs Ticking)) = Some t'"
      by (simp add: fire_test_advance observed_def)
    have "\<exists>n. stl env !! n"
    proof (cases cs)
      case Nil
      with run have "run_test' (stl env)
          (single_state (Suc k) j (rs @ [ListRequest]) [test_c] Ticking) = Some t'"
        by (simp add: single_advance)
      from step.IH [OF this refl step.prems(2)] show ?thesis by simp
    next
      case (Cons c cs')
      with step.prems(3) have cs: "cs = test_c # cs'" and cs': "set cs' \<subseteq> {test_c}" by auto
      with run have "run_test' (stl env)
          (single_state k (Suc j) (rs @ [StartRequest test_c]) cs' Ticking) = Some t'"
        by (simp add: single_advance)
      from step.IH [OF this refl _ cs'] show ?thesis by simp
    qed
    then obtain n where "stl env !! n" ..
    then have "env !! Suc n" by simp
    then show ?thesis ..
  qed
qed

section \<open>The test of two different lists\<close>

lemma two_lists_advance:
  "advance MockClient two_lists_listed1 = two_lists_started1"
  "advance MockClient two_lists_started1 = two_lists_listed2"
  "advance MockClient two_lists_listed2 = two_lists_started2"
  "advance MockClient two_lists_started2 = two_lists_listed3"
  "advance MockClient two_lists_listed3 = two_lists_started3"
  by (simp_all add: advance_def two_lists_listed1 two_lists_started1 two_lists_listed2
      two_lists_started2 two_lists_listed3 flip: two_lists_defs)

lemma two_lists_waits:
  "run_test env two_lists_listed1 = run_test (stl env) two_lists_started1"
  "run_test env two_lists_started1 = run_test (stl env) two_lists_listed2"
  "run_test env two_lists_listed2 = run_test (stl env) two_lists_started2"
  "run_test env two_lists_started2 =
     (if shd env then Some (stop two_lists_started2) else run_test (stl env) two_lists_listed3)"
  "run_test env two_lists_listed3 =
     (if shd env then Some (stop two_lists_listed3) else Some two_lists_started3)"
  using run_test_step [of two_lists_listed1 env] run_test_step [of two_lists_started1 env]
    run_test_step [of two_lists_listed2 env] run_test_step [of two_lists_started2 env]
    run_test_step [of two_lists_listed3 env]
  by (simp_all add: observed_def two_lists_advance two_lists_listed1 two_lists_started1
      two_lists_listed2 two_lists_started2 two_lists_listed3 two_lists_started3)

section \<open>The verdicts of the tests\<close>

text \<open>
  C31. The test of a failing list call passes exactly when the cancellation is
  observed. If the loop never observes it, the driver never returns and the test
  hangs in \<^verbatim>\<open>wg2.Wait()\<close>: the loop keeps ticking. If it observes it first at its
  \<open>n\<close>-th wait, the driver returns, the test passes, and the loop has then made one
  list call for the call of the driver and one for each wait before, has logged
  every failure, and has launched nothing.
\<close>

theorem failed_list_test_total:
  "case run_test env (RunTickerTestContainers MockClient client_failed) of
     None \<Rightarrow> \<forall>n. \<not> env !! n
   | Some t \<Rightarrow>
       test_passes t \<and>
       (\<exists>n. env !! n \<and> (\<forall>i<n. \<not> env !! i) \<and>
          Calls (tk_client t) = replicate (Suc n) ListRequest \<and>
          tk_logged t = replicate (Suc n) (ListFailure (ClientError ''Expected :)'')))"
proof (cases "\<exists>n. env !! n")
  case True
  then obtain n where n: "env !! n" "\<forall>i<n. \<not> env !! i"
    using first_observation by blast
  from failed_list_run_test [OF _ n, of 1] n show ?thesis
    by (auto simp: failed_list_init failed_list_passes failed_list_requests)
next
  case False
  with failed_list_returns [of env "failed_list_state 1 Ticking" _ 1] show ?thesis
    by (cases "run_test env (failed_list_state 1 Ticking)") (auto simp: failed_list_init)
qed

theorem failed_list_test_total_witness:
  "\<exists>t. run_test (cancel_at 2) (RunTickerTestContainers MockClient client_failed) = Some t \<and>
     test_passes t"
  using failed_list_test_total [of "cancel_at 2"] cancel_at_snth [of 2]
  by (cases "run_test (cancel_at 2) (RunTickerTestContainers MockClient client_failed)") auto

text \<open>
  C30. The test of a single candidate passes exactly when the cancellation is
  observed after the first launch. The first wait of the loop comes before the
  launch that releases \<^verbatim>\<open>wg1\<close>, so the test has not cancelled yet. If the
  cancellation is observed at a later wait, the driver returns and the test's
  assertions hold, with every launch a launch of \<^verbatim>\<open>My Test Container\<close>; the
  container is launched exactly once when the cancellation is observed at the wait
  right after the launch. If it is never observed the driver does not return.
\<close>

theorem single_candidate_test_total:
  "case run_test env (RunTickerTestContainers MockClient client_single) of
     None \<Rightarrow> \<forall>n. \<not> env !! Suc n
   | Some t \<Rightarrow>
       (\<exists>n. env !! Suc n) \<and> test_passes t \<and>
       set (started (Calls (tk_client t))) = {test_c} \<and>
       (env !! 1 \<longrightarrow> started (Calls (tk_client t)) = [test_c])"
proof -
  let ?rs = "[ListRequest, StartRequest test_c]"
  have first: "run_test env (RunTickerTestContainers MockClient client_single) =
      run_test (stl env) (single_state 1 1 ?rs [] Ticking)"
    using single_advance(2) [of 1 0 "[ListRequest]" "[]"]
    by (simp add: single_init run_test_wait)
  show ?thesis
  proof (cases "\<exists>n. stl env !! n")
    case True
    then obtain n where "stl env !! n" ..
    from single_run_test [OF _ this, of 1 "[]" 1 ?rs] obtain k j rs where
      run: "run_test (stl env) (single_state 1 1 ?rs [] Ticking) = Some (single_state k j rs [] Stopped)"
      and j: "1 \<le> j" and rs: "started rs = test_c # replicate (j - 1) test_c"
        "ListRequest \<in> set rs" "shd (stl env) \<longrightarrow> rs = ?rs"
      by auto
    from j rs have "test_passes (single_state k j rs [] Stopped)"
      by (intro single_state_passes) simp_all
    with first run rs True show ?thesis by auto
  next
    case False
    with single_returns [of "stl env" "single_state 1 1 ?rs [] Ticking" _ 1 1 ?rs "[]"] first
    show ?thesis
      by (cases "run_test (stl env) (single_state 1 1 ?rs [] Ticking)") auto
  qed
qed

theorem single_candidate_test_total_witness:
  "\<exists>t. run_test (cancel_at 1) (RunTickerTestContainers MockClient client_single) = Some t \<and>
     test_passes t \<and> started (Calls (tk_client t)) = [test_c]"
  using single_candidate_test_total [of "cancel_at 1"]
  by (cases "run_test (cancel_at 1) (RunTickerTestContainers MockClient client_single)") auto

text \<open>
  C29. The verdict of the test of two different lists is decided by a race. The
  driver always returns or panics in this test. The launch of \<^verbatim>\<open>c2\<close> is the third
  step of the loop and releases \<^verbatim>\<open>wg1\<close>. If the cancellation is observed at one
  of the next two waits (before the third tick, or before the launch of the third
  pass), the test passes and \<^verbatim>\<open>c1\<close> and \<^verbatim>\<open>c2\<close> have been launched once each, in
  this order. If it is observed at neither, the third pass launches \<^verbatim>\<open>c2\<close> again,
  the function hooked into \<^verbatim>\<open>StartContainerFrom\<close> calls \<^verbatim>\<open>wg1.Done()\<close> a second
  time, and the driver's goroutine panics.
\<close>

theorem two_lists_test_verdict:
  "\<exists>t. run_test env (RunTickerTestContainers MockClient client_two_lists) = Some t \<and>
     (if env !! 3 \<or> env !! 4
      then test_two_lists_passes t \<and> started (Calls (tk_client t)) = [test_c1, test_c2]
      else tk_mode t = Panicked (PanicValue ''sync: negative WaitGroup counter'') \<and>
           started (tk_requests t) = [test_c1, test_c2, test_c2])"
proof -
  have "run_test env two_lists_listed1 =
      Some (if env !! 3 then stop two_lists_started2
            else if env !! 4 then stop two_lists_listed3 else two_lists_started3)"
    by (simp add: two_lists_waits eval_nat_numeral)
  then show ?thesis
    by (auto simp: two_lists_listed1_def two_lists_started2_passes two_lists_listed3_passes
        two_lists_started2_Calls two_lists_listed3_Calls two_lists_started3)
qed

end
