(* ===== verification/Goroutines.thy ===== *)
theory Goroutines
  imports Ticker_Test
begin

text \<open>
  The two goroutines of a test of \<^verbatim>\<open>src/actions/ticker_test.go\<close>, statement by
  statement. The test's own goroutine starts a second one with a \<^verbatim>\<open>go\<close> statement,
  waits for \<^verbatim>\<open>wg1\<close>, cancels the context, waits for \<^verbatim>\<open>wg2\<close> and makes its
  assertions; the second goroutine calls the driver and, when the driver has
  returned, \<^verbatim>\<open>wg2.Done()\<close>. The three tests have this skeleton in common. A state
  holds the position of each goroutine, whether the context is cancelled, and the
  state of the driver with the mock client and the variables of the test; a step is
  one statement of one goroutine, or one event of the driver's loop, and the
  cancellation is an event of the loop only when the context is cancelled. A panic
  in a goroutine ends the program.

  Theory \<open>Ticker_Test\<close> describes a test by the runs of the driver alone, with the
  cancellation allowed when the counter of \<^verbatim>\<open>wg1\<close> is zero, and evaluates the
  assertions on the state in which the driver has stopped. This theory shows that
  this is what the two goroutines do in every interleaving: the assertions are made
  only after the driver has returned, what they find is the state of a run of
  \<open>exec_test\<close>, and the goroutines do not block each other for ever.
\<close>

section \<open>The goroutines and their statements\<close>

datatype main_pc = At_go | At_wg1_Wait | At_cancel | At_wg2_Wait | At_asserts | Finished

datatype child_pc = Unborn | Starting | In_driver | At_wg2_Done | Ended

record goroutines =
  main_pc :: main_pc
  child_pc :: child_pc
  ctx_done :: bool
  driver :: "mock_client ticker"

datatype action =
  Go_func | Wg1_Wait | Cancel_ctx | Wg2_Wait | Asserts | Call_driver | Select event |
  Driver_return | Wg2_Done

definition start :: "mock_client \<Rightarrow> goroutines" where
  "start cl = \<lparr>main_pc = At_go, child_pc = Unborn, ctx_done = False, driver = ticker_init cl\<rparr>"

definition set_vars :: "test_vars \<Rightarrow> mock_client ticker \<Rightarrow> mock_client ticker" where
  "set_vars v t = t\<lparr>tk_client := (tk_client t)\<lparr>vars := v\<rparr>\<rparr>"

definition statement :: "action \<Rightarrow> goroutines \<Rightarrow> goroutines option" where
  "statement a r =
     (case a of
        Go_func \<Rightarrow>
          if main_pc r = At_go then Some (r\<lparr>main_pc := At_wg1_Wait, child_pc := Starting\<rparr>)
          else None
      | Wg1_Wait \<Rightarrow>
          if main_pc r = At_wg1_Wait \<and> wg1 (vars (tk_client (driver r))) = 0
          then Some (r\<lparr>main_pc := At_cancel\<rparr>) else None
      | Cancel_ctx \<Rightarrow>
          if main_pc r = At_cancel then Some (r\<lparr>main_pc := At_wg2_Wait, ctx_done := True\<rparr>)
          else None
      | Wg2_Wait \<Rightarrow>
          if main_pc r = At_wg2_Wait \<and> wg2 (vars (tk_client (driver r))) = 0
          then Some (r\<lparr>main_pc := At_asserts\<rparr>) else None
      | Asserts \<Rightarrow> if main_pc r = At_asserts then Some (r\<lparr>main_pc := Finished\<rparr>) else None
      | Call_driver \<Rightarrow>
          if child_pc r = Starting
          then Some (r\<lparr>child_pc := In_driver,
                        driver := RunTickerTestContainers MockClient (tk_client (driver r))\<rparr>)
          else None
      | Select ev \<Rightarrow>
          if child_pc r = In_driver \<and> (ev = Cancel \<longrightarrow> ctx_done r)
          then map_option (\<lambda>t. r\<lparr>driver := t\<rparr>) (fire MockClient ev (driver r))
          else None
      | Driver_return \<Rightarrow>
          if child_pc r = In_driver \<and> tk_mode (driver r) = Stopped
          then Some (r\<lparr>child_pc := At_wg2_Done\<rparr>) else None
      | Wg2_Done \<Rightarrow>
          if child_pc r = At_wg2_Done
          then (case wg2_Done (vars (tk_client (driver r))) of
                  Inl p \<Rightarrow> Some (r\<lparr>driver := crash p (driver r)\<rparr>)
                | Inr v \<Rightarrow> Some (r\<lparr>child_pc := Ended, driver := set_vars v (driver r)\<rparr>))
          else None)"

text \<open>A step of the program: no goroutine moves once one of them has panicked.\<close>

definition step :: "action \<Rightarrow> goroutines \<Rightarrow> goroutines option" where
  "step a r = (case tk_mode (driver r) of Panicked p \<Rightarrow> None | _ \<Rightarrow> statement a r)"

fun steps :: "action list \<Rightarrow> goroutines \<Rightarrow> goroutines option" where
  "steps [] r = Some r"
| "steps (a # as) r = (case step a r of None \<Rightarrow> None | Some r' \<Rightarrow> steps as r')"

inductive reachable :: "mock_client \<Rightarrow> goroutines \<Rightarrow> bool" for cl :: mock_client where
  reach_start: "reachable cl (start cl)"
| reach_step: "reachable cl r \<Longrightarrow> step a r = Some r' \<Longrightarrow> reachable cl r'"

text \<open>The assertions of the first two tests and those of the third.\<close>

definition asserts_hold :: "goroutines \<Rightarrow> bool" where
  "asserts_hold r \<longleftrightarrow>
     \<not> failed (vars (tk_client (driver r))) \<and> touch (vars (tk_client (driver r))) \<and>
     AssertExpectations (tk_client (driver r))"

definition asserts_two_lists_hold :: "goroutines \<Rightarrow> bool" where
  "asserts_two_lists_hold r \<longleftrightarrow>
     \<not> failed (vars (tk_client (driver r))) \<and>
     touchListContainers (vars (tk_client (driver r))) \<and>
     touchStartContainerFrom (vars (tk_client (driver r))) \<and>
     AssertExpectations (tk_client (driver r))"

section \<open>Functions hooked into the calls that respect the wait groups\<close>

text \<open>
  The functions that the tests hook into the calls of the client leave \<^verbatim>\<open>wg2\<close>
  alone, and call \<^verbatim>\<open>wg1.Done()\<close> at most: once the counter of \<^verbatim>\<open>wg1\<close> is zero it
  stays zero, since a further \<^verbatim>\<open>Done\<close> panics.
\<close>

definition keeps :: "test_vars \<Rightarrow> test_vars \<Rightarrow> bool" where
  "keeps v v' \<longleftrightarrow> wg2 v' = wg2 v \<and> (wg1 v = 0 \<longrightarrow> wg1 v' = 0)"

definition sync_hook :: "('a \<Rightarrow> test_vars \<Rightarrow> test_vars go_result) \<Rightarrow> bool" where
  "sync_hook f \<longleftrightarrow> (\<forall>a v v'. f a v = Inr v' \<longrightarrow> keeps v v')"

definition sync_calls :: "('a, 'r) expected_call list \<Rightarrow> bool" where
  "sync_calls es \<longleftrightarrow> list_all (\<lambda>e. case RunFn e of None \<Rightarrow> True | Some f \<Rightarrow> sync_hook f) es"

definition sync_client :: "mock_client \<Rightarrow> bool" where
  "sync_client m \<longleftrightarrow>
     sync_calls (ExpectedListContainers m) \<and> sync_calls (ExpectedStartContainerFrom m)"

text \<open>One step of the driver's loop: the client stays as above, and so do the counters.\<close>

definition sync_step :: "mock_client ticker \<Rightarrow> mock_client ticker \<Rightarrow> bool" where
  "sync_step t t' \<longleftrightarrow>
     sync_client (tk_client t') \<and> keeps (vars (tk_client t)) (vars (tk_client t'))"

text \<open>
  The invariant of the reachable states: where the goroutines are, relative to one
  another and to the counters of the wait groups.
\<close>

definition in_sync :: "goroutines \<Rightarrow> bool" where
  "in_sync r \<longleftrightarrow>
     sync_client (tk_client (driver r)) \<and>
     (child_pc r = Unborn \<longleftrightarrow> main_pc r = At_go) \<and>
     (ctx_done r \<longleftrightarrow> main_pc r \<in> {At_wg2_Wait, At_asserts, Finished}) \<and>
     (main_pc r \<notin> {At_go, At_wg1_Wait} \<longrightarrow> wg1 (vars (tk_client (driver r))) = 0) \<and>
     wg2 (vars (tk_client (driver r))) = (if child_pc r = Ended then 0 else 1) \<and>
     (main_pc r \<in> {At_asserts, Finished} \<longrightarrow> child_pc r = Ended) \<and>
     (child_pc r \<in> {Unborn, Starting} \<longrightarrow> tk_mode (driver r) = Ticking) \<and>
     (child_pc r \<in> {At_wg2_Done, Ended} \<longrightarrow> tk_mode (driver r) = Stopped) \<and>
     (tk_mode (driver r) = Stopped \<longrightarrow> ctx_done r)"

text \<open>
  The run of \<open>exec_test\<close> that a state of the goroutines stands for: before the call
  of the driver nothing has happened, during the call the driver is in the state of
  such a run, and after \<^verbatim>\<open>wg2.Done()\<close> it is in the final state of such a run with
  the counter of \<^verbatim>\<open>wg2\<close> decreased.
\<close>

definition driven :: "mock_client \<Rightarrow> goroutines \<Rightarrow> bool" where
  "driven cl r \<longleftrightarrow>
     (case child_pc r of
        Unborn \<Rightarrow> driver r = ticker_init cl
      | Starting \<Rightarrow> driver r = ticker_init cl
      | Ended \<Rightarrow>
          (\<exists>evs t v. exec_test evs (RunTickerTestContainers MockClient cl) = Some t \<and>
             tk_mode t = Stopped \<and> wg2_Done (vars (tk_client t)) = Inr v \<and>
             driver r = set_vars v t)
      | _ \<Rightarrow> (\<exists>evs. exec_test evs (RunTickerTestContainers MockClient cl) = Some (driver r)))"

section \<open>The client keeps the wait groups\<close>

lemma keeps_refl [simp]: "keeps v v"
  by (simp add: keeps_def)

lemma keeps_trans: "keeps v v' \<Longrightarrow> keeps v' v'' \<Longrightarrow> keeps v v''"
  by (simp add: keeps_def)

lemma RunFn_count_call [simp]: "RunFn (count_call e) = RunFn e"
  by (simp add: count_call_def)

lemma sync_calls_simps [simp]:
  "sync_calls []"
  "sync_calls (e # es) \<longleftrightarrow>
     (case RunFn e of None \<Rightarrow> True | Some f \<Rightarrow> sync_hook f) \<and> sync_calls es"
  by (simp_all add: sync_calls_def)

lemma run_hook_sync:
  assumes "case RunFn e of None \<Rightarrow> True | Some f \<Rightarrow> sync_hook f" and "run_hook e a v = Inr v'"
  shows "keeps v v'"
  using assms by (auto simp: run_hook_def sync_hook_def split: option.splits)

lemma Called_sync:
  "sync_calls es \<Longrightarrow> Called a es v = Inr (r, es', v') \<Longrightarrow> sync_calls es' \<and> keeps v v'"
proof (induction es arbitrary: es')
  case Nil
  then show ?case by simp
next
  case (Cons e es)
  show ?case
  proof (cases "- 1 < Repeatability e")
    case True
    with Cons.prems run_hook_sync [of e a v v'] show ?thesis
      by (auto simp: go_bind_eq_Inr)
  next
    case False
    with Cons.prems obtain es'' where "Called a es v = Inr (r, es'', v')" "es' = e # es''"
      by (auto simp: go_bind_eq_Inr)
    with Cons.IH [of es''] Cons.prems(1) show ?thesis by simp
  qed
qed

lemma discover_sync:
  assumes "sync_client (tk_client t)"
  shows "sync_step t (discover MockClient t)"
proof (cases "mock_ListContainers (tk_client t)")
  case (Inl p)
  with assms show ?thesis
    by (simp add: discover_def MockClient_def crash_def sync_step_def)
next
  case (Inr x)
  then obtain r es v where
    "Called () (ExpectedListContainers (tk_client t)) (vars (tk_client t)) = Inr (r, es, v)"
    and x: "x = (r, (tk_client t)\<lparr>ExpectedListContainers := es,
      Calls := Calls (tk_client t) @ [ListRequest], vars := v\<rparr>)"
    by (auto simp: mock_ListContainers_def go_bind_eq_Inr)
  from Called_sync [OF _ this(1)] assms have "sync_calls es" "keeps (vars (tk_client t)) v"
    by (simp_all add: sync_client_def)
  with assms Inr x show ?thesis
    by (cases r) (auto simp: discover_def MockClient_def sync_step_def sync_client_def
        split: option.splits)
qed

lemma launch_sync:
  assumes "sync_client (tk_client t)"
  shows "sync_step t (launch MockClient c t)"
proof (cases "mock_StartContainerFrom c (tk_client t)")
  case (Inl p)
  with assms show ?thesis
    by (simp add: launch_def MockClient_def crash_def sync_step_def)
next
  case (Inr x)
  then obtain r es v where
    "Called c (ExpectedStartContainerFrom (tk_client t)) (vars (tk_client t)) = Inr (r, es, v)"
    and x: "x = (r, (tk_client t)\<lparr>ExpectedStartContainerFrom := es,
      Calls := Calls (tk_client t) @ [StartRequest c], vars := v\<rparr>)"
    by (auto simp: mock_StartContainerFrom_def go_bind_eq_Inr)
  from Called_sync [OF _ this(1)] assms have "sync_calls es" "keeps (vars (tk_client t)) v"
    by (simp_all add: sync_client_def)
  with assms Inr x show ?thesis
    by (auto simp: launch_def MockClient_def sync_step_def sync_client_def)
qed

lemma fire_sync:
  assumes "sync_client (tk_client t)" and "fire MockClient ev t = Some t'"
  shows "sync_step t t'"
proof (cases ev)
  case Tick
  with assms discover_sync [OF assms(1)] show ?thesis
    by (auto simp: fire_Tick split: if_splits)
next
  case Next
  with assms(2) obtain c cs where t': "t' = process MockClient c (t\<lparr>tk_pending := cs\<rparr>)"
    by (auto simp: fire_Next split: if_splits list.splits)
  from assms(1) launch_sync [of "t\<lparr>tk_pending := cs\<rparr>" c] show ?thesis
    by (cases "is_candidate c")
      (auto simp: t' process_def crash_def sync_step_def)
next
  case Cancel
  with assms show ?thesis
    by (auto simp: fire_Cancel sync_step_def split: if_splits)
qed

section \<open>The invariant\<close>

lemma set_vars_fields [simp]:
  "tk_mode (set_vars v t) = tk_mode t" "vars (tk_client (set_vars v t)) = v"
  "ExpectedListContainers (tk_client (set_vars v t)) = ExpectedListContainers (tk_client t)"
  "ExpectedStartContainerFrom (tk_client (set_vars v t)) =
     ExpectedStartContainerFrom (tk_client t)"
  "Calls (tk_client (set_vars v t)) = Calls (tk_client t)"
  by (simp_all add: set_vars_def)

lemma step_Some:
  "step a r = Some r' \<longleftrightarrow> (\<forall>p. tk_mode (driver r) \<noteq> Panicked p) \<and> statement a r = Some r'"
  by (cases "tk_mode (driver r)") (simp_all add: step_def)

lemma in_sync_start: "sync_client cl \<Longrightarrow> wg2 (vars cl) = 1 \<Longrightarrow> in_sync (start cl)"
  by (simp add: in_sync_def start_def ticker_init_def)

lemma in_sync_Call:
  assumes "in_sync r" and "child_pc r = Starting"
  shows "in_sync (r\<lparr>child_pc := In_driver,
           driver := RunTickerTestContainers MockClient (tk_client (driver r))\<rparr>)"
proof -
  from assms(1) have "sync_client (tk_client (ticker_init (tk_client (driver r))))"
    by (simp add: in_sync_def ticker_init_def)
  from discover_sync [OF this] assms
    discover_Stopped [of MockClient "ticker_init (tk_client (driver r))"]
  show ?thesis
    by (auto simp: in_sync_def RunTickerTestContainers_def sync_step_def keeps_def
        ticker_init_def)
qed

lemma in_sync_Select:
  assumes "in_sync r" and "child_pc r = In_driver" and "ev = Cancel \<longrightarrow> ctx_done r"
    and "fire MockClient ev (driver r) = Some t"
  shows "in_sync (r\<lparr>driver := t\<rparr>)"
proof -
  from assms(1) have "sync_client (tk_client (driver r))" by (simp add: in_sync_def)
  from fire_sync [OF this assms(4)] fire_Stopped [OF assms(4)] assms(1-3) show ?thesis
    by (auto simp: in_sync_def sync_step_def keeps_def)
qed

lemma in_sync_Wg2_Done:
  assumes "in_sync r" and "child_pc r = At_wg2_Done"
  shows "\<exists>v. wg2_Done (vars (tk_client (driver r))) = Inr v \<and>
           in_sync (r\<lparr>child_pc := Ended, driver := set_vars v (driver r)\<rparr>)"
  using assms
  by (auto simp: in_sync_def wg2_Done_def WaitGroup_Done_def sync_client_def)

lemma in_sync_step:
  assumes "in_sync r" and "step a r = Some r'"
  shows "in_sync r'"
proof (cases a)
  case Call_driver
  with assms in_sync_Call [of r] show ?thesis
    by (auto simp: step_Some statement_def split: if_splits)
next
  case (Select ev)
  with assms in_sync_Select [of r ev] show ?thesis
    by (auto simp: step_Some statement_def split: if_splits)
next
  case Wg2_Done
  with assms in_sync_Wg2_Done [of r] show ?thesis
    by (auto simp: step_Some statement_def split: if_splits)
qed (use assms in \<open>auto simp: step_Some statement_def in_sync_def split: if_splits\<close>)

lemma reachable_in_sync:
  assumes "sync_client cl" and "wg2 (vars cl) = 1"
  shows "reachable cl r \<Longrightarrow> in_sync r"
  by (induction rule: reachable.induct) (auto intro: in_sync_start assms in_sync_step)

section \<open>The runs of the driver in the interleavings\<close>

lemma driven_start: "driven cl (start cl)"
  by (simp add: driven_def start_def)

lemma driven_frame [simp]:
  "driven cl (r\<lparr>main_pc := m\<rparr>) = driven cl r" "driven cl (r\<lparr>ctx_done := b\<rparr>) = driven cl r"
  by (cases "child_pc r"; simp add: driven_def)+

lemma exec_test_snoc:
  assumes "exec_test evs t = Some t'" and "fire_test ev t' = Some t''"
  shows "exec_test (evs @ [ev]) t = Some t''"
  using assms by (simp add: exec_test_append)

lemma driven_step:
  assumes "in_sync r" and "driven cl r" and "step a r = Some r'"
  shows "driven cl r'"
proof (cases a)
  case Call_driver
  with assms(2,3) have "driver r' = RunTickerTestContainers MockClient cl" "child_pc r' = In_driver"
    by (auto simp: step_Some statement_def driven_def ticker_init_def split: if_splits)
  then show ?thesis
    by (auto simp: driven_def intro: exI [of _ "[]"])
next
  case (Select ev)
  with assms(3) have r': "child_pc r = In_driver" "ev = Cancel \<longrightarrow> ctx_done r"
    "fire MockClient ev (driver r) = Some (driver r')" "child_pc r' = In_driver"
    by (auto simp: step_Some statement_def split: if_splits)
  with assms(1) have "fire_test ev (driver r) = Some (driver r')"
    by (auto simp: fire_test_def in_sync_def)
  with assms(2) r' exec_test_snoc show ?thesis
    by (fastforce simp: driven_def)
next
  case Wg2_Done
  with assms(3) in_sync_Wg2_Done [OF assms(1)] obtain v where
    "child_pc r = At_wg2_Done" "wg2_Done (vars (tk_client (driver r))) = Inr v"
    "r' = r\<lparr>child_pc := Ended, driver := set_vars v (driver r)\<rparr>"
    by (auto simp: step_Some statement_def split: if_splits)
  with assms(1,2) show ?thesis
    by (auto simp: driven_def in_sync_def)
next
  case Go_func
  with assms show ?thesis
    by (auto simp: step_Some statement_def in_sync_def driven_def split: if_splits)
next
  case Driver_return
  with assms(2,3) show ?thesis
    by (auto simp: step_Some statement_def driven_def split: if_splits)
qed (use assms in \<open>auto simp: step_Some statement_def split: if_splits\<close>)

lemma reachable_driven:
  assumes "sync_client cl" and "wg2 (vars cl) = 1"
  shows "reachable cl r \<Longrightarrow> driven cl r"
proof (induction rule: reachable.induct)
  case reach_start
  show ?case by (rule driven_start)
next
  case (reach_step r a r')
  from reachable_in_sync [OF assms reach_step.hyps(1)] reach_step.IH reach_step.hyps(2)
  show ?case by (rule driven_step)
qed

lemma verdict_set_vars:
  assumes "wg2_Done (vars (tk_client t)) = Inr v" and "wg2 v = 0" and "tk_mode t = Stopped"
    and "driver r = set_vars v t"
  shows "asserts_hold r \<longleftrightarrow> test_passes t"
    "asserts_two_lists_hold r \<longleftrightarrow> test_two_lists_passes t"
  using assms
  by (auto simp: asserts_hold_def asserts_two_lists_hold_def verdict_defs wg2_Done_def
      go_bind_eq_Inr)

lemma steps_reachable: "reachable cl r \<Longrightarrow> steps as r = Some r' \<Longrightarrow> reachable cl r'"
  by (induction as arbitrary: r) (auto intro: reach_step split: option.splits)

section \<open>The interleaving for a run of the driver\<close>

lemma exec_test_Cancel:
  "exec_test evs t = Some t' \<Longrightarrow> Cancel \<in> set evs \<Longrightarrow> tk_mode t' = Stopped"
proof (induction evs arbitrary: t)
  case Nil
  then show ?case by simp
next
  case (Cons ev evs)
  from Cons.prems(1) obtain u where u: "fire_test ev t = Some u" "exec_test evs u = Some t'"
    by (auto split: option.splits)
  show ?case
  proof (cases "ev = Cancel")
    case True
    with u(1) have "tk_mode u = Stopped"
      by (auto simp: fire_test_def fire_Cancel split: if_splits)
    with u(2) show ?thesis by (simp add: exec_test_not_Ticking)
  next
    case False
    with Cons.prems(2) Cons.IH [OF u(2)] show ?thesis by simp
  qed
qed

lemma steps_Select:
  assumes "Cancel \<notin> set evs"
  shows "exec_test evs (driver r) = Some t \<Longrightarrow> child_pc r = In_driver \<Longrightarrow>
     steps (map Select evs) r = Some (r\<lparr>driver := t\<rparr>)"
  using assms
proof (induction evs arbitrary: r)
  case Nil
  then show ?case by simp
next
  case (Cons ev evs)
  from Cons.prems(1) obtain u where u: "fire_test ev (driver r) = Some u" "exec_test evs u = Some t"
    by (auto split: option.splits)
  with Cons.prems(2,3) have "step (Select ev) r = Some (r\<lparr>driver := u\<rparr>)"
    by (cases "tk_mode (driver r)") (auto simp: step_def statement_def fire_test_def)
  with Cons.IH [of "r\<lparr>driver := u\<rparr>"] u(2) Cons.prems(2,3) show ?case by simp
qed

lemma exec_test_Stopped:
  assumes "exec_test evs (RunTickerTestContainers MockClient cl) = Some t" and "tk_mode t = Stopped"
  obtains evs' u where "evs = evs' @ [Cancel]" "Cancel \<notin> set evs'"
    "exec_test evs' (RunTickerTestContainers MockClient cl) = Some u"
    "tk_mode u = Ticking" "wg1 (vars (tk_client u)) = 0" "fire MockClient Cancel u = Some t"
proof (cases evs rule: rev_cases)
  case Nil
  with assms discover_Stopped [of MockClient "ticker_init cl"] show ?thesis
    by (simp add: RunTickerTestContainers_def ticker_init_def)
next
  case (snoc evs' ev)
  with assms(1) obtain u where u: "exec_test evs' (RunTickerTestContainers MockClient cl) = Some u"
    "fire_test ev u = Some t"
    by (auto simp: exec_test_append split: option.splits)
  then have fire: "fire MockClient ev u = Some t" "tk_mode u = Ticking"
    by (auto simp: fire_test_def fire_def split: if_splits)
  from fire_Stopped [OF fire(1) assms(2)] have ev: "ev = Cancel" .
  with u(2) have "wg1 (vars (tk_client u)) = 0"
    by (auto simp: fire_test_def split: if_splits)
  moreover from exec_test_Cancel [OF u(1)] fire(2) have "Cancel \<notin> set evs'" by auto
  ultimately show ?thesis using snoc ev u(1) fire by (intro that) simp_all
qed

section \<open>The clients of the three tests\<close>

lemma touch_once_keeps: "touch_once v = Inr v' \<Longrightarrow> keeps v v'"
  by (auto simp: touch_once_def keeps_def sync_defs split: if_splits)

lemma sync_hooks:
  "sync_hook run_failed_ListContainers" "sync_hook run_single_StartContainerFrom"
  "sync_hook run_first_StartContainerFrom" "sync_hook run_second_ListContainers"
  "sync_hook run_second_StartContainerFrom"
  by (auto simp: sync_hook_def run_failed_ListContainers_def run_single_StartContainerFrom_def
      run_first_StartContainerFrom_def run_second_ListContainers_def
      run_second_StartContainerFrom_def go_bind_eq_Inr keeps_def sync_defs assert_Equal_def
      Let_def dest!: touch_once_keeps split: if_splits)

lemma sync_clients:
  "sync_client client_failed" "sync_client client_single" "sync_client client_two_lists"
  by (simp_all add: sync_client_def client_failed_def client_single_def client_two_lists_def
      expected_call_defs sync_hooks)

lemma wg2_clients:
  "wg2 (vars client_failed) = 1" "wg2 (vars client_single) = 1"
  "wg2 (vars client_two_lists) = 1"
  by (simp_all add: client_failed_def client_single_def client_two_lists_def test_vars_init_def)

lemma steps_append:
  "steps (as @ bs) r = (case steps as r of None \<Rightarrow> None | Some r' \<Rightarrow> steps bs r')"
  by (induction as arbitrary: r) (simp_all split: option.splits)

lemma steps_appendI:
  "steps as r = Some r' \<Longrightarrow> steps bs r' = Some r'' \<Longrightarrow> steps (as @ bs) r = Some r''"
  by (simp add: steps_append)

lemma failed_list_schedule:
  "\<exists>r. steps [Go_func, Call_driver, Wg1_Wait, Cancel_ctx, Select Cancel, Driver_return, Wg2_Done,
         Wg2_Wait, Asserts] (start client_failed) = Some r \<and>
       main_pc r = Finished \<and> asserts_hold r"
proof -
  have "steps [Go_func, Call_driver] (start client_failed) =
      Some \<lparr>main_pc = At_wg1_Wait, child_pc = In_driver, ctx_done = False,
            driver = failed_list_state 1 Ticking\<rparr>"
    by (simp add: step_def statement_def start_def ticker_init_def failed_list_init)
  moreover have "\<exists>r. steps [Wg1_Wait, Cancel_ctx, Select Cancel, Driver_return, Wg2_Done, Wg2_Wait,
        Asserts] \<lparr>main_pc = At_wg1_Wait, child_pc = In_driver, ctx_done = False,
            driver = failed_list_state 1 Ticking\<rparr> = Some r \<and>
      main_pc r = Finished \<and> asserts_hold r"
    by (simp add: step_def statement_def fire_Cancel failed_list_state_def sync_defs
        test_vars_init_def asserts_hold_def set_vars_def AssertExpectations_def
        expectation_met_def client_failed_def expected_call_defs)
  ultimately show ?thesis
    using steps_append [of "[Go_func, Call_driver]" _ "start client_failed"] by simp
qed

section \<open>What the goroutines establish\<close>

text \<open>
  C32. The assertions of a test are made on the final state of a run of the driver.
  Whatever the interleaving of the two goroutines, when the test's own goroutine is
  at its assertions the other goroutine has ended: the driver has returned and
  \<^verbatim>\<open>wg2.Done()\<close> is over. The state the assertions read is the state in which a run
  of the driver, with the cancellation after \<^verbatim>\<open>wg1\<close> was released, has stopped,
  and the assertions hold exactly when the test passes on that run. This needs of
  the functions hooked into the client's calls only that they leave \<^verbatim>\<open>wg2\<close> alone
  and do nothing to \<^verbatim>\<open>wg1\<close> but call \<^verbatim>\<open>Done\<close>.
\<close>

theorem asserts_after_return:
  assumes "sync_client cl" and "wg2 (vars cl) = 1" and "reachable cl r"
    and "main_pc r = At_asserts \<or> main_pc r = Finished"
  shows "child_pc r = Ended \<and>
         (\<exists>evs t. exec_test evs (RunTickerTestContainers MockClient cl) = Some t \<and>
            tk_mode t = Stopped \<and> tk_requests (driver r) = tk_requests t \<and>
            (asserts_hold r \<longleftrightarrow> test_passes t) \<and>
            (asserts_two_lists_hold r \<longleftrightarrow> test_two_lists_passes t))"
proof -
  from reachable_in_sync [OF assms(1-3)] assms(4)
  have ended: "child_pc r = Ended" and wg2: "wg2 (vars (tk_client (driver r))) = 0"
    by (auto simp: in_sync_def)
  with reachable_driven [OF assms(1-3)] obtain evs t v where
    run: "exec_test evs (RunTickerTestContainers MockClient cl) = Some t" "tk_mode t = Stopped"
    and v: "wg2_Done (vars (tk_client t)) = Inr v" "driver r = set_vars v t"
    by (auto simp: driven_def)
  from v wg2 verdict_set_vars [OF v(1) _ run(2) v(2)]
  have "asserts_hold r \<longleftrightarrow> test_passes t"
    "asserts_two_lists_hold r \<longleftrightarrow> test_two_lists_passes t"
    by simp_all
  with ended run v(2) show ?thesis
    by (auto simp: set_vars_def)
qed

theorem asserts_after_return_witness:
  "\<exists>r evs t. steps [Go_func, Call_driver, Wg1_Wait, Cancel_ctx, Select Cancel, Driver_return,
       Wg2_Done, Wg2_Wait, Asserts] (start client_failed) = Some r \<and>
     main_pc r = Finished \<and> child_pc r = Ended \<and>
     exec_test evs (RunTickerTestContainers MockClient client_failed) = Some t \<and>
     test_passes t"
proof -
  from failed_list_schedule obtain r where
    r: "steps [Go_func, Call_driver, Wg1_Wait, Cancel_ctx, Select Cancel, Driver_return,
         Wg2_Done, Wg2_Wait, Asserts] (start client_failed) = Some r"
      "main_pc r = Finished" "asserts_hold r"
    by blast
  from steps_reachable [OF reach_start r(1)] r(2)
    asserts_after_return [OF sync_clients(1) wg2_clients(1), of r] r
  show ?thesis by blast
qed

text \<open>
  Every run of the driver is the run of an interleaving. For every run of the
  driver that ends with the cancellation, taken when the counter of \<^verbatim>\<open>wg1\<close> is
  zero, the two goroutines have an interleaving in which the driver makes these
  steps and the test finishes; its assertions then hold exactly when the test
  passes on the run. With the theorem before, the runs of \<open>exec_test\<close> and the
  interleavings of the goroutines give the same verdicts.
\<close>

theorem run_has_interleaving:
  assumes "sync_client cl" and "wg2 (vars cl) = 1"
    and "exec_test evs (RunTickerTestContainers MockClient cl) = Some t" and "tk_mode t = Stopped"
  shows "\<exists>as r. steps as (start cl) = Some r \<and> main_pc r = Finished \<and>
           tk_requests (driver r) = tk_requests t \<and>
           (asserts_hold r \<longleftrightarrow> test_passes t) \<and>
           (asserts_two_lists_hold r \<longleftrightarrow> test_two_lists_passes t)"
proof -
  from assms(3,4) obtain evs' u where evs': "Cancel \<notin> set evs'"
    "exec_test evs' (RunTickerTestContainers MockClient cl) = Some u"
    and u: "tk_mode u = Ticking" "wg1 (vars (tk_client u)) = 0"
      "fire MockClient Cancel u = Some t"
    by (rule exec_test_Stopped)
  let ?r0 = "\<lparr>main_pc = At_wg1_Wait, child_pc = In_driver, ctx_done = False,
    driver = RunTickerTestContainers MockClient cl\<rparr>"
  let ?r1 = "\<lparr>main_pc = At_wg2_Wait, child_pc = At_wg2_Done, ctx_done = True, driver = t\<rparr>"
  let ?as = "[Go_func, Call_driver] @ map Select evs' @
    [Wg1_Wait, Cancel_ctx, Select Cancel, Driver_return]"
  have a: "steps [Go_func, Call_driver] (start cl) = Some ?r0"
    by (simp add: step_def statement_def start_def ticker_init_def)
  from steps_Select [OF evs'(1), of ?r0 u] evs'(2)
  have b: "steps (map Select evs') ?r0 = Some (?r0\<lparr>driver := u\<rparr>)" by simp
  from u assms(4)
  have c: "steps [Wg1_Wait, Cancel_ctx, Select Cancel, Driver_return] (?r0\<lparr>driver := u\<rparr>) =
      Some ?r1"
    by (simp add: step_def statement_def)
  note r1 = steps_appendI [OF a steps_appendI [OF b c]]
  from reachable_in_sync [OF assms(1,2) steps_reachable [OF reach_start r1]]
  obtain v where v: "wg2_Done (vars (tk_client t)) = Inr v" "wg2 v = 0"
    by (auto simp: in_sync_def wg2_Done_def WaitGroup_Done_def)
  let ?r2 = "\<lparr>main_pc = Finished, child_pc = Ended, ctx_done = True, driver = set_vars v t\<rparr>"
  from v assms(4) have "steps [Wg2_Done, Wg2_Wait, Asserts] ?r1 = Some ?r2"
    by (simp add: step_def statement_def)
  note run = steps_appendI [OF r1 this]
  have "main_pc ?r2 = Finished" "tk_requests (driver ?r2) = tk_requests t"
    by (simp_all add: set_vars_def)
  with run verdict_set_vars [OF v assms(4), of ?r2] show ?thesis
    by (intro exI [of _ "?as @ [Wg2_Done, Wg2_Wait, Asserts]"] exI [of _ ?r2] conjI)
      (simp_all del: steps.simps)
qed

theorem run_has_interleaving_witness:
  "\<exists>as r. steps as (start client_failed) = Some r \<and> main_pc r = Finished \<and> asserts_hold r"
proof -
  have "exec_test [Tick, Cancel] (RunTickerTestContainers MockClient client_failed) =
      Some (failed_list_state (Suc 1) Stopped)"
    by (simp add: failed_list_init failed_list_Tick failed_list_Cancel)
  from run_has_interleaving [OF sync_clients(1) wg2_clients(1) this]
    failed_list_passes [of "Suc 1"]
  show ?thesis by (auto simp: failed_list_state_def)
qed



end
