(* ===== verification/Launch.thy ===== *)
theory Launch
  imports Ticker_Loop Container_Methods
begin

text \<open>
  The polling loop together with the two methods that prepare a launch. The
  methods \<^verbatim>\<open>runtimeConfig\<close> and \<^verbatim>\<open>hostConfig\<close> of
  \<^verbatim>\<open>src/container/container.go\<close> are unexported: their caller is the runtime
  client of the same package, whose \<^verbatim>\<open>StartContainerFrom\<close> submits what they
  return (specification 4.1 and 6). The client's code is not among the sources, so
  \<open>preparing_client\<close> is the least client that does this: it lists a fixed set of
  snapshots, and a launch runs the two methods on the snapshot and records the
  create request. With it the theory shows what the loop submits for complete
  snapshots, and what happens to the loop when a candidate has no image, as the
  containers of \<^verbatim>\<open>src/actions/ticker_test.go\<close> have none.
\<close>

section \<open>The client that prepares its launches\<close>

type_synonym create_request = "ContainerConfig \<times> HostConfig"

definition prepare :: "Container \<Rightarrow> create_request go_result" where
  "prepare c =
     go_bind (runtimeConfig c) (\<lambda>(config, c).
     go_bind (hostConfig c) (\<lambda>(hc, c).
       Inr (config, hc)))"

definition preparing_client :: "Container list \<Rightarrow> create_request list Client" where
  "preparing_client cs =
     \<lparr>ListContainers = (\<lambda>created. Inr ((cs, None), created)),
      StartContainerFrom = (\<lambda>c created.
        go_bind (prepare c) (\<lambda>r. Inr (None, created @ [r])))\<rparr>"

text \<open>
  What the specification's \<^verbatim>\<open>DeriveOverrideConfig\<close> asks for a complete snapshot:
  the override configuration and the host configuration with every link rewritten.
\<close>

definition override_request :: "Container \<Rightarrow> create_request option" where
  "override_request c =
     (case (containerInfo c, imageInfo c) of
        (Some info, Some img) \<Rightarrow>
          (case (ci_Config info, ii_Config img, ci_HostConfig info) of
             (Some config, Some imageConfig, Some hc) \<Rightarrow>
               Some (DeriveOverrideConfig config imageConfig hc (image_after config imageConfig),
                     hc\<lparr>hc_Links :=
                          map (\<lambda>link. before_first CHR '':'' link @ '':'' @ from_last CHR ''/'' link)
                            (hc_Links hc)\<rparr>)
           | _ \<Rightarrow> None)
      | _ \<Rightarrow> None)"

text \<open>
  The invariant of the loop over this client: it has not panicked, the snapshots of
  the pass are complete, and the create requests are those of the launches so far.
\<close>

definition prepared :: "create_request list ticker \<Rightarrow> bool" where
  "prepared t \<longleftrightarrow>
     (tk_mode t = Ticking \<or> tk_mode t = Stopped) \<and> list_all complete (tk_pending t) \<and>
     map Some (tk_client t) = map override_request (started (tk_requests t))"

section \<open>Preparing one launch\<close>

lemma prepare_complete:
  assumes "complete c"
  shows "\<exists>r. prepare c = Inr r \<and> override_request c = Some r"
proof -
  from assms obtain info config st hc img imageConfig where
    c: "containerInfo c = Some info" "ci_Config info = Some config"
      "imageInfo c = Some img" "ii_Config img = Some imageConfig" "ci_HostConfig info = Some hc"
    and links: "list_all link_ok (hc_Links hc)"
    by (auto simp: complete_iff)
  let ?cfg = "DeriveOverrideConfig config imageConfig hc (image_after config imageConfig)"
  have "hostConfig (c\<lparr>containerInfo := Some (info\<lparr>ci_Config := Some ?cfg\<rparr>)\<rparr>) =
      go_bind (go_mapM rewrite_link (hc_Links hc)) (\<lambda>links.
        Inr (hc\<lparr>hc_Links := links\<rparr>,
             c\<lparr>containerInfo := Some (info\<lparr>ci_Config := Some ?cfg,
                  ci_HostConfig := Some (hc\<lparr>hc_Links := links\<rparr>)\<rparr>)\<rparr>))"
    using c(5) by (simp add: hostConfig_mapM)
  with c links show ?thesis
    by (simp add: prepare_def runtimeConfig_override [OF c] rewrite_links_total
        override_request_def)
qed


lemma complete_wf: "complete c \<Longrightarrow> wf_container c"
  by (simp add: complete_def)

section \<open>The loop over the preparing client\<close>

lemma preparing_client_ops [simp]:
  "ListContainers (preparing_client cs) created = Inr ((cs, None), created)"
  "StartContainerFrom (preparing_client cs) c created =
     go_bind (prepare c) (\<lambda>r. Inr (None, created @ [r]))"
  by (simp_all add: preparing_client_def)

lemma prepared_discover:
  assumes "list_all complete cs" and "prepared t" and "tk_mode t = Ticking"
  shows "prepared (discover (preparing_client cs) t)"
  using assms by (simp add: prepared_def discover_def)

lemma prepared_process:
  assumes "prepared t" and "tk_mode t = Ticking" and "tk_pending t = c # cs'"
  shows "prepared (process (preparing_client cs) c (t\<lparr>tk_pending := cs'\<rparr>))"
proof -
  from assms have c: "complete c" and rest: "list_all complete cs'"
    by (simp_all add: prepared_def)
  from is_candidate_wf [OF complete_wf [OF c]] obtain b where b: "is_candidate c = Inr b" ..
  from prepare_complete [OF c] obtain r where r: "prepare c = Inr r" "override_request c = Some r"
    by blast
  from assms(1,2) rest show ?thesis
    by (cases b) (simp_all add: prepared_def process_def b launch_def r)
qed

lemma prepared_step:
  assumes "list_all complete cs" and "ticker_step (preparing_client cs) t ev t'"
    and "prepared t"
  shows "prepared t'"
  using assms(2,1,3)
proof cases
  case tick
  with assms(1,3) show ?thesis by (simp add: prepared_discover)
next
  case (look c cs')
  with assms(3) show ?thesis by (simp add: prepared_process)
next
  case cancel
  with assms(3) show ?thesis by (simp add: prepared_def)
qed

lemma prepared_run:
  assumes "list_all complete cs"
  shows "ticker_run (preparing_client cs) t evs t' \<Longrightarrow> prepared t \<Longrightarrow> prepared t'"
  by (induction rule: ticker_run.induct) (auto intro: prepared_step [OF assms])

lemma prepared_init:
  "list_all complete cs \<Longrightarrow> prepared (RunTickerTestContainers (preparing_client cs) [])"
  by (simp add: prepared_def RunTickerTestContainers_def discover_def ticker_init_def)

lemma preparing_client_init:
  "RunTickerTestContainers (preparing_client cs) [] =
     \<lparr>tk_mode = Ticking, tk_pending = cs, tk_client = [], tk_requests = [ListRequest],
      tk_logged = []\<rparr>"
  by (simp add: RunTickerTestContainers_def discover_def ticker_init_def)

lemma is_candidate_run_container [simp]: "is_candidate run_container = Inr True"
  by (simp add: is_candidate_eq run_container_candidate)

lemma prepare_run_container: "prepare run_container = Inr (run_override, run_host)"
proof -
  have "hostConfig
      (run_container\<lparr>containerInfo := Some (run_info\<lparr>ci_Config := Some run_override\<rparr>)\<rparr>) =
    Inr (run_host,
      run_container\<lparr>containerInfo := Some (run_info\<lparr>ci_Config := Some run_override\<rparr>)\<rparr>)"
    by (simp add: hostConfig_mapM run_info_def run_host_def)
  then show ?thesis
    by (simp add: prepare_def runtimeConfig_run)
qed

section \<open>What the loop submits\<close>

text \<open>
  C19. The loop submits the override configurations. With a client that prepares a
  launch by \<^verbatim>\<open>runtimeConfig\<close> and \<^verbatim>\<open>hostConfig\<close> and that lists complete
  snapshots, the loop does not panic on any run, and the create requests it has
  submitted are, launch by launch, the override configuration of the specification
  and the host configuration with rewritten links of the container it launched.
\<close>

theorem loop_submits_overrides:
  assumes "list_all complete cs"
    and "ticker_run (preparing_client cs) (RunTickerTestContainers (preparing_client cs) [])
           evs t"
  shows "(tk_mode t = Ticking \<or> tk_mode t = Stopped) \<and>
         map Some (tk_client t) = map override_request (started (tk_requests t))"
  using prepared_run [OF assms(1) assms(2) prepared_init [OF assms(1)]]
  by (simp add: prepared_def)

theorem loop_submits_overrides_witness:
  "ticker_run (preparing_client [run_container])
     (RunTickerTestContainers (preparing_client [run_container]) []) [Next, Cancel]
     \<lparr>tk_mode = Stopped, tk_pending = [], tk_client = [(run_override, run_host)],
      tk_requests = [ListRequest, StartRequest run_container], tk_logged = []\<rparr> \<and>
   override_request run_container = Some (run_override, run_host)"
proof -
  let ?ops = "preparing_client [run_container]"
  let ?t = "\<lparr>tk_mode = Stopped, tk_pending = [], tk_client = [(run_override, run_host)],
      tk_requests = [ListRequest, StartRequest run_container], tk_logged = []\<rparr>"
  have complete: "list_all complete [run_container]"
    by (simp add: complete_iff run_container_fields) (simp add: run_info_def run_host_def)
  have run: "ticker_run ?ops (RunTickerTestContainers ?ops []) [Next, Cancel] ?t"
    by (simp add: ticker_run_iff preparing_client_init fire_simps process_def launch_def
        prepare_run_container)
  from loop_submits_overrides [OF complete run] run show ?thesis by simp
qed



end
