(* ===== verification/Ticker_Store.thy ===== *)
theory Ticker_Store
  imports Store Launch
begin

text \<open>
  A pass of the polling loop over containers that are pointers into a store, as the
  containers of \<^verbatim>\<open>src/container/container.go\<close> are. In theory \<open>Ticker\<close> the pass
  holds the listed containers by value, so a launch cannot change a container that
  is still to be looked at. In the code a launch prepares its create request with
  \<^verbatim>\<open>runtimeConfig\<close> and \<^verbatim>\<open>hostConfig\<close>, which write through the pointers, and
  the classifier reads the next container of the pass from the store as it is then.
  The theory has the loop of \<open>Launch\<close> on the store (\<open>fireP\<close>, with \<open>prepareP\<close> for
  the client's launch), shows that it is the by-value loop over the snapshots taken
  at the list call when the listed containers share no object that a launch writes,
  and shows what a pass does when two containers share their configuration object,
  as \<^verbatim>\<open>c1\<close> and \<^verbatim>\<open>c2\<close> of \<^verbatim>\<open>src/actions/ticker_test.go\<close> do.
\<close>

section \<open>The loop on the store\<close>

definition host_addr :: "ContainerP \<Rightarrow> store \<Rightarrow> addr option" where
  "host_addr c s =
     (case p_containerInfo c of None \<Rightarrow> None | Some i \<Rightarrow> pi_HostConfig (infos s i))"

definition is_candidateP :: "ContainerP \<Rightarrow> store \<Rightarrow> bool go_result" where
  "is_candidateP c s = go_bind (IsTugbotP c s) (\<lambda>self.
     if self then Inr False else IsTugbotCandidateP c s)"

text \<open>The create request holds the objects the two returned pointers point to.\<close>

definition prepareP :: "ContainerP \<Rightarrow> store \<Rightarrow> (create_request \<times> store) go_result" where
  "prepareP c s =
     go_bind (runtimeConfigP c s) (\<lambda>(config, s).
     go_bind (hostConfigP c s) (\<lambda>(hc, s).
       Inr ((configs s config, hosts s hc), s)))"

text \<open>
  The state of the loop: as in theory \<open>Ticker\<close>, with the store and with the create
  requests that the client has recorded. A request is recorded with the snapshot of
  the container at the time of the call.
\<close>

record tickerP =
  tp_mode :: mode
  tp_pending :: "ContainerP list"
  tp_created :: "create_request list"
  tp_store :: store
  tp_requests :: "request list"

definition launchP :: "ContainerP \<Rightarrow> tickerP \<Rightarrow> tickerP" where
  "launchP c t =
     (let t' = t\<lparr>tp_requests := tp_requests t @ [StartRequest (snapshot (tp_store t) c)]\<rparr> in
      case prepareP c (tp_store t) of
        Inl p \<Rightarrow> t'\<lparr>tp_mode := Panicked p\<rparr>
      | Inr (r, s) \<Rightarrow> t'\<lparr>tp_created := tp_created t @ [r], tp_store := s\<rparr>)"

definition processP :: "ContainerP \<Rightarrow> tickerP \<Rightarrow> tickerP" where
  "processP c t =
     (case is_candidateP c (tp_store t) of
        Inl p \<Rightarrow> t\<lparr>tp_mode := Panicked p\<rparr>
      | Inr b \<Rightarrow> if b then launchP c t else t)"

definition discoverP :: "ContainerP list \<Rightarrow> tickerP \<Rightarrow> tickerP" where
  "discoverP cs t = t\<lparr>tp_requests := tp_requests t @ [ListRequest], tp_pending := cs\<rparr>"

definition fireP :: "ContainerP list \<Rightarrow> event \<Rightarrow> tickerP \<Rightarrow> tickerP option" where
  "fireP listed ev t =
     (if tp_mode t \<noteq> Ticking then None
      else case ev of
        Cancel \<Rightarrow> Some (t\<lparr>tp_mode := Stopped, tp_pending := []\<rparr>)
      | Tick \<Rightarrow> if tp_pending t = [] then Some (discoverP listed t) else None
      | Next \<Rightarrow> (case tp_pending t of
                   [] \<Rightarrow> None
                 | c # cs \<Rightarrow> Some (processP c (t\<lparr>tp_pending := cs\<rparr>))))"

fun execP :: "ContainerP list \<Rightarrow> event list \<Rightarrow> tickerP \<Rightarrow> tickerP option" where
  "execP listed [] t = Some t"
| "execP listed (ev # evs) t =
     (case fireP listed ev t of None \<Rightarrow> None | Some t' \<Rightarrow> execP listed evs t')"

definition initP :: "store \<Rightarrow> tickerP" where
  "initP s =
     \<lparr>tp_mode = Ticking, tp_pending = [], tp_created = [], tp_store = s, tp_requests = []\<rparr>"

section \<open>The by-value state a state on the store stands for\<close>

definition abs_ticker :: "tickerP \<Rightarrow> create_request list ticker" where
  "abs_ticker t =
     \<lparr>tk_mode = tp_mode t, tk_pending = map (snapshot (tp_store t)) (tp_pending t),
      tk_client = tp_created t, tk_requests = tp_requests t, tk_logged = []\<rparr>"

text \<open>
  Containers that share nothing a launch writes: their snapshots are complete, no
  two of them have the same configuration object or the same host configuration
  object, and no configuration object is the image configuration of one of them.
\<close>

definition separate :: "ContainerP list \<Rightarrow> store \<Rightarrow> bool" where
  "separate cs s \<longleftrightarrow>
     list_all (\<lambda>c. complete (snapshot s c)) cs \<and>
     distinct (map (\<lambda>c. config_addr c s) cs) \<and>
     distinct (map (\<lambda>c. host_addr c s) cs) \<and>
     list_all (\<lambda>c. list_all (\<lambda>c'. image_config_addr c' s \<noteq> config_addr c s) cs) cs"

text \<open>Two stores with the same pointers that differ in one configuration and one host configuration at most.\<close>

definition differs_at :: "addr option \<Rightarrow> addr option \<Rightarrow> store \<Rightarrow> store \<Rightarrow> bool" where
  "differs_at a h s s' \<longleftrightarrow>
     infos s' = infos s \<and> images s' = images s \<and> states s' = states s \<and>
     (\<forall>x. Some x \<noteq> a \<longrightarrow> configs s' x = configs s x) \<and>
     (\<forall>x. Some x \<noteq> h \<longrightarrow> hosts s' x = hosts s x)"

section \<open>Pointers and frames\<close>

lemma complete_snapshot:
  "complete (snapshot s c) \<longleftrightarrow>
     (\<exists>i m a b h st. p_containerInfo c = Some i \<and> p_imageInfo c = Some m \<and>
        pi_Config (infos s i) = Some a \<and> pm_Config (images s m) = Some b \<and>
        pi_HostConfig (infos s i) = Some h \<and> pi_State (infos s i) = Some st \<and>
        list_all link_ok (hc_Links (hosts s h)))"
  by (auto simp: complete_iff)

lemma addr_differs_at:
  assumes "differs_at a h s s'"
  shows "config_addr c s' = config_addr c s" "host_addr c s' = host_addr c s"
    "image_config_addr c s' = image_config_addr c s"
  using assms
  by (simp_all add: differs_at_def config_addr_def host_addr_def image_config_addr_def
      split: option.splits)

lemma snapshot_differs_at:
  assumes "differs_at a h s s'" and "config_addr c s \<noteq> a \<or> a = None"
    and "image_config_addr c s \<noteq> a \<or> a = None" and "host_addr c s \<noteq> h \<or> h = None"
  shows "snapshot s' c = snapshot s c"
proof -
  have info: "info_at s' i = info_at s i" if "p_containerInfo c = Some i" for i
    using assms(1,2,4) that
    by (intro ContainerInfo.equality)
      (auto simp: differs_at_def config_addr_def host_addr_def info_at_def
        intro!: map_option_cong)
  have img: "image_at s' m = image_at s m" if "p_imageInfo c = Some m" for m
    using assms(1,3) that
    by (intro ImageInfo.equality)
      (auto simp: differs_at_def image_config_addr_def image_at_def intro!: map_option_cong)
  show ?thesis
    by (cases "p_containerInfo c"; cases "p_imageInfo c") (simp_all add: snapshot_def info img)
qed

lemma hostConfigP_Some:
  assumes "p_containerInfo c = Some i" and "pi_HostConfig (infos s i) = Some h"
  shows "hostConfigP c s =
     go_bind (go_mapM rewrite_link (hc_Links (hosts s h))) (\<lambda>links.
       Inr (h, upd_host h (\<lambda>hc. hc\<lparr>hc_Links := links\<rparr>) s))"
  using assms by (simp add: hostConfigP_mapM)

section \<open>One launch on the store\<close>

lemma prepareP_complete:
  assumes "complete (snapshot s c)" and "image_config_addr c s \<noteq> config_addr c s"
  shows "\<exists>r s'. prepareP c s = Inr (r, s') \<and> prepare (snapshot s c) = Inr r \<and>
           override_request (snapshot s c) = Some r \<and>
           map_option (configs s') (config_addr c s) = Some (fst r) \<and>
           differs_at (config_addr c s) (host_addr c s) s s'"
proof -
  from assms(1) obtain i m a b h where ptrs: "p_containerInfo c = Some i"
    "p_imageInfo c = Some m" "pi_Config (infos s i) = Some a"
    "pm_Config (images s m) = Some b" "pi_HostConfig (infos s i) = Some h"
    and links: "list_all link_ok (hc_Links (hosts s h))"
    by (auto simp: complete_snapshot)
  from ptrs assms(2) have neq: "a \<noteq> b"
    by (auto simp: config_addr_def image_config_addr_def)
  let ?cfg = "DeriveOverrideConfig (configs s a) (configs s b) (hosts s h)
    (image_after (configs s a) (configs s b))"
  let ?links = "map (\<lambda>link. before_first CHR '':'' link @ '':'' @ from_last CHR ''/'' link)
    (hc_Links (hosts s h))"
  let ?s1 = "upd_config a (\<lambda>c. ?cfg) s"
  let ?s2 = "upd_host h (\<lambda>hc. hc\<lparr>hc_Links := ?links\<rparr>) ?s1"
  from ptrs(1,5) links have "hostConfigP c ?s1 = Inr (h, ?s2)"
    by (simp add: hostConfigP_Some [where i = i and h = h] rewrite_links_total)
  then have on_store: "prepareP c s = Inr ((?cfg, (hosts s h)\<lparr>hc_Links := ?links\<rparr>), ?s2)"
    by (simp add: prepareP_def runtimeConfigP_Some [OF ptrs neq])
  from assms(1) obtain r where r: "prepare (snapshot s c) = Inr r"
    "override_request (snapshot s c) = Some r"
    using prepare_complete by blast
  from r(2) ptrs have "r = (?cfg, (hosts s h)\<lparr>hc_Links := ?links\<rparr>)"
    by (simp add: override_request_def)
  moreover from ptrs have "differs_at (config_addr c s) (host_addr c s) s ?s2"
    and "map_option (configs ?s2) (config_addr c s) = Some ?cfg"
    by (simp_all add: differs_at_def config_addr_def host_addr_def)
  ultimately show ?thesis using on_store r by simp
qed

lemma is_candidateP_not_test:
  assumes "config_addr c s = Some a" and "Labels (configs s a) LabelTest \<noteq> Some ''true''"
  shows "is_candidateP c s = Inr False"
  using assms
  by (auto simp: is_candidateP_def IsTugbotP_def IsTugbotCandidateP_def config_ofP_eq
      split: option.splits)

lemma is_candidateP_snapshot: "is_candidateP c s = is_candidate (snapshot s c)"
  by (simp add: is_candidateP_def is_candidate_def IsTugbotP_snapshot IsTugbotCandidateP_snapshot
      cong: if_cong)

section \<open>Separate containers\<close>

lemma separate_Cons:
  assumes "separate (c # cs) s"
  shows "complete (snapshot s c)" "image_config_addr c s \<noteq> config_addr c s" "separate cs s"
  using assms by (auto simp: separate_def list_all_iff)

lemma separate_others:
  assumes "separate (c # cs) s" and "c' \<in> set cs"
  shows "config_addr c' s \<noteq> config_addr c s" "image_config_addr c' s \<noteq> config_addr c s"
    "host_addr c' s \<noteq> host_addr c s"
proof -
  from assms(1) have "config_addr c s \<notin> set (map (\<lambda>c. config_addr c s) cs)"
    by (simp add: separate_def)
  moreover from assms(2) have "config_addr c' s \<in> set (map (\<lambda>c. config_addr c s) cs)"
    by simp
  ultimately show "config_addr c' s \<noteq> config_addr c s" by metis
  from assms(1) have "host_addr c s \<notin> set (map (\<lambda>c. host_addr c s) cs)"
    by (simp add: separate_def)
  moreover from assms(2) have "host_addr c' s \<in> set (map (\<lambda>c. host_addr c s) cs)"
    by simp
  ultimately show "host_addr c' s \<noteq> host_addr c s" by metis
  from assms(1) have "list_all (\<lambda>c'. image_config_addr c' s \<noteq> config_addr c s) cs"
    by (simp add: separate_def)
  with assms(2) show "image_config_addr c' s \<noteq> config_addr c s"
    by (simp add: list_all_iff)
qed

lemma separate_differs_at:
  assumes "separate (c # cs) s"
    and "differs_at (config_addr c s) (host_addr c s) s s'"
  shows "map (snapshot s') cs = map (snapshot s) cs" "separate cs s'"
proof -
  have same: "snapshot s' c' = snapshot s c'" if "c' \<in> set cs" for c'
    using separate_others [OF assms(1) that]
    by (intro snapshot_differs_at [OF assms(2)]) simp_all
  then show "map (snapshot s') cs = map (snapshot s) cs" by simp
  with separate_Cons(3) [OF assms(1)] same show "separate cs s'"
    by (simp add: separate_def addr_differs_at [OF assms(2)] list_all_iff)
qed

section \<open>One step on the store and by value\<close>

lemma launchP_abs:
  assumes "separate (c # tp_pending t) (tp_store t)"
  shows "abs_ticker (launchP c t) =
           launch (preparing_client xs) (snapshot (tp_store t) c) (abs_ticker t)"
    and "separate (tp_pending (launchP c t)) (tp_store (launchP c t))"
proof -
  from prepareP_complete [OF separate_Cons(1,2) [OF assms]] obtain r s' where
    r: "prepareP c (tp_store t) = Inr (r, s')" "prepare (snapshot (tp_store t) c) = Inr r"
    and s': "differs_at (config_addr c (tp_store t)) (host_addr c (tp_store t)) (tp_store t) s'"
    by blast
  from separate_differs_at [OF assms s'] r
  show "abs_ticker (launchP c t) =
      launch (preparing_client xs) (snapshot (tp_store t) c) (abs_ticker t)"
    and "separate (tp_pending (launchP c t)) (tp_store (launchP c t))"
    by (simp_all add: launchP_def launch_def abs_ticker_def)
qed

lemma processP_abs:
  assumes "separate (c # tp_pending t) (tp_store t)"
  shows "abs_ticker (processP c t) =
           process (preparing_client xs) (snapshot (tp_store t) c) (abs_ticker t)"
    and "separate (tp_pending (processP c t)) (tp_store (processP c t))"
proof -
  from separate_Cons(1) [OF assms] obtain b where
    b: "is_candidate (snapshot (tp_store t) c) = Inr b"
    using is_candidate_wf complete_wf by blast
  from b launchP_abs(1) [OF assms, of xs] launchP_abs(2) [OF assms] separate_Cons(3) [OF assms]
  show "abs_ticker (processP c t) =
      process (preparing_client xs) (snapshot (tp_store t) c) (abs_ticker t)"
    and "separate (tp_pending (processP c t)) (tp_store (processP c t))"
    by (simp_all add: processP_def process_def is_candidateP_snapshot)
qed

lemma fireP_abs:
  assumes "separate (tp_pending t) (tp_store t)" and "ev \<noteq> Tick"
  shows "map_option abs_ticker (fireP listed ev t) = fire (preparing_client xs) ev (abs_ticker t)"
    and "fireP listed ev t = Some t' \<Longrightarrow> separate (tp_pending t') (tp_store t')"
proof -
  have "map_option abs_ticker (fireP listed ev t) = fire (preparing_client xs) ev (abs_ticker t) \<and>
      (fireP listed ev t = Some t' \<longrightarrow> separate (tp_pending t') (tp_store t'))"
  proof (cases "tp_pending t")
    case Nil
    with assms(2) show ?thesis
      by (cases ev) (auto simp: fireP_def fire_simps abs_ticker_def separate_def)
  next
    case (Cons c cs)
    with assms(1) have sep: "separate (c # tp_pending (t\<lparr>tp_pending := cs\<rparr>))
        (tp_store (t\<lparr>tp_pending := cs\<rparr>))"
      by simp
    have "abs_ticker (t\<lparr>tp_pending := cs\<rparr>) =
        (abs_ticker t)\<lparr>tk_pending := map (snapshot (tp_store t)) cs\<rparr>"
      by (simp add: abs_ticker_def)
    with processP_abs(1) [OF sep, of xs] processP_abs(2) [OF sep] Cons assms(2) show ?thesis
      by (cases ev) (auto simp: fireP_def fire_simps abs_ticker_def separate_def)
  qed
  then show "map_option abs_ticker (fireP listed ev t) =
      fire (preparing_client xs) ev (abs_ticker t)"
    and "fireP listed ev t = Some t' \<Longrightarrow> separate (tp_pending t') (tp_store t')"
    by simp_all
qed

lemma execP_abs:
  assumes "Tick \<notin> set evs"
  shows "separate (tp_pending t) (tp_store t) \<Longrightarrow>
     map_option abs_ticker (execP listed evs t) = exec (preparing_client xs) evs (abs_ticker t)"
  using assms
proof (induction evs arbitrary: t)
  case Nil
  show ?case by simp
next
  case (Cons ev evs)
  from Cons.prems(2) have ev: "ev \<noteq> Tick" and evs: "Tick \<notin> set evs" by auto
  show ?case
  proof (cases "fireP listed ev t")
    case None
    with fireP_abs(1) [OF Cons.prems(1) ev, of listed xs] show ?thesis by simp
  next
    case (Some t')
    from fireP_abs(1) [OF Cons.prems(1) ev, of listed xs] Some
    have "fire (preparing_client xs) ev (abs_ticker t) = Some (abs_ticker t')" by simp
    with Some Cons.IH [OF fireP_abs(2) [OF Cons.prems(1) ev Some] evs] show ?thesis
      by simp
  qed
qed

lemma discoverP_abs:
  "tp_pending t = [] \<Longrightarrow>
     abs_ticker (discoverP cs t) =
       discover (preparing_client (map (snapshot (tp_store t)) cs)) (abs_ticker t)"
  by (simp add: discoverP_def discover_def abs_ticker_def)

section \<open>The examples on the store\<close>

lemma snapshot_run: "snapshot run_store run_containerP = run_container"
  by (simp add: snapshot_def info_at_def image_at_def run_containerP_def NewContainerP_def
      run_store_def run_container_def run_info_def run_image_info_def NewContainer_def)

lemma complete_run_store:
  "complete (snapshot run_store run_containerP)" "complete (snapshot run_store run_siblingP)"
  by (simp_all add: complete_snapshot run_containerP_ptrs run_siblingP_def NewContainerP_def
      run_store_ptrs run_store_objs run_host_def)

lemma separate_run: "separate [run_containerP] run_store"
  by (simp add: separate_def complete_run_store config_addr_def image_config_addr_def
      run_containerP_ptrs run_store_ptrs)

section \<open>What a pass on the store does\<close>

text \<open>
  C21. A pass on the store is the pass by value. When the listed containers are
  complete and share no object that a launch writes, the list call and any steps of
  the pass on the store, with the cancellation at any point, do what the by-value
  loop does over the snapshots taken at the list call: the same requests, the same
  create requests, the same mode, and the containers still to be looked at have the
  snapshots they had when they were listed.
\<close>

theorem pass_on_store_refines:
  assumes "separate cs (tp_store t)" and "Tick \<notin> set evs"
  shows "map_option abs_ticker (execP cs (Tick # evs) t) =
         exec (preparing_client (map (snapshot (tp_store t)) cs)) (Tick # evs) (abs_ticker t)"
proof (cases "tp_mode t = Ticking \<and> tp_pending t = []")
  case True
  then have "fireP cs Tick t = Some (discoverP cs t)"
    and "fire (preparing_client (map (snapshot (tp_store t)) cs)) Tick (abs_ticker t) =
      Some (abs_ticker (discoverP cs t))"
    by (simp_all add: fireP_def fire_Tick discoverP_abs) (simp_all add: abs_ticker_def)
  moreover from assms(1) have "separate (tp_pending (discoverP cs t)) (tp_store (discoverP cs t))"
    by (simp add: discoverP_def)
  note execP_abs [OF assms(2) this, of cs "map (snapshot (tp_store t)) cs"]
  ultimately show ?thesis by simp
next
  case False
  then show ?thesis
    by (auto simp: fireP_def fire_Tick abs_ticker_def)
qed

theorem pass_on_store_refines_witness:
  "map_option abs_ticker (execP [run_containerP] [Tick, Next, Cancel] (initP run_store)) =
     Some \<lparr>tk_mode = Stopped, tk_pending = [], tk_client = [(run_override, run_host)],
           tk_requests = [ListRequest, StartRequest run_container], tk_logged = []\<rparr>"
proof -
  have "separate [run_containerP] (tp_store (initP run_store))"
    by (simp add: initP_def separate_run)
  from pass_on_store_refines [OF this, of "[Next, Cancel]"] show ?thesis
    by (simp add: initP_def abs_ticker_def snapshot_run fire_simps discover_def process_def
        launch_def prepare_run_container)
qed

text \<open>
  C22. A shared configuration object makes the pass skip a candidate. When two
  listed candidates point to the same configuration object, as \<^verbatim>\<open>c1\<close> and \<^verbatim>\<open>c2\<close>
  of the tests do, and the image of the first declares the test label, the launch of
  the first subtracts the label from the shared object, and the second is no
  candidate any more when the pass looks at it: the pass on the store launches the
  first container only, where the pass over the snapshots taken at the list call
  launches both.
\<close>

theorem shared_config_skips_sibling:
  assumes "complete (snapshot s c)" and "complete (snapshot s c')"
    and "config_addr c' s = config_addr c s"
    and "image_config_addr c s = Some b" and "config_addr c s \<noteq> Some b"
    and "Labels (configs s b) LabelTest = Some ''true''"
    and "is_candidate (snapshot s c) = Inr True" and "is_candidate (snapshot s c') = Inr True"
  shows "\<exists>t u. execP [c, c'] [Tick, Next, Next] (initP s) = Some t \<and>
           tp_mode t = Ticking \<and> started (tp_requests t) = [snapshot s c] \<and>
           exec (preparing_client [snapshot s c, snapshot s c']) [Tick, Next, Next]
             (ticker_init []) = Some u \<and>
           tk_mode u = Ticking \<and> started (tk_requests u) = [snapshot s c, snapshot s c']"
proof -
  from assms(4,5) have "image_config_addr c s \<noteq> config_addr c s" by auto
  from prepareP_complete [OF assms(1) this] obtain r s' where
    r: "prepareP c s = Inr (r, s')" "override_request (snapshot s c) = Some r"
    and cfg: "map_option (configs s') (config_addr c s) = Some (fst r)"
    and s': "differs_at (config_addr c s) (host_addr c s) s s'"
    by blast
  from cfg obtain a where a: "config_addr c s = Some a" "configs s' a = fst r" by auto
  from assms(1,4) a(1) r(2) assms(6) have "Labels (fst r) LabelTest \<noteq> Some ''true''"
    by (auto simp: complete_snapshot override_request_def config_addr_def
        image_config_addr_def DeriveOverrideConfig_def split: if_splits)
  with a assms(3) have "is_candidateP c' s' = Inr False"
    by (intro is_candidateP_not_test [where a = a]) (simp_all add: addr_differs_at [OF s'])
  with r(1) assms(7) have on_store: "execP [c, c'] [Tick, Next, Next] (initP s) =
      Some \<lparr>tp_mode = Ticking, tp_pending = [], tp_created = [r], tp_store = s',
            tp_requests = [ListRequest, StartRequest (snapshot s c)]\<rparr>"
    by (simp add: fireP_def initP_def discoverP_def processP_def launchP_def
        is_candidateP_snapshot)
  from prepare_complete [OF assms(1)] prepare_complete [OF assms(2)] assms(7,8)
  have "\<exists>u. exec (preparing_client [snapshot s c, snapshot s c']) [Tick, Next, Next]
      (ticker_init []) = Some u \<and> tk_mode u = Ticking \<and>
      started (tk_requests u) = [snapshot s c, snapshot s c']"
    by (auto simp: fire_simps ticker_init_def discover_def process_def launch_def)
  with on_store show ?thesis by auto
qed

theorem shared_config_skips_sibling_witness:
  "\<exists>t u. execP [run_containerP, run_siblingP] [Tick, Next, Next] (initP run_store) = Some t \<and>
     tp_mode t = Ticking \<and> started (tp_requests t) = [run_container] \<and>
     exec (preparing_client [run_container, snapshot run_store run_siblingP]) [Tick, Next, Next]
       (ticker_init []) = Some u \<and>
     tk_mode u = Ticking \<and>
     started (tk_requests u) = [run_container, snapshot run_store run_siblingP]"
proof -
  have "config_addr run_siblingP run_store = config_addr run_containerP run_store"
    and "image_config_addr run_containerP run_store = Some 2"
    and "config_addr run_containerP run_store \<noteq> Some 2"
    and "Labels (configs run_store 2) LabelTest = Some ''true''"
    by (simp_all add: config_addr_def image_config_addr_def run_siblingP_def
        run_containerP_ptrs NewContainerP_def run_store_ptrs run_store_objs run_image_def)
  moreover have "is_candidate (snapshot run_store run_containerP) = Inr True"
    by (simp add: snapshot_run)
  moreover have "IsTugbotP run_siblingP run_store = Inr False"
    by (simp add: IsTugbotP_def config_ofP_def run_siblingP_def NewContainerP_def
        run_store_ptrs run_store_objs)
      (simp add: run_config_def Label_defs)
  then have "is_candidate (snapshot run_store run_siblingP) = Inr True"
    by (simp add: is_candidateP_snapshot [symmetric] is_candidateP_def run_sibling_candidate)
  ultimately show ?thesis
    using shared_config_skips_sibling [OF complete_run_store, of 2] by (simp add: snapshot_run)
qed

end
