(* ===== verification/Relisted.thy ===== *)
theory Relisted
  imports Ticker_Store
begin

text \<open>
  Runs of any number of passes on the store, with a client that returns the same
  containers at every list call, as the mock client of
  \<^verbatim>\<open>src/actions/ticker_test.go\<close> does: the listed \<^verbatim>\<open>Container\<close> values hold the
  same pointers at every tick. A launch writes the override configuration into the
  container's configuration object, and the next pass classifies the container by
  what it finds there. The theory shows that a container whose image declares the
  test label is launched once and never again, where the loop over snapshots taken
  afresh at every list call launches it at every tick.
\<close>

section \<open>Containers whose image declares the test label\<close>

definition declares_test :: "Container \<Rightarrow> bool" where
  "declares_test c \<longleftrightarrow>
     (case imageInfo c of
        None \<Rightarrow> False
      | Some img \<Rightarrow>
          (case ii_Config img of
             None \<Rightarrow> False
           | Some imageConfig \<Rightarrow> Labels imageConfig LabelTest = Some ''true''))"

text \<open>
  The invariant of the runs over the listed containers \<open>cs\<close> from the store \<open>s\<close>:
  \<open>ls\<close> are the containers launched so far, in the order of their launches. A
  launched container is no candidate in the store as it is now, and a container
  that has not been launched has the snapshot it had in \<open>s\<close>.
\<close>

definition relisted :: "ContainerP list \<Rightarrow> store \<Rightarrow> ContainerP list \<Rightarrow> tickerP \<Rightarrow> bool" where
  "relisted cs s ls t \<longleftrightarrow>
     distinct ls \<and> set ls \<subseteq> set cs \<and> set (tp_pending t) \<subseteq> set cs \<and>
     (tp_mode t = Ticking \<or> tp_mode t = Stopped) \<and>
     started (tp_requests t) = map (snapshot s) ls \<and>
     map Some (tp_created t) = map (\<lambda>c. override_request (snapshot s c)) ls \<and>
     infos (tp_store t) = infos s \<and> images (tp_store t) = images s \<and>
     (\<forall>c \<in> set cs. if c \<in> set ls then is_candidate (snapshot (tp_store t) c) = Inr False
                    else snapshot (tp_store t) c = snapshot s c)"

section \<open>Pointers of separate containers\<close>

lemma addr_same_ptrs:
  assumes "infos s' = infos s" and "images s' = images s"
  shows "config_addr c s' = config_addr c s" "host_addr c s' = host_addr c s"
    "image_config_addr c s' = image_config_addr c s"
  using assms
  by (simp_all add: config_addr_def host_addr_def image_config_addr_def split: option.splits)

lemma separate_member:
  assumes "separate cs s" and "c \<in> set cs"
  shows "complete (snapshot s c)" "image_config_addr c s \<noteq> config_addr c s"
  using assms by (auto simp: separate_def list_all_iff)

lemma separate_distinct:
  assumes "separate cs s" and "c \<in> set cs" and "c' \<in> set cs" and "c' \<noteq> c"
  shows "config_addr c' s \<noteq> config_addr c s" "image_config_addr c' s \<noteq> config_addr c s"
    "host_addr c' s \<noteq> host_addr c s"
proof -
  from assms(1) have "inj_on (\<lambda>c. config_addr c s) (set cs)" "inj_on (\<lambda>c. host_addr c s) (set cs)"
    by (simp_all add: separate_def distinct_map)
  with assms(2-4) show "config_addr c' s \<noteq> config_addr c s" "host_addr c' s \<noteq> host_addr c s"
    by (auto dest: inj_onD)
  from assms(1-3) show "image_config_addr c' s \<noteq> config_addr c s"
    by (simp add: separate_def list_all_iff)
qed

lemma override_not_test:
  assumes "override_request c = Some r" and "declares_test c"
  shows "Labels (fst r) LabelTest \<noteq> Some ''true''"
  using assms
  by (auto simp: override_request_def declares_test_def DeriveOverrideConfig_def
      split: option.splits if_splits)

section \<open>The steps keep the invariant\<close>

lemma relisted_init: "relisted cs s [] (initP s)"
  by (simp add: relisted_def initP_def)

lemma relisted_launch:
  assumes sep: "separate cs s" and decl: "list_all (\<lambda>c. declares_test (snapshot s c)) cs"
    and inv: "relisted cs s ls t" and c: "c \<in> set cs" "c \<notin> set ls"
    and mode: "tp_mode t = Ticking"
  shows "relisted cs s (ls @ [c]) (launchP c t)"
proof -
  let ?st = "tp_store t"
  from inv have ptrs: "infos ?st = infos s" "images ?st = images s"
    by (simp_all add: relisted_def)
  note addr = addr_same_ptrs [OF ptrs]
  from inv c have snap: "snapshot ?st c = snapshot s c"
    by (auto simp: relisted_def)
  from separate_member [OF sep c(1)] snap
  have "complete (snapshot ?st c)" "image_config_addr c ?st \<noteq> config_addr c ?st"
    by (simp_all add: addr)
  from prepareP_complete [OF this] obtain r s' where
    r: "prepareP c ?st = Inr (r, s')" "override_request (snapshot ?st c) = Some r"
    and cfg: "map_option (configs s') (config_addr c ?st) = Some (fst r)"
    and s': "differs_at (config_addr c ?st) (host_addr c ?st) ?st s'"
    by blast
  from cfg obtain a where a: "config_addr c ?st = Some a" "configs s' a = fst r" by auto
  from decl c(1) have "declares_test (snapshot s c)" by (simp add: list_all_iff)
  with r(2) snap have "Labels (fst r) LabelTest \<noteq> Some ''true''"
    by (intro override_not_test) simp_all
  with a have used: "is_candidate (snapshot s' c) = Inr False"
    by (simp add: is_candidateP_snapshot [symmetric] addr_differs_at [OF s']
        is_candidateP_not_test [where a = a])
  have others: "snapshot s' c' = snapshot ?st c'" if "c' \<in> set cs" "c' \<noteq> c" for c'
    using separate_distinct [OF sep c(1) that]
    by (intro snapshot_differs_at [OF s']) (simp_all add: addr)
  have "if c' \<in> set (ls @ [c]) then is_candidate (snapshot s' c') = Inr False
      else snapshot s' c' = snapshot s c'" if "c' \<in> set cs" for c'
  proof (cases "c' = c")
    case True
    with used show ?thesis by simp
  next
    case False
    with inv that others [OF that False] show ?thesis by (auto simp: relisted_def)
  qed
  moreover from s' ptrs have "infos s' = infos s" "images s' = images s"
    by (simp_all add: differs_at_def)
  ultimately show ?thesis
    using inv c r snap mode by (simp add: relisted_def launchP_def)
qed

lemma relisted_process:
  assumes sep: "separate cs s" and decl: "list_all (\<lambda>c. declares_test (snapshot s c)) cs"
    and inv: "relisted cs s ls t" and c: "c \<in> set cs" and mode: "tp_mode t = Ticking"
  shows "\<exists>ls'. relisted cs s ls' (processP c t)"
proof (cases "c \<in> set ls")
  case True
  with inv c have "is_candidateP c (tp_store t) = Inr False"
    by (auto simp: relisted_def is_candidateP_snapshot)
  with inv show ?thesis by (auto simp: processP_def)
next
  case False
  with inv c have "snapshot (tp_store t) c = snapshot s c"
    by (auto simp: relisted_def)
  with separate_member(1) [OF sep c] obtain b where "is_candidateP c (tp_store t) = Inr b"
    using is_candidate_wf complete_wf by (auto simp: is_candidateP_snapshot)
  with inv relisted_launch [OF sep decl inv c False mode] show ?thesis
    by (cases b) (auto simp: processP_def)
qed

lemma relisted_fire:
  assumes sep: "separate cs s" and decl: "list_all (\<lambda>c. declares_test (snapshot s c)) cs"
    and inv: "relisted cs s ls t" and fire: "fireP cs ev t = Some t'"
  shows "\<exists>ls'. relisted cs s ls' t'"
proof (cases ev)
  case Tick
  with inv fire have "relisted cs s ls t'"
    by (auto simp: fireP_def discoverP_def relisted_def split: if_splits)
  then show ?thesis ..
next
  case Next
  with fire obtain c rest where pending: "tp_pending t = c # rest" and mode: "tp_mode t = Ticking"
    and t': "t' = processP c (t\<lparr>tp_pending := rest\<rparr>)"
    by (auto simp: fireP_def split: if_splits list.splits)
  from inv pending have "relisted cs s ls (t\<lparr>tp_pending := rest\<rparr>)" "c \<in> set cs"
    by (auto simp: relisted_def)
  from relisted_process [OF sep decl this] mode t' show ?thesis by simp
next
  case Cancel
  with inv fire have "relisted cs s ls t'"
    by (auto simp: fireP_def relisted_def split: if_splits)
  then show ?thesis ..
qed

lemma relisted_exec:
  assumes "separate cs s" and "list_all (\<lambda>c. declares_test (snapshot s c)) cs"
  shows "execP cs evs t = Some t' \<Longrightarrow> relisted cs s ls t \<Longrightarrow> \<exists>ls'. relisted cs s ls' t'"
proof (induction evs arbitrary: t ls)
  case Nil
  then show ?case by auto
next
  case (Cons ev evs)
  from Cons.prems(1) obtain u where u: "fireP cs ev t = Some u" "execP cs evs u = Some t'"
    by (auto split: option.splits)
  from relisted_fire [OF assms Cons.prems(2) u(1)] Cons.IH [OF u(2)] show ?case by blast
qed

lemma launchP_requests:
  "tp_requests (launchP c t) = tp_requests t @ [StartRequest (snapshot (tp_store t) c)]"
  by (cases "prepareP c (tp_store t)") (auto simp: launchP_def Let_def)

lemma distinct_in_singleton: "distinct ls \<Longrightarrow> set ls \<subseteq> {c} \<Longrightarrow> ls = [] \<or> ls = [c]"
  by (cases ls; cases "tl ls") auto

lemma declares_test_run: "declares_test run_container"
  by (simp add: declares_test_def run_container_fields) (simp add: run_image_info_def run_image_def)

section \<open>What the passes launch\<close>

text \<open>
  C23. A container that is listed again is launched once. When every list call
  returns the same containers, which are complete, share no object that a launch
  writes, and have images that declare the test label, then on every run of the
  loop on the store, over any number of ticks, no container is launched twice: the
  launches are launches of different listed containers, each with the snapshot it
  had at the start, the create requests are the override configurations of these
  snapshots, and the loop has not panicked. The label that makes a container a
  candidate is one of the image's defaults, and the first launch subtracts it from
  the container's own configuration object.
\<close>

theorem relisted_launched_once:
  assumes "separate cs s" and "list_all (\<lambda>c. declares_test (snapshot s c)) cs"
    and "execP cs evs (initP s) = Some t"
  shows "\<exists>ls. distinct ls \<and> set ls \<subseteq> set cs \<and>
           started (tp_requests t) = map (snapshot s) ls \<and>
           map Some (tp_created t) = map (\<lambda>c. override_request (snapshot s c)) ls \<and>
           (tp_mode t = Ticking \<or> tp_mode t = Stopped)"
  using relisted_exec [OF assms relisted_init] by (auto simp: relisted_def)

theorem relisted_launched_once_witness:
  "\<exists>t u. execP [run_containerP] [Tick, Next, Tick, Next] (initP run_store) = Some t \<and>
     started (tp_requests t) = [run_container] \<and>
     exec (preparing_client [run_container]) [Tick, Next, Tick, Next] (ticker_init []) = Some u \<and>
     started (tk_requests u) = [run_container, run_container]"
proof -
  let ?c = run_containerP
  have decl: "list_all (\<lambda>c. declares_test (snapshot run_store c)) [?c]"
    by (simp add: snapshot_run declares_test_run)
  from separate_run have "image_config_addr ?c run_store \<noteq> config_addr ?c run_store"
    by (simp add: separate_def)
  from prepareP_complete [OF complete_run_store(1) this] obtain r s' where
    "prepareP ?c run_store = Inr (r, s')" by blast
  then have run: "execP [?c] [Tick, Next, Tick, Next] (initP run_store) =
      Some (processP ?c \<lparr>tp_mode = Ticking, tp_pending = [], tp_created = [r], tp_store = s',
        tp_requests = [ListRequest, StartRequest run_container, ListRequest]\<rparr>)"
    by (simp add: fireP_def initP_def discoverP_def processP_def launchP_def
        is_candidateP_snapshot snapshot_run)
  from relisted_launched_once [OF separate_run decl run] obtain ls where
    ls: "ls = [] \<or> ls = [?c]" "started (tp_requests (processP ?c
      \<lparr>tp_mode = Ticking, tp_pending = [], tp_created = [r], tp_store = s',
       tp_requests = [ListRequest, StartRequest run_container, ListRequest]\<rparr>)) =
      map (snapshot run_store) ls"
    using distinct_in_singleton [of _ ?c] by auto
  then have "started (tp_requests (processP ?c
      \<lparr>tp_mode = Ticking, tp_pending = [], tp_created = [r], tp_store = s',
       tp_requests = [ListRequest, StartRequest run_container, ListRequest]\<rparr>)) = [run_container]"
    by (cases "is_candidateP ?c s'")
      (auto simp: processP_def launchP_requests snapshot_run split: if_splits)
  moreover have "\<exists>u. exec (preparing_client [run_container]) [Tick, Next, Tick, Next]
      (ticker_init []) = Some u \<and> started (tk_requests u) = [run_container, run_container]"
    by (simp add: fire_simps ticker_init_def discover_def process_def launch_def
        prepare_run_container)
  ultimately show ?thesis using run by simp
qed

end
