(* ===== verification/Spec2Isabelle.thy ===== *)
theory Spec2Isabelle
  imports Runtime_Config Host_Config Container_Methods Store Ticker_Test Test_Runs Goroutines
    Launch Ticker_Store Relisted
begin

text \<open>
  \<^bold>\<open>A verification development for tugbot.\<close>

  \<^bold>\<open>The program.\<close> Tugbot re-runs test containers. Its source under \<^verbatim>\<open>src/\<close> is
  \<^verbatim>\<open>src/container/container.go\<close>, the \<^verbatim>\<open>Container\<close> snapshot of a Docker
  container with its methods, and \<^verbatim>\<open>src/actions/ticker_test.go\<close>, the tests of the
  polling loop \<^verbatim>\<open>RunTickerTestContainers\<close>. The loop itself, the runtime client,
  the helpers \<^verbatim>\<open>sliceEqual\<close>, \<^verbatim>\<open>sliceSubtract\<close>, \<^verbatim>\<open>stringMapSubtract\<close> and
  \<^verbatim>\<open>structMapSubtract\<close>, and the \<^verbatim>\<open>dockerclient\<close> structs are outside the listed
  sources; where the development needs them they follow the specification, and the
  opening text of their theory says so.

  \<^bold>\<open>The theories.\<close>
  \<^item> \<open>Go_Prelude\<close>: what a Go function ends with, \<^typ>\<open>'a go_result\<close> (a value or a
    \<^typ>\<open>go_panic\<close>), nil-able pointers (\<^term>\<open>deref\<close>), slicing and indexing with
    their bounds checks (\<^term>\<open>go_slice\<close>, \<^term>\<open>go_index\<close>), the map that stops at
    the first panic (\<^term>\<open>go_mapM\<close>), to which the loops of the methods are compared, and the functions of Go's \<^verbatim>\<open>strings\<close> package
    that the sources call (\<^term>\<open>strings_Contains\<close>, \<^term>\<open>strings_Index\<close>,
    \<^term>\<open>strings_LastIndex\<close>, \<^term>\<open>strings_TrimPrefix\<close>, \<^term>\<open>strings_Split\<close>),
    defined for every needle and characterised for the one-byte needles the sources
    pass. \<^term>\<open>strings_Split\<close> recurses on a shrinking rest, with its termination
    proved; \<open>strings_Join_Split\<close> is its round trip.
  \<^item> \<open>Docker_Client\<close>: the structs \<^verbatim>\<open>State\<close>, \<^verbatim>\<open>ContainerConfig\<close>,
    \<^verbatim>\<open>HostConfig\<close>, \<^verbatim>\<open>ContainerInfo\<close>, \<^verbatim>\<open>ImageInfo\<close> as records, and
    \<^term>\<open>StateString\<close>.
  \<^item> \<open>Slice_Util\<close>: the four subtraction helpers as the loops the specification
    describes, with closed forms; the map loops take the iteration order as a
    parameter and are shown not to depend on it.
  \<^item> \<open>Tugbot_Container\<close>: the record \<^typ>\<open>Container\<close>, the label constants, and one
    definition per method of \<^verbatim>\<open>container.go\<close> that only reads: \<^term>\<open>NewContainer\<close>,
    \<^term>\<open>ID\<close>, \<^term>\<open>Name\<close>, \<^term>\<open>ImageID\<close>, \<^term>\<open>ImageName\<close>, \<^term>\<open>Links\<close>,
    \<^term>\<open>IsTugbot\<close>, \<^term>\<open>StopSignal\<close>, \<^term>\<open>IsTugbotCandidate\<close>; the containers
    built by \<^verbatim>\<open>ticker_test.go\<close> (\<^term>\<open>test_c\<close>, \<^term>\<open>test_c1\<close>, \<^term>\<open>test_c2\<close>).
  \<^item> \<open>Runtime_Config\<close>: \<^verbatim>\<open>runtimeConfig\<close>, which subtracts the image's defaults from
    the container's configuration and writes the result into the snapshot.
  \<^item> \<open>Host_Config\<close>: \<^verbatim>\<open>hostConfig\<close>, which rewrites the links in place:
    \<^term>\<open>rewrite_link\<close> is the body of its loop, \<^term>\<open>links_loop\<close> the loop over
    the indices of the slice.
  \<^item> \<open>Container_Methods\<close>: the ten methods behind one interface: the datatype
    \<^typ>\<open>meth\<close> names them, \<^term>\<open>call\<close> runs one on a snapshot and returns its
    \<^typ>\<open>answer\<close> with the snapshot it leaves, \<^term>\<open>calls\<close> runs a sequence;
    \<^term>\<open>complete\<close> is the invariant of the snapshots on which nothing panics.
  \<^item> \<open>Store\<close>: the same methods with the pointers of the code: the objects live in
    a \<^typ>\<open>store\<close>, a \<^typ>\<open>ContainerP\<close> holds addresses, \<^term>\<open>runtimeConfigP\<close> and
    \<^term>\<open>hostConfigP\<close> are sequences of assignments on the store, and
    \<^term>\<open>snapshot\<close> reads a by-value \<^typ>\<open>Container\<close> out of the store.
  \<^item> \<open>Ticker\<close>: the polling driver \<^verbatim>\<open>RunTickerTestContainers\<close> after section 4.2
    of the specification, over a runtime client given as a record of its two
    operations (\<^typ>\<open>'cl Client\<close>). The loop is a transition system over the events
    \<^term>\<open>Tick\<close>, \<^term>\<open>Next\<close> and \<^term>\<open>Cancel\<close>: \<^term>\<open>discover\<close> is the list call of a
    pass, \<^term>\<open>process\<close> looks at one container of the pass and calls \<^term>\<open>launch\<close>
    for a candidate; \<^term>\<open>fire\<close> is the executable step, \<^term>\<open>ticker_step\<close> and
    \<^term>\<open>ticker_run\<close> are the same steps and runs as inductive relations, made
    executable by \<^theory_text>\<open>code_pred\<close>.
  \<^item> \<open>Ticker_Loop\<close>: the call of the driver as the partial function
    \<^term>\<open>run_loop\<close>, which blocks until the cancellation is observed. Its
    environment is a stream of booleans, one for each wait of the loop;
    \<^term>\<open>next_event\<close> is the event a wait ends with.
  \<^item> \<open>Ticker_Test\<close>: the three tests of \<^verbatim>\<open>ticker_test.go\<close>: the mock client with the
    expected calls of the \<^verbatim>\<open>testify\<close> library (\<^term>\<open>Called\<close>,
    \<^term>\<open>AssertExpectations\<close>), the scripts \<^term>\<open>client_failed\<close>,
    \<^term>\<open>client_single\<close> and \<^term>\<open>client_two_lists\<close>, the functions the tests hook
    into the calls with the mutex and the wait groups they use, and the runs the
    test's own goroutine allows (\<^term>\<open>exec_test\<close>: the cancellation comes after
    \<^verbatim>\<open>wg1.Wait()\<close> has returned; \<^term>\<open>wg2_Wait\<close>: the assertions come after the
    driver has returned).
  \<^item> \<open>Test_Runs\<close>: the call of the driver inside a test, \<^term>\<open>run_test\<close>: the loop of
    \<open>Ticker_Loop\<close> over the mock client, where a wait can observe the cancellation
    only once \<^verbatim>\<open>wg1\<close> is released (\<^term>\<open>observed\<close>), since the test calls
    \<^verbatim>\<open>cancel()\<close> after \<^verbatim>\<open>wg1.Wait()\<close>.
  \<^item> \<open>Goroutines\<close>: the two goroutines of a test, statement by statement
    (\<^term>\<open>statement\<close>: the \<^verbatim>\<open>go\<close> statement, \<^verbatim>\<open>wg1.Wait()\<close>, \<^verbatim>\<open>cancel()\<close>,
    \<^verbatim>\<open>wg2.Wait()\<close> and the assertions of the one, the call of the driver and
    \<^verbatim>\<open>wg2.Done()\<close> of the other), as the interleaving \<^term>\<open>step\<close> over the
    positions of both, with the states they can reach (\<^term>\<open>reachable\<close>).
  \<^item> \<open>Launch\<close>: the loop over \<^term>\<open>preparing_client\<close>, a client whose
    \<^verbatim>\<open>StartContainerFrom\<close> prepares the create request with \<^verbatim>\<open>runtimeConfig\<close>
    and \<^verbatim>\<open>hostConfig\<close> (\<^term>\<open>prepare\<close>).
  \<^item> \<open>Ticker_Store\<close>: a pass of that loop over containers that are pointers into the
    store (\<^term>\<open>fireP\<close>, \<^term>\<open>processP\<close>, \<^term>\<open>launchP\<close> with
    \<^term>\<open>prepareP\<close>), and \<^term>\<open>abs_ticker\<close>, which reads the by-value state of
    theory \<open>Ticker\<close> out of it.
  \<^item> \<open>Relisted\<close>: runs of any number of passes on the store when every list call
    returns the same containers, with the invariant \<^term>\<open>relisted\<close> of these runs.
  \<^item> \<open>Spec2Isabelle\<close> (this theory): the properties that span the components.

  \<^bold>\<open>How the model corresponds to the code.\<close> A method with receiver \<^verbatim>\<open>c Container\<close>
  is a function of the record \<^typ>\<open>Container\<close>. The fields \<^verbatim>\<open>containerInfo\<close>,
  \<^verbatim>\<open>imageInfo\<close>, \<^verbatim>\<open>Config\<close>, \<^verbatim>\<open>State\<close> and \<^verbatim>\<open>HostConfig\<close> are pointers and
  are options here; following a nil pointer is the value
  \<^term>\<open>Inl NilPointerDereference\<close>, a slice expression out of bounds is
  \<^term>\<open>Inl SliceBoundsOutOfRange\<close>. An unrecovered panic ends the program, so a
  panicking call returns no state. \<^verbatim>\<open>runtimeConfig\<close> and \<^verbatim>\<open>hostConfig\<close> write
  through the pointers they were given: their by-value models return the struct
  together with the snapshot as the caller finds it afterwards. Theory \<open>Store\<close>
  justifies this: it has the code's pointers, and shows that the by-value methods
  are the methods on the store as long as the container's configuration and the
  image's configuration are two objects, and what differs when objects are shared.
  A range over a Go map visits the keys in an order the language leaves open; such a
  loop takes the order as a parameter and is shown to give the same result for every
  order.

  \<^bold>\<open>What the lemmas show.\<close> For each method: its value on every input and the exact
  set of inputs on which it panics. For the classifiers: the conditions of the
  specification's section 8 (the three label and state conditions, the effect of the
  state string and of the \<^verbatim>\<open>tugbot.created.from\<close> label). For the method set as a
  whole: on a complete snapshot every sequence of calls returns, with answers of the
  methods' result types, and leaves a complete snapshot. For \<^verbatim>\<open>ImageName\<close>: the
  result always carries a tag delimiter, is a fixed point, and is decided by the
  compatibility label when that is present. For \<^verbatim>\<open>runtimeConfig\<close>: each field of
  the result in closed form, the cleared result on a configuration equal to the
  image's, independence of the order of the image's environment, idempotence, and
  the panics. For \<^verbatim>\<open>hostConfig\<close>: that the loop writing in place is the map of its
  body over the links, the rewritten link in closed form, idempotence,
  that the names \<^verbatim>\<open>Links\<close> reports are unchanged, and the panics. For the driver,
  by induction over its runs: only candidates that are not the agent's own container
  are launched; with a client that does not panic, nothing but the cancellation
  stops the loop, whatever fails; a pass makes the list call and the launches of the
  candidates in the order of the list; the cancellation is served between any two
  containers of a pass. For the call of the driver: it returns when the cancellation
  is observed, with any client; between two waits it makes at most one request, so a
  cancellation observed at the \<open>n\<close>-th wait comes after at most \<open>n\<close> requests; with
  a client that keeps its contract it returns for no other reason. For the loop over
  the preparing client: what it submits for complete snapshots, and the panic that
  ends it at a candidate without image. For a pass on the store: it is the by-value
  pass when the listed containers share no object that a launch writes
  (\<^term>\<open>separate\<close>), and it skips the second of two candidates that share their
  configuration object when the image declares the test label. For runs of several
  passes on the store: a container that every list call returns again is launched
  once and not again when its image declares the test label. The modes are
  ordered (\<^term>\<open>Ticking\<close> below the two final modes), and no run goes down in this
  order. For the store: the refinement of the by-value methods, the effect of \<^verbatim>\<open>runtimeConfig\<close> on a second container that shares the configuration
  object, and on an image that shares it. For the tests: the verdict of each test
  for every schedule of the cancellation. The first two tests pass, with the calls
  the specification's scenarios name, exactly when the loop observes the
  cancellation after \<^verbatim>\<open>wg1\<close> is released, and hang otherwise; the third test
  never hangs, and passes or panics in the driver's goroutine after which of the
  waits observes the cancellation. For the goroutines of a test: in every
  interleaving the assertions are made after the driver has returned, on the final
  state of a run of \<^term>\<open>exec_test\<close>; every such run has an interleaving; and the
  goroutines do not block each other, so a test that does not finish is a test
  whose loop keeps running.

  \<^bold>\<open>Bounds.\<close> Nothing is bounded: strings, slices and maps are of any size, and no
  definition takes fuel. The loops of the methods are recursive functions with
  their termination proved (\<^term>\<open>links_loop\<close> by the number of links left,
  \<^term>\<open>split_from\<close> by the length of the rest). The loop of the driver does not end by itself: its steps
  are total, a run is a finite sequence of events of any length, and the blocking
  call is a \<^theory_text>\<open>partial_function\<close> into \<^typ>\<open>'a option\<close> whose value \<^term>\<open>None\<close> is
  the call that never returns; that it returns is proved from the cancellation, not
  assumed. Time is not modelled: the interval of the timer is the order of the
  events, and the latency of the cancellation is counted in requests to the client.

  \<^bold>\<open>Not modelled.\<close> The text of the log entries; the code and the wire protocol
  of the real runtime client, which are not among the sources (the loop is proved
  for every client, and \<^term>\<open>preparing_client\<close> stands for the real one where its
  use of \<^verbatim>\<open>runtimeConfig\<close> and \<^verbatim>\<open>hostConfig\<close> matters); the filter argument of
  \<^verbatim>\<open>ListContainers\<close> (the driver passes one fixed filter and the mock client of the
  tests accepts any, so a list call of the model has no argument and the client
  answers with what the filter has let through); the scheduler of the Go
  runtime beyond the interleaving of statements (theory \<open>Goroutines\<close> takes a
  statement of a goroutine and a step of the driver's loop as atomic, which they
  are for what the goroutines share: only the driver's goroutine calls the client,
  and the test's goroutine reads the shared variables after \<^verbatim>\<open>wg2.Wait()\<close>); the fields of the \<^verbatim>\<open>dockerclient\<close> structs that
  \<^verbatim>\<open>container.go\<close> never touches. The code of the helpers \<^verbatim>\<open>sliceSubtract\<close>,
  \<^verbatim>\<open>stringMapSubtract\<close> and \<^verbatim>\<open>structMapSubtract\<close> is not among the sources:
  they are taken to return a fresh, non-nil result, so that the assignment to
  \<^verbatim>\<open>config.ExposedPorts[p]\<close> does not panic. The backing arrays of slices: the
  sources copy no slice, so no two slices share an array, and a slice is the list
  of its elements; the assignment to \<^verbatim>\<open>hostConfig.Links[i]\<close> is an update of the
  list held by the host configuration object.

  \<^bold>\<open>Plan.\<close> (1) The classifier and the accessors. (2) The configuration diff and
  the link rewriting, with the snapshot they leave behind. (3) The polling loop of
  the specification's section 4.2 as a step relation over the runtime client's
  answers, with the scenarios of \<^verbatim>\<open>ticker_test.go\<close> as runs. (4) The store of
  objects addressed by pointers with the refinement of the by-value operations.
  (5) The blocking call of the driver with its termination and latency, the method
  set as one interface with its invariant, the mutex and the second wait group of
  the tests with the verdict of each test for every schedule, the loop over a
  client that prepares its launches, and a pass of that loop on the store. (6) Runs
  of several passes on the store with a client that returns the same containers at
  every list call. (7) The two goroutines of a test as an interleaving, and the
  loops of \<^verbatim>\<open>hostConfig\<close> and \<^verbatim>\<open>Links\<close> as they are written. These seven are
  done. What is left is the code of the driver,
  of the runtime client and of the subtraction helpers, once they are among the
  sources.
\<close>

section \<open>Preparing a launch\<close>

text \<open>
  The two methods that prepare a create call work on disjoint parts of the snapshot:
  \<^verbatim>\<open>runtimeConfig\<close> writes the configuration and reads the port bindings,
  \<^verbatim>\<open>hostConfig\<close> writes the links.
\<close>

lemma hostConfig_after_runtimeConfig:
  assumes "runtimeConfig c = Inr (cfg, c1)" and "hostConfig c1 = Inr (hc1, c2)"
  shows "\<exists>info hc. containerInfo c = Some info \<and> ci_HostConfig info = Some hc \<and>
           hc_PortBindings hc1 = hc_PortBindings hc \<and>
           hostConfig c = Inr (hc1, c\<lparr>containerInfo := Some (info\<lparr>ci_HostConfig := Some hc1\<rparr>)\<rparr>) \<and>
           c2 = c\<lparr>containerInfo := Some (info\<lparr>ci_Config := Some cfg, ci_HostConfig := Some hc1\<rparr>)\<rparr>"
  using assms
  by (auto simp: runtimeConfig_Inr hostConfig_Inr)

text \<open>
  C38. The two preparations commute: if \<^verbatim>\<open>runtimeConfig\<close> and then
  \<^verbatim>\<open>hostConfig\<close> succeed, then so do \<^verbatim>\<open>hostConfig\<close> and then
  \<^verbatim>\<open>runtimeConfig\<close>, with the same configuration, the same host configuration and
  the same snapshot at the end.
\<close>

theorem runtimeConfig_hostConfig_commute:
  assumes "runtimeConfig c = Inr (cfg, c1)" and "hostConfig c1 = Inr (hc1, c2)"
  shows "\<exists>c3. hostConfig c = Inr (hc1, c3) \<and> runtimeConfig c3 = Inr (cfg, c2)"
proof -
  from assms obtain info hc where info: "containerInfo c = Some info"
    and hc: "ci_HostConfig info = Some hc"
    and ports: "hc_PortBindings hc1 = hc_PortBindings hc"
    and first: "hostConfig c =
      Inr (hc1, c\<lparr>containerInfo := Some (info\<lparr>ci_HostConfig := Some hc1\<rparr>)\<rparr>)"
    and c2: "c2 = c\<lparr>containerInfo := Some (info\<lparr>ci_Config := Some cfg, ci_HostConfig := Some hc1\<rparr>)\<rparr>"
    using hostConfig_after_runtimeConfig by blast
  from assms(1) info hc obtain config img imageConfig where
    config: "ci_Config info = Some config" and img: "imageInfo c = Some img"
    and imageConfig: "ii_Config img = Some imageConfig"
    and cfg: "cfg = DeriveOverrideConfig config imageConfig hc (image_after config imageConfig)"
    by (auto simp: runtimeConfig_Inr override_eq)
  have "DeriveOverrideConfig config imageConfig hc1 (image_after config imageConfig) = cfg"
    by (simp add: cfg DeriveOverrideConfig_def ports)
  then have "runtimeConfig (c\<lparr>containerInfo := Some (info\<lparr>ci_HostConfig := Some hc1\<rparr>)\<rparr>) =
      Inr (cfg, c2)"
    by (simp add: runtimeConfig_override
        [where info = "info\<lparr>ci_HostConfig := Some hc1\<rparr>" and config = config
           and img = img and imageConfig = imageConfig and hc = hc1] config img imageConfig c2)
  with first show ?thesis by blast
qed

theorem runtimeConfig_hostConfig_commute_witness:
  "\<exists>c3. hostConfig run_container = Inr (run_host, c3) \<and>
     runtimeConfig c3 =
       Inr (run_override,
            run_container\<lparr>containerInfo := Some (run_info\<lparr>ci_Config := Some run_override\<rparr>)\<rparr>)"
proof -
  have "hostConfig
      (run_container\<lparr>containerInfo := Some (run_info\<lparr>ci_Config := Some run_override\<rparr>)\<rparr>) =
    Inr (run_host,
      run_container\<lparr>containerInfo := Some (run_info\<lparr>ci_Config := Some run_override\<rparr>)\<rparr>)"
    by (simp add: hostConfig_mapM run_info_def run_host_def)
  from runtimeConfig_hostConfig_commute [OF runtimeConfig_run this] show ?thesis .
qed

text \<open>
  The container of the first scenario of the specification's section 8, named
  \<^verbatim>\<open>My Test Container\<close>, is not the agent's own container, is a candidate, and
  keeps its name; it has no image, so neither preparation of a launch can run on it.
\<close>

theorem test_container_scenario:
  "IsTugbot test_c = Inr False \<and> IsTugbotCandidate test_c = Inr True \<and>
   Name test_c = Inr ''My Test Container'' \<and> ID test_c = Inr ''02131b95b737'' \<and>
   panics (runtimeConfig test_c) \<and> panics (hostConfig test_c)"
  by (simp add: test_c_def test_container_not_tugbot test_container_candidate
      test_container_Name strings_TrimPrefix_single ID_def test_container_info
      runtimeConfig_not_launchable launchable_def hostConfig_nil)

end
